theory Spec2Isabelle
  imports Complex_Main
begin

section \<open>Errors and the sorted line list\<close>

text \<open>
  Every \<^verbatim>\<open>abort()\<close>, every failed \<^verbatim>\<open>assert_always\<close> and every read outside an array is a
  value of this type; a function that can reach one of them returns \<open>error + 'a\<close>.
  Doubles are modelled as reals throughout.
\<close>

datatype error =
    OutOfRange
  | Assert_ldist
  | Assert_tdist
  | Assert_edist
  | Assert_false
  | Assert_unitvec
  | Assert_kappa_bf_sum
  | Assert_allcontindex
  | Assert_mgi_nonempty
  | Assert_not_thick
  | Assert_nu_positive
  | Assert_nu_cmf_abort
  | Abort_kappa_ff_nonfinite
  | Abort_kappa_bf_contr_nonfinite
  | Abort_kappa_total_nonfinite
  | Abort_continuum_process
  | Abort_large_sdist
  | Abort_inappropriate_cell
  | Abort_failed_to_identify_event
  | Abort_gammaestimator_nonfinite

record linelist_entry =
  nu :: real
  elementindex :: int
  ionindex :: int
  upperlevelindex :: int
  lowerlevelindex :: int

definition nlines :: "linelist_entry list \<Rightarrow> int" where
  "nlines linelist = int (length linelist)"

text \<open>\<^verbatim>\<open>globals::linelist[i]\<close>; an index outside the array is an error of the model.\<close>

definition linelist_at :: "linelist_entry list \<Rightarrow> int \<Rightarrow> error + linelist_entry" where
  "linelist_at linelist i =
     (if 0 \<le> i \<and> i < nlines linelist then Inr (linelist ! nat i) else Inl OutOfRange)"

text \<open>\<^verbatim>\<open>operator<(const linelist_entry &line, const double &nu_cmf)\<close>\<close>

definition line_less :: "linelist_entry \<Rightarrow> real \<Rightarrow> bool" where
  "line_less line nu_cmf = (\<not> (nu line \<le> nu_cmf))"

text \<open>
  \<^verbatim>\<open>std::lower_bound(&linelist[first], &linelist[first + len], nu_cmf)\<close> with the comparison
  above, as the standard library computes it: bisection on the remaining length.
  The result is the index of the element the returned pointer points at.
\<close>

function lower_bound :: "linelist_entry list \<Rightarrow> int \<Rightarrow> int \<Rightarrow> real \<Rightarrow> error + int" where
  "lower_bound linelist first len nu_cmf =
     (if 0 < len then
        (case linelist_at linelist (first + len div 2) of
           Inl e \<Rightarrow> Inl e
         | Inr line \<Rightarrow>
             if line_less line nu_cmf
             then lower_bound linelist (first + len div 2 + 1) (len - len div 2 - 1) nu_cmf
             else lower_bound linelist first (len div 2) nu_cmf)
      else Inr first)"
  by pat_completeness auto
termination
  by (relation "measure (\<lambda>(linelist, first, len, nu_cmf). nat len)") auto

declare lower_bound.simps [simp del]

text \<open>\<^verbatim>\<open>closest_transition\<close> of the current r-packet module (the \<^verbatim>\<open>std::lower_bound\<close> version).\<close>

definition closest_transition :: "linelist_entry list \<Rightarrow> real \<Rightarrow> int \<Rightarrow> error + int" where
  "closest_transition linelist nu_cmf next_trans =
     (let left = next_trans; right = nlines linelist - 1 in
      case linelist_at linelist right of
        Inl e \<Rightarrow> Inl e
      | Inr lastline \<Rightarrow>
          if nu_cmf < nu lastline then Inr (- 1)
          else if left > right then Inr (- 1)
          else if left > 0 then Inr left
          else (case linelist_at linelist 0 of
                  Inl e \<Rightarrow> Inl e
                | Inr firstline \<Rightarrow>
                    if nu_cmf \<ge> nu firstline then Inr 0
                    else lower_bound linelist next_trans (nlines linelist - next_trans) nu_cmf))"

text \<open>
  \<^verbatim>\<open>closest_transition\<close> of the older r-packet module: the same tests, followed by a
  hand-written bisection.  \<open>closest_transition_while\<close> is its \<^verbatim>\<open>while (left <= right)\<close>
  loop; \<^verbatim>\<open>&&\<close> reads \<^verbatim>\<open>linelist[middle - 1]\<close> only when the first test holds.
\<close>

function closest_transition_while ::
  "linelist_entry list \<Rightarrow> real \<Rightarrow> int \<Rightarrow> int \<Rightarrow> int \<Rightarrow> error + int" where
  "closest_transition_while linelist nu_cmf left right middle =
     (if left \<le> right then
        (case linelist_at linelist (left + (right - left) div 2) of
           Inl e \<Rightarrow> Inl e
         | Inr midline \<Rightarrow>
             if nu_cmf \<ge> nu midline then
               (case linelist_at linelist (left + (right - left) div 2 - 1) of
                  Inl e \<Rightarrow> Inl e
                | Inr prevline \<Rightarrow>
                    if nu_cmf < nu prevline then Inr (left + (right - left) div 2)
                    else closest_transition_while linelist nu_cmf left
                           (left + (right - left) div 2 - 1) (left + (right - left) div 2))
             else closest_transition_while linelist nu_cmf
                    (left + (right - left) div 2 + 1) right (left + (right - left) div 2))
      else Inr middle)"
  by pat_completeness auto
termination
  by (relation "measure (\<lambda>(linelist, nu_cmf, left, right, middle). nat (right - left + 1))") auto

declare closest_transition_while.simps [simp del]

definition closest_transition_old :: "linelist_entry list \<Rightarrow> real \<Rightarrow> int \<Rightarrow> error + int" where
  "closest_transition_old linelist nu_cmf next_trans =
     (let left = next_trans; right = nlines linelist - 1 in
      case linelist_at linelist right of
        Inl e \<Rightarrow> Inl e
      | Inr lastline \<Rightarrow>
          if nu_cmf < nu lastline then Inr (- 1)
          else if left > right then Inr (- 1)
          else if left > 0 then Inr left
          else (case linelist_at linelist 0 of
                  Inl e \<Rightarrow> Inl e
                | Inr firstline \<Rightarrow>
                    if nu_cmf \<ge> nu firstline then Inr 0
                    else closest_transition_while linelist nu_cmf left right 1))"


text \<open>The line list is ordered by descending frequency; \<open>sorted_desc_strict\<close> excludes
  equal frequencies.\<close>

definition sorted_desc :: "linelist_entry list \<Rightarrow> bool" where
  "sorted_desc linelist = sorted_wrt (\<lambda>a b. nu b \<le> nu a) linelist"

definition sorted_desc_strict :: "linelist_entry list \<Rightarrow> bool" where
  "sorted_desc_strict linelist = sorted_wrt (\<lambda>a b. nu b < nu a) linelist"

section \<open>Packets, tables and the per-thread state\<close>

type_synonym vec = "real \<times> real \<times> real"

text \<open>
  Modelled from the spec: the vector helpers of \<^verbatim>\<open>vectors.h\<close>, which is not among the sources.
  They are the Euclidean operations the specification writes as \<open>dir \<cdot> pos\<close>, \<open>|pos|\<close>,
  \<open>dir \<times> z\<close> and "normalized".
\<close>

fun dot :: "vec \<Rightarrow> vec \<Rightarrow> real" where
  "dot (x0, x1, x2) (y0, y1, y2) = x0 * y0 + x1 * y1 + x2 * y2"

definition vec_len :: "vec \<Rightarrow> real" where
  "vec_len x = sqrt (dot x x)"

fun cross_prod :: "vec \<Rightarrow> vec \<Rightarrow> vec" where
  "cross_prod (x0, x1, x2) (y0, y1, y2) =
     (x1 * y2 - y1 * x2, x2 * y0 - y2 * x0, x0 * y1 - y0 * x1)"

fun vec_scale :: "real \<Rightarrow> vec \<Rightarrow> vec" where
  "vec_scale k (x0, x1, x2) = (k * x0, k * x1, k * x2)"

fun vec_add :: "vec \<Rightarrow> vec \<Rightarrow> vec" where
  "vec_add (x0, x1, x2) (y0, y1, y2) = (x0 + y0, x1 + y1, x2 + y2)"

definition vec_norm :: "vec \<Rightarrow> vec" where
  "vec_norm x = vec_scale (1 / vec_len x) x"

datatype packet_type = TYPE_ESCAPE | TYPE_GAMMA | TYPE_RPKT | TYPE_KPKT | TYPE_MA

datatype cell_boundary = NEG_X | POS_X | NEG_Y | POS_Y | NEG_Z | POS_Z | NONE

text \<open>\<^verbatim>\<open>pkt_ptr->mastate\<close>; the fields carry the prefix \<open>ma_\<close>.\<close>

record mastate_type =
  ma_element :: int
  ma_ion :: int
  ma_level :: int
  ma_activatingline :: int

text \<open>
  \<^verbatim>\<open>struct packet\<close>, with the fields the r-packet routines read or write.  \<^verbatim>\<open>where\<close> and
  \<^verbatim>\<open>type\<close> are \<open>pkt_where\<close> and \<open>pkt_type\<close>.
\<close>

record packet =
  pkt_where :: int
  pkt_type :: packet_type
  last_cross :: cell_boundary
  interactions :: int
  nscatterings :: int
  last_event :: int
  scat_count :: int
  pos :: vec
  dir :: vec
  nu_cmf :: real
  nu_rf :: real
  e_cmf :: real
  e_rf :: real
  prop_time :: real
  next_trans :: int
  escape_type :: packet_type
  escape_time :: real
  em_pos :: vec
  em_time :: real
  absorptiontype :: int
  absorptionfreq :: real
  absorptiondir :: vec
  stokes :: vec
  pol_dir :: vec
  emissiontype :: int
  mastate :: mastate_type

text \<open>\<^verbatim>\<open>struct fullphixslist\<close>, an entry of \<^verbatim>\<open>globals::allcont\<close>.\<close>

record fullphixslist =
  nu_edge :: real
  element :: int
  ion :: int
  level :: int
  phixstargetindex :: int
  upperlevel :: int
  probability :: real
  photoion_xs :: "real list"
  index_in_groundphixslist :: int

text \<open>
  \<^verbatim>\<open>struct groundphixslist\<close>, an entry of \<^verbatim>\<open>globals::groundcont\<close>, with the fields
  \<^verbatim>\<open>update_estimators\<close> reads; they carry the prefix \<open>gc_\<close>.
\<close>

record groundphixslist =
  gc_nu_edge :: real
  gc_element :: int
  gc_ion :: int

text \<open>
  \<^verbatim>\<open>struct rpkt_cont_opacity\<close>, the opacity cache.  Its fields \<^verbatim>\<open>nu\<close> and
  \<^verbatim>\<open>modelgridindex\<close> are \<open>cont_nu\<close> and \<open>cont_modelgridindex\<close>.
\<close>

record rpkt_cont_opacity =
  cont_nu :: real
  total :: real
  es :: real
  ff :: real
  bf :: real
  ffheating :: real
  cont_modelgridindex :: int
  recalculate_required :: bool

text \<open>
  Calls whose effect lies outside the packet and the per-thread scratch (estimator arrays,
  statistics counters, virtual packets) are recorded, in order, in a trace; so are the
  calls of the routines the stepper dispatches to.
\<close>

datatype stats_counter =
    COUNTER_ESCOUNTER
  | COUNTER_K_STAT_FROM_FF
  | COUNTER_K_STAT_FROM_BF
  | COUNTER_MA_STAT_ACTIVATION_BF
  | COUNTER_MA_STAT_ACTIVATION_BB
  | COUNTER_CELLCROSSINGS

datatype call =
    Update_lineestimator int int real
  | Update_estimators real
  | Radfield_update_estimators int real real
  | Rlc_emiss_rpkt real
  | Vpkt_call_estimators real int
  | Stats_increment stats_counter
  | Increment_ion_stats_contabsorption int int int
  | Increment_ion_stats_photoion int int int real
  | Increment_ion_stats_radexc int int int real
  | Increment_ion_stats_bb_absorbed int int int real
  | Acounter_increment int
  | Safeincrement_nesc
  | Change_cell int
  | Closest_transition_empty
  | Rpkt_event_thickcell
  | Rpkt_event_boundbound
  | Rpkt_event_continuum

text \<open>
  The state one thread owns besides the packet: \<^verbatim>\<open>globals::kappa_rpkt_cont[tid]\<close>,
  the scratch arrays of \<^verbatim>\<open>globals::phixslist[tid]\<close>, the departure ratios of
  \<^verbatim>\<open>globals::cellhistory[tid]\<close>, the position in the random number stream, and the trace;
  and the estimator arrays \<^verbatim>\<open>update_estimators\<close> adds to (\<^verbatim>\<open>globals::ffheatingestimator\<close>,
  \<^verbatim>\<open>globals::gammaestimator\<close>, \<^verbatim>\<open>globals::bfheatingestimator\<close>), as one thread sees them.
  Arrays are functions of the index.
\<close>

record gstate =
  kappa_rpkt_cont :: rpkt_cont_opacity
  phixslist_kappa_bf_sum :: "int \<Rightarrow> real"
  phixslist_gamma_contr :: "int \<Rightarrow> real"
  phixslist_groundcont_gamma_contr :: "int \<Rightarrow> real"
  ch_allcont_departureratios :: "int \<Rightarrow> real"
  rng :: nat
  trace :: "call list"
  ffheatingestimator :: "int \<Rightarrow> real"
  gammaestimator :: "int \<Rightarrow> real"
  bfheatingestimator :: "int \<Rightarrow> real"

section \<open>What the r-packet routines take from the rest of the program\<close>

text \<open>
  Compile-time options (\<^verbatim>\<open>artisoptions.h\<close>) and physical constants (\<^verbatim>\<open>constants.h\<close>);
  neither file is among the sources, so they are parameters.
\<close>

record options =
  USE_RELATIVISTIC_DOPPLER_SHIFT :: bool
  DETAILED_LINE_ESTIMATORS_ON :: bool
  DETAILED_BF_ESTIMATORS_ON :: bool
  SEPARATE_STIMRECOMB :: bool
  NO_LUT_PHOTOION :: bool
  NO_LUT_BFHEATING :: bool
  VPKT_ON :: bool
  TRACK_ION_STATS :: bool
  RECORD_LINESTAT :: bool
  TESTMODE :: bool
  GRID_TYPE_SPHERICAL1D :: bool
  tid :: int
  FORCE_LTE :: bool

record constants =
  CLIGHT :: real
  CLIGHT_PROP :: real
  CLIGHTSQUAREDOVERTWOH :: real
  HCLIGHTOVERFOURPI :: real
  HPLANCK :: real
  HOVERKB :: real
  SIGMA_T :: real

text \<open>
  The global tables and switches (\<^verbatim>\<open>globals::\<close>).  \<open>linelist_overread\<close> is what a read of
  \<^verbatim>\<open>globals::linelist[i].nu\<close> yields for an index outside the array, where the source reads
  without a check and goes on (\<^verbatim>\<open>closest_transition_empty\<close>); the value is whatever the
  memory holds, so it is a parameter.
\<close>

record globals =
  linelist :: "linelist_entry list"
  allcont :: "fullphixslist list"
  nbfcontinua_ground :: int
  last_phixs_nuovernuedge :: real
  do_r_lc :: bool
  opacity_case :: int
  do_rlc_est :: int
  rmax :: real
  tmin :: real
  max_path_step :: real
  ngrid :: int
  groundcont :: "groundphixslist list"
  linelist_overread :: "int \<Rightarrow> real"

text \<open>The grid and model-grid queries (\<^verbatim>\<open>grid::\<close>).\<close>

record grid =
  get_cell_modelgridindex :: "int \<Rightarrow> int"
  get_npts_model :: int
  thick :: "int \<Rightarrow> int"
  get_kappagrey :: "int \<Rightarrow> real"
  get_rho :: "int \<Rightarrow> real"
  get_nne :: "int \<Rightarrow> real"
  get_nnetot :: "int \<Rightarrow> real"
  get_Te :: "int \<Rightarrow> real"
  get_elem_abundance :: "int \<Rightarrow> int \<Rightarrow> real"

text \<open>The atomic data queries (\<^verbatim>\<open>atomic.h\<close>, \<^verbatim>\<open>ltepop.h\<close>).\<close>

record atomic =
  get_nelements :: int
  get_nions :: "int \<Rightarrow> int"
  get_ionstage :: "int \<Rightarrow> int \<Rightarrow> int"
  ionstagepop :: "int \<Rightarrow> int \<Rightarrow> int \<Rightarrow> real"
  get_levelpop :: "int \<Rightarrow> int \<Rightarrow> int \<Rightarrow> int \<Rightarrow> real"
  stat_weight :: "int \<Rightarrow> int \<Rightarrow> int \<Rightarrow> real"
  einstein_spontaneous_emission :: "int \<Rightarrow> real"
  calculate_sahafact :: "int \<Rightarrow> int \<Rightarrow> int \<Rightarrow> int \<Rightarrow> real \<Rightarrow> real \<Rightarrow> real"
  photoionization_crosssection_fromtable :: "real list \<Rightarrow> real \<Rightarrow> real \<Rightarrow> real"
  get_phixsupperlevel :: "int \<Rightarrow> int \<Rightarrow> int \<Rightarrow> int \<Rightarrow> int"
  get_max_nions :: int

text \<open>
  Frame transforms, the random number generator and the boundary solver.
  \<open>doppler_nucmf_on_nurf\<close> is the Doppler factor \<open>D\<close> as a function of position, direction
  and time; \<open>get_velocity\<close> and \<open>angle_ab\<close> are the homologous velocity and the aberration
  of angles; \<open>get_rand_isotropic_unitvec\<close> takes the position in the random stream and
  returns the sampled direction and the new position; \<open>gsl_rng_uniform\<close> and
  \<open>gsl_rng_uniform_pos\<close> give the draw at a position of the stream (each call advances
  it by one).  \<open>boundary_cross\<close> (\<^verbatim>\<open>boundary.cc\<close>) yields the distance, \<^verbatim>\<open>snext\<close> and the
  value it leaves in the packet's \<^verbatim>\<open>last_cross\<close>, the one field it writes.  \<open>isfinite\<close> is
  \<^verbatim>\<open>std::isfinite\<close>.
\<close>

record kinematics =
  doppler_nucmf_on_nurf :: "vec \<Rightarrow> vec \<Rightarrow> real \<Rightarrow> real"
  get_velocity :: "vec \<Rightarrow> real \<Rightarrow> vec"
  angle_ab :: "vec \<Rightarrow> vec \<Rightarrow> vec"
  get_rand_isotropic_unitvec :: "nat \<Rightarrow> vec \<times> nat"
  gsl_rng_uniform :: "nat \<Rightarrow> real"
  gsl_rng_uniform_pos :: "nat \<Rightarrow> real"
  boundary_cross :: "packet \<Rightarrow> real \<times> int \<times> cell_boundary"
  isfinite :: "real \<Rightarrow> bool"

record env =
  opts :: options
  phys :: constants
  glob :: globals
  grd :: grid
  atom :: atomic
  kin :: kinematics

text \<open>\<^verbatim>\<open>std::numeric_limits<double>::max()\<close>\<close>

definition DBL_MAX :: real where
  "DBL_MAX = (2 ^ 53 - 1) * 2 ^ 971"

definition RPKT_EVENTTYPE_BB :: int where
  "RPKT_EVENTTYPE_BB = 550"

definition RPKT_EVENTTYPE_CONT :: int where
  "RPKT_EVENTTYPE_CONT = 551"


section \<open>Moving a packet\<close>

definition doppler_packet_nucmf_on_nurf :: "env \<Rightarrow> packet \<Rightarrow> real" where
  "doppler_packet_nucmf_on_nurf env pkt =
     doppler_nucmf_on_nurf (kin env) (pos pkt) (dir pkt) (prop_time pkt)"

text \<open>
  Modelled from the spec: \<^verbatim>\<open>move_pkt\<close> and \<^verbatim>\<open>move_pkt_withtime\<close> are declared in a header
  that is not among the sources.  The packet advances by \<open>distance\<close> along \<open>dir\<close>; with
  time, \<open>prop_time\<close> advances by \<open>distance / CLIGHT_PROP\<close> and the comoving frequency and
  energy follow from the rest-frame ones by the data model's invariant
  \<open>nu_rf = nu_cmf / D\<close>, \<open>e_rf = e_cmf / D\<close>.
\<close>

definition move_pkt :: "packet \<Rightarrow> real \<Rightarrow> packet" where
  "move_pkt pkt distance = pkt\<lparr>pos := vec_add (pos pkt) (vec_scale distance (dir pkt))\<rparr>"

definition move_pkt_withtime :: "env \<Rightarrow> packet \<Rightarrow> real \<Rightarrow> packet" where
  "move_pkt_withtime env pkt distance =
     (let pkt1 = pkt\<lparr>prop_time := prop_time pkt + distance / CLIGHT_PROP (phys env)\<rparr>;
          pkt2 = move_pkt pkt1 distance;
          dopplerfactor = doppler_packet_nucmf_on_nurf env pkt2
      in pkt2\<lparr>nu_cmf := nu_rf pkt2 * dopplerfactor, e_cmf := e_rf pkt2 * dopplerfactor\<rparr>)"

text \<open>\<^verbatim>\<open>change_cell\<close> (\<^verbatim>\<open>boundary.cc\<close>)\<close>

definition change_cell :: "gstate \<Rightarrow> packet \<Rightarrow> int \<Rightarrow> packet \<times> gstate" where
  "change_cell g pkt snext =
     (if snext = - 99 then
        (pkt\<lparr>escape_type := pkt_type pkt, escape_time := prop_time pkt, pkt_type := TYPE_ESCAPE\<rparr>,
         g\<lparr>trace := trace g @ [Change_cell snext, Safeincrement_nesc]\<rparr>)
      else
        (pkt\<lparr>pkt_where := snext\<rparr>,
         g\<lparr>trace := trace g @ [Change_cell snext, Stats_increment COUNTER_CELLCROSSINGS]\<rparr>))"

section \<open>Continuum opacity\<close>

text \<open>\<^verbatim>\<open>calculate_kappa_ff\<close>: the double loop over elements and ions, then the prefactor.\<close>

definition calculate_kappa_ff :: "env \<Rightarrow> int \<Rightarrow> real \<Rightarrow> error + real" where
  "calculate_kappa_ff env modelgridindex nu' =
     (if \<not> nu' > 0 then Inl Assert_nu_positive
      else
        let g_ff = 1;
            nne = get_nne (grd env) modelgridindex;
            T_e = get_Te (grd env) modelgridindex;
            kappa_ff0 =
              fold (\<lambda>el acc.
                      fold (\<lambda>io acc'.
                              let nnion = ionstagepop (atom env) modelgridindex el io;
                                  Z = get_ionstage (atom env) el io - 1
                              in if Z > 0 then acc' + real_of_int (Z * Z) * g_ff * nnion else acc')
                           [0..get_nions (atom env) el - 1] acc)
                   [0..get_nelements (atom env) - 1] 0;
            kappa_ff = kappa_ff0 * (369255000 / sqrt T_e * power_int nu' (- 3) * nne
                                     * (1 - exp (- HOVERKB (phys env) * nu' / T_e)))
        in if \<not> isfinite (kin env) kappa_ff then Inl Abort_kappa_ff_nonfinite
           else Inr kappa_ff)"

text \<open>
  The stimulated-recombination correction of one continuum (the block under
  \<^verbatim>\<open>#if (SEPARATE_STIMRECOMB) ... #else ... #endif\<close>), with the departure ratio it may
  store in the cell history.
\<close>

definition bf_corrfactor ::
  "env \<Rightarrow> gstate \<Rightarrow> int \<Rightarrow> real \<Rightarrow> int \<Rightarrow> fullphixslist \<Rightarrow> real \<Rightarrow> real \<times> gstate" where
  "bf_corrfactor env g modelgridindex nu' i c nnlevel =
     (if SEPARATE_STIMRECOMB (opts env) then (1, g)
      else
        let T_e = get_Te (grd env) modelgridindex;
            nne = get_nne (grd env) modelgridindex;
            departure_ratio0 = ch_allcont_departureratios g i;
            departure_ratio =
              (if departure_ratio0 < 0 then
                 let upper = upperlevel c;
                     nnupperionlevel = get_levelpop (atom env) modelgridindex (element c) (ion c + 1) upper;
                     sf = calculate_sahafact (atom env) (element c) (ion c) (level c) upper T_e
                            (HPLANCK (phys env) * nu_edge c)
                 in nnupperionlevel / nnlevel * nne * sf
               else departure_ratio0);
            g1 = (if departure_ratio0 < 0
                  then g\<lparr>ch_allcont_departureratios := (ch_allcont_departureratios g)(i := departure_ratio)\<rparr>
                  else g);
            stimfactor = departure_ratio * exp (- HOVERKB (phys env) * nu' / T_e);
            corrfactor = 1 - stimfactor
        in (if corrfactor < 0 then 0 else corrfactor, g1))"

text \<open>
  The first loop of \<^verbatim>\<open>calculate_kappa_bf_gammacontr\<close>, over \<^verbatim>\<open>allcont[i], allcont[i+1], ...\<close>
  (the list argument) with the running \<^verbatim>\<open>kappa_bf_sum\<close>.  It returns the index at which it
  stopped (the \<^verbatim>\<open>break\<close>, or \<^verbatim>\<open>nbfcontinua\<close>), the sum and the state.
\<close>

fun kappa_bf_loop ::
  "env \<Rightarrow> int \<Rightarrow> real \<Rightarrow> fullphixslist list \<Rightarrow> int \<Rightarrow> real \<Rightarrow> gstate \<Rightarrow> error + (int \<times> real \<times> gstate)" where
  "kappa_bf_loop env modelgridindex nu' [] i kappa_bf_sum g = Inr (i, kappa_bf_sum, g)"
| "kappa_bf_loop env modelgridindex nu' (c # rest) i kappa_bf_sum g =
     (if (DETAILED_BF_ESTIMATORS_ON (opts env)
            \<and> get_elem_abundance (grd env) modelgridindex (element c) > 0)
         \<or> (\<not> DETAILED_BF_ESTIMATORS_ON (opts env)
            \<and> (ionstagepop (atom env) modelgridindex (element c) (ion c)
                  / get_nnetot (grd env) modelgridindex > 0.000001
               \<or> level c = 0))
      then
        (let nnlevel = get_levelpop (atom env) modelgridindex (element c) (ion c) (level c);
             nu_max_phixs = nu_edge c * last_phixs_nuovernuedge (glob env)
         in if nu' < nu_edge c then Inr (i, kappa_bf_sum, g)
            else if nu' \<le> nu_max_phixs \<and> nnlevel > 0 then
              (let sigma_bf = photoionization_crosssection_fromtable (atom env)
                                (photoion_xs c) (nu_edge c) nu';
                   (corrfactor, g1) = bf_corrfactor env g modelgridindex nu' i c nnlevel;
                   kappa_bf_contr = nnlevel * sigma_bf * probability c * corrfactor;
                   g2 = (if (\<not> NO_LUT_PHOTOION (opts env) \<or> \<not> NO_LUT_BFHEATING (opts env))
                            \<and> level c = 0
                         then g1\<lparr>phixslist_groundcont_gamma_contr :=
                                   (phixslist_groundcont_gamma_contr g1)
                                     (index_in_groundphixslist c :=
                                        phixslist_groundcont_gamma_contr g1 (index_in_groundphixslist c)
                                        + sigma_bf * probability c * corrfactor)\<rparr>
                         else g1);
                   g3 = (if DETAILED_BF_ESTIMATORS_ON (opts env)
                         then g2\<lparr>phixslist_gamma_contr :=
                                   (phixslist_gamma_contr g2)(i := sigma_bf * probability c * corrfactor)\<rparr>
                         else g2)
               in if \<not> isfinite (kin env) kappa_bf_contr then Inl Abort_kappa_bf_contr_nonfinite
                  else kappa_bf_loop env modelgridindex nu' rest (i + 1)
                         (kappa_bf_sum + kappa_bf_contr)
                         (g3\<lparr>phixslist_kappa_bf_sum :=
                               (phixslist_kappa_bf_sum g3)(i := kappa_bf_sum + kappa_bf_contr)\<rparr>))
            else
              kappa_bf_loop env modelgridindex nu' rest (i + 1) kappa_bf_sum
                (g\<lparr>phixslist_kappa_bf_sum := (phixslist_kappa_bf_sum g)(i := kappa_bf_sum),
                    phixslist_gamma_contr :=
                      (if DETAILED_BF_ESTIMATORS_ON (opts env)
                       then (phixslist_gamma_contr g)(i := 0) else phixslist_gamma_contr g)\<rparr>))
      else
        kappa_bf_loop env modelgridindex nu' rest (i + 1) kappa_bf_sum
          (g\<lparr>phixslist_kappa_bf_sum := (phixslist_kappa_bf_sum g)(i := kappa_bf_sum),
              phixslist_gamma_contr :=
                (if DETAILED_BF_ESTIMATORS_ON (opts env)
                 then (phixslist_gamma_contr g)(i := 0) else phixslist_gamma_contr g)\<rparr>))"

definition nbfcontinua :: "env \<Rightarrow> int" where
  "nbfcontinua env = int (length (allcont (glob env)))"

text \<open>
  What \<^verbatim>\<open>input.cc\<close> asserts of every photoionisation table it reads, as seen by the loop
  over \<^verbatim>\<open>allcont\<close>: the target probability and the cross-section at the frequency are not
  negative.
\<close>

definition nonneg_cont :: "env \<Rightarrow> real \<Rightarrow> fullphixslist \<Rightarrow> bool" where
  "nonneg_cont env v c \<longleftrightarrow>
     0 \<le> probability c
     \<and> 0 \<le> photoionization_crosssection_fromtable (atom env) (photoion_xs c) (nu_edge c) v"

text \<open>
  \<^verbatim>\<open>calculate_kappa_bf_gammacontr\<close>: clear the ground-level contributions, run the first
  loop from \<open>i = 0\<close>, then the second loop \<^verbatim>\<open>for (; i < nbfcontinua; i++)\<close>, which writes the
  sum to every remaining index.
\<close>

definition calculate_kappa_bf_gammacontr ::
  "env \<Rightarrow> gstate \<Rightarrow> int \<Rightarrow> real \<Rightarrow> error + (real \<times> gstate)" where
  "calculate_kappa_bf_gammacontr env g modelgridindex nu' =
     (let g0 = (if \<not> NO_LUT_PHOTOION (opts env) \<or> \<not> NO_LUT_BFHEATING (opts env)
                then g\<lparr>phixslist_groundcont_gamma_contr :=
                         fold (\<lambda>gphixsindex a. a(gphixsindex := 0))
                              [0..nbfcontinua_ground (glob env) - 1]
                              (phixslist_groundcont_gamma_contr g)\<rparr>
                else g)
      in case kappa_bf_loop env modelgridindex nu' (allcont (glob env)) 0 0 g0 of
           Inl e \<Rightarrow> Inl e
         | Inr (i, kappa_bf_sum, g1) \<Rightarrow>
             Inr (kappa_bf_sum,
                  g1\<lparr>phixslist_kappa_bf_sum :=
                        fold (\<lambda>k a. a(k := kappa_bf_sum)) [i..nbfcontinua env - 1]
                             (phixslist_kappa_bf_sum g1),
                      phixslist_gamma_contr :=
                        (if DETAILED_BF_ESTIMATORS_ON (opts env)
                         then fold (\<lambda>k a. a(k := 0)) [i..nbfcontinua env - 1] (phixslist_gamma_contr g1)
                         else phixslist_gamma_contr g1)\<rparr>))"

text \<open>
  The opacities \<^verbatim>\<open>calculate_kappa_rpkt_cont\<close> computes on a cache miss:
  \<open>(sigma, kappa_ff, kappa_bf, kappa_ffheating)\<close> and the state.  The source holds
  \<^verbatim>\<open>nne\<close> in a \<^verbatim>\<open>float\<close> here; the rounding is not modelled.
\<close>

definition kappa_rpkt_cont_compute ::
  "env \<Rightarrow> gstate \<Rightarrow> int \<Rightarrow> real \<Rightarrow> error + (real \<times> real \<times> real \<times> real \<times> gstate)" where
  "kappa_rpkt_cont_compute env g modelgridindex nu_cmf' =
     (let nne = get_nne (grd env) modelgridindex in
      if do_r_lc (glob env) then
        (if opacity_case (glob env) = 4 then
           (case calculate_kappa_ff env modelgridindex nu_cmf' of
              Inl e \<Rightarrow> Inl e
            | Inr kappa_ff \<Rightarrow>
                (case calculate_kappa_bf_gammacontr env g modelgridindex nu_cmf' of
                   Inl e \<Rightarrow> Inl e
                 | Inr (kappa_bf, g1) \<Rightarrow>
                     Inr (SIGMA_T (phys env) * nne, kappa_ff, kappa_bf, kappa_ff, g1)))
         else
           (case calculate_kappa_ff env modelgridindex nu_cmf' of
              Inl e \<Rightarrow> Inl e
            | Inr kappa_ff \<Rightarrow> Inr (0, 100000 * kappa_ff, 0, 0, g)))
      else Inr (0, 0, 0, 0, g))"

text \<open>\<^verbatim>\<open>calculate_kappa_rpkt_cont(pkt_ptr, &globals::kappa_rpkt_cont[tid])\<close>\<close>

definition calculate_kappa_rpkt_cont :: "env \<Rightarrow> gstate \<Rightarrow> packet \<Rightarrow> error + gstate" where
  "calculate_kappa_rpkt_cont env g pkt =
     (let cellindex = pkt_where pkt;
          modelgridindex = get_cell_modelgridindex (grd env) cellindex
      in if \<not> modelgridindex \<noteq> get_npts_model (grd env) then Inl Assert_mgi_nonempty
         else if \<not> thick (grd env) modelgridindex \<noteq> 1 then Inl Assert_not_thick
         else if modelgridindex = cont_modelgridindex (kappa_rpkt_cont g)
                 \<and> \<not> recalculate_required (kappa_rpkt_cont g)
                 \<and> \<bar>cont_nu (kappa_rpkt_cont g) / nu_cmf pkt - 1.0\<bar> < 0.0001
         then Inr g
         else
           (case kappa_rpkt_cont_compute env g modelgridindex (nu_cmf pkt) of
              Inl e \<Rightarrow> Inl e
            | Inr (sigma, kappa_ff, kappa_bf, kappa_ffheating, g1) \<Rightarrow>
                let c = \<lparr>cont_nu = nu_cmf pkt, total = sigma + kappa_bf + kappa_ff, es = sigma,
                         ff = kappa_ff, bf = kappa_bf, ffheating = kappa_ffheating,
                         cont_modelgridindex = modelgridindex, recalculate_required = False\<rparr>
                in if \<not> isfinite (kin env) (total c) then
                     (if isfinite (kin env) (es c)
                      then Inr (g1\<lparr>kappa_rpkt_cont := c\<lparr>ff := 0, bf := 0, total := es c\<rparr>\<rparr>)
                      else Inl Abort_kappa_total_nonfinite)
                   else Inr (g1\<lparr>kappa_rpkt_cont := c\<rparr>)))"

text \<open>
  What the assertion of \<^verbatim>\<open>rpkt_event_continuum\<close> needs of the state: the cached \<open>bf\<close> is
  the last entry of \<^verbatim>\<open>kappa_bf_sum\<close>, or it is zero (the bound-free branch is then out of
  reach).  A cache marked \<^verbatim>\<open>recalculate_required\<close> is recomputed before it is used, so a
  state is consistent when it is so marked or the entry matches.  \<open>same_opacity\<close> relates
  two states with the same cache and the same array.
\<close>

definition kappa_bf_sum_matches :: "env \<Rightarrow> gstate \<Rightarrow> bool" where
  "kappa_bf_sum_matches env g \<longleftrightarrow>
     bf (kappa_rpkt_cont g) = 0
     \<or> (0 < nbfcontinua env
        \<and> phixslist_kappa_bf_sum g (nbfcontinua env - 1) = bf (kappa_rpkt_cont g))"

definition kappa_cache_consistent :: "env \<Rightarrow> gstate \<Rightarrow> bool" where
  "kappa_cache_consistent env g \<longleftrightarrow>
     recalculate_required (kappa_rpkt_cont g) \<or> kappa_bf_sum_matches env g"

definition same_opacity :: "gstate \<Rightarrow> gstate \<Rightarrow> bool" where
  "same_opacity g g' \<longleftrightarrow>
     kappa_rpkt_cont g' = kappa_rpkt_cont g
     \<and> phixslist_kappa_bf_sum g' = phixslist_kappa_bf_sum g"


section \<open>Distance to the next physical event\<close>

text \<open>
  \<^verbatim>\<open>ldist\<close> in \<^verbatim>\<open>get_event\<close>: the distance from the shadow packet to the line, and the
  clamp of a negative value (\<^verbatim>\<open>assert_always(ldist >= -100.)\<close>).
\<close>

definition get_event_ldist :: "env \<Rightarrow> packet \<Rightarrow> real \<Rightarrow> error + real" where
  "get_event_ldist env dummypkt nu_trans =
     (let ldist =
            (if nu_cmf dummypkt \<le> nu_trans then 0
             else if \<not> USE_RELATIVISTIC_DOPPLER_SHIFT (opts env) then
               CLIGHT (phys env) * prop_time dummypkt * (nu_cmf dummypkt / nu_trans - 1)
             else
               let nu_r = nu_trans / nu_rf dummypkt;
                   ct = CLIGHT (phys env) * prop_time dummypkt;
                   r = vec_len (pos dummypkt);
                   mu = dot (dir dummypkt) (pos dummypkt) / r
               in - mu * r
                  + (ct - nu_r * nu_r
                          * sqrt (ct * ct - (1 + r * r * (1 - mu * mu) * (1 + power_int nu_r (- 2)))))
                    / (1 + nu_r * nu_r))
      in if ldist < 0 then (if \<not> ldist \<ge> - 100 then Inl Assert_ldist else Inr 0)
         else Inr ldist)"

text \<open>The Sobolev optical depth \<^verbatim>\<open>tau_line\<close> of the line, clamped at zero.\<close>

definition get_event_tau_line :: "env \<Rightarrow> int \<Rightarrow> int \<Rightarrow> linelist_entry \<Rightarrow> real \<Rightarrow> real" where
  "get_event_tau_line env modelgridindex lineindex line prop_time' =
     (let nu_trans = nu line;
          el = elementindex line;
          io = ionindex line;
          upper = upperlevelindex line;
          lower = lowerlevelindex line;
          A_ul = einstein_spontaneous_emission (atom env) lineindex;
          B_ul = CLIGHTSQUAREDOVERTWOH (phys env) / nu_trans ^ 3 * A_ul;
          B_lu = stat_weight (atom env) el io upper / stat_weight (atom env) el io lower * B_ul;
          n_u = get_levelpop (atom env) modelgridindex el io upper;
          n_l = get_levelpop (atom env) modelgridindex el io lower;
          tau_line = (B_lu * n_l - B_ul * n_u) * HCLIGHTOVERFOURPI (phys env) * prop_time'
      in if tau_line < 0 then 0 else tau_line)"

text \<open>The variables of the loop of \<^verbatim>\<open>get_event\<close>.\<close>

record get_event_state =
  ge_tau :: real
  ge_dist :: real
  ge_dummypkt :: packet
  ge_g :: gstate

text \<open>
  What a \<^verbatim>\<open>return\<close> of \<^verbatim>\<open>get_event\<close> leaves: the distance, the caller's packet, the event
  type behind \<^verbatim>\<open>rpkt_eventtype\<close>, the state, and the shadow packet as it is at the return.
\<close>

record get_event_result =
  res_edist :: real
  res_pkt :: packet
  res_eventtype :: int
  res_g :: gstate
  res_dummypkt :: packet

datatype ('s, 'r) step = Continue 's | Return 'r

text \<open>
  One pass through the body of \<^verbatim>\<open>while (true)\<close> in \<^verbatim>\<open>get_event\<close>: either the loop goes
  round again with new variables, or the function returns.
\<close>

definition get_event_iter ::
  "env \<Rightarrow> int \<Rightarrow> packet \<Rightarrow> int \<Rightarrow> real \<Rightarrow> real \<Rightarrow> real \<Rightarrow> real \<Rightarrow> get_event_state
     \<Rightarrow> error + (get_event_state, get_event_result) step" where
  "get_event_iter env modelgridindex pkt rpkt_eventtype tau_rnd abort_dist nu_cmf_abort kap_cont s =
     (case closest_transition (linelist (glob env)) (nu_cmf (ge_dummypkt s))
             (next_trans (ge_dummypkt s)) of
        Inl e \<Rightarrow> Inl e
      | Inr lineindex \<Rightarrow>
          if lineindex \<ge> 0 then
            (case linelist_at (linelist (glob env)) lineindex of
               Inl e \<Rightarrow> Inl e
             | Inr line \<Rightarrow>
                 let nu_trans = nu line;
                     dummypkt1 = (ge_dummypkt s)\<lparr>next_trans := lineindex + 1\<rparr>
                 in case get_event_ldist env dummypkt1 nu_trans of
                      Inl e \<Rightarrow> Inl e
                    | Inr ldist \<Rightarrow>
                        let tau_cont = kap_cont * ldist in
                        if tau_rnd - ge_tau s > tau_cont then
                          (if nu_trans < nu_cmf_abort then
                             let dummypkt2 = dummypkt1\<lparr>next_trans := next_trans dummypkt1 - 1\<rparr>
                             in Inr (Return \<lparr>res_edist = DBL_MAX,
                                            res_pkt = pkt\<lparr>next_trans := next_trans dummypkt2\<rparr>,
                                            res_eventtype = rpkt_eventtype,
                                            res_g = ge_g s,
                                            res_dummypkt = dummypkt2\<rparr>)
                           else
                             let tau_line = get_event_tau_line env modelgridindex lineindex line
                                              (prop_time dummypkt1)
                             in if tau_rnd - ge_tau s > tau_cont + tau_line then
                                  let dummypkt2 = move_pkt_withtime env dummypkt1 ldist
                                  in Inr (Continue
                                       \<lparr>ge_tau = ge_tau s + (tau_cont + tau_line),
                                        ge_dist = ge_dist s + ldist,
                                        ge_dummypkt = dummypkt2,
                                        ge_g = (ge_g s)\<lparr>trace := trace (ge_g s)
                                                 @ [Update_lineestimator modelgridindex lineindex
                                                      (prop_time dummypkt2 * CLIGHT (phys env)
                                                         * e_cmf dummypkt2 / nu_cmf dummypkt2)]\<rparr>\<rparr>)
                                else
                                  let pkt1 = pkt\<lparr>mastate :=
                                               \<lparr>ma_element = elementindex line,
                                                ma_ion = ionindex line,
                                                ma_level = upperlevelindex line,
                                                ma_activatingline = lineindex\<rparr>\<rparr>;
                                      edist0 = ge_dist s + ldist;
                                      edist = (if edist0 \<ge> abort_dist
                                               then abort_dist * (1 - 0.00000002) else edist0);
                                      dummypkt2 = (if DETAILED_LINE_ESTIMATORS_ON (opts env)
                                                   then move_pkt_withtime env dummypkt1 ldist
                                                   else dummypkt1);
                                      g1 = (if DETAILED_LINE_ESTIMATORS_ON (opts env)
                                            then (ge_g s)\<lparr>trace := trace (ge_g s)
                                                   @ [Update_lineestimator modelgridindex lineindex
                                                        (prop_time dummypkt2 * CLIGHT (phys env)
                                                           * e_cmf dummypkt2 / nu_cmf dummypkt2)]\<rparr>
                                            else ge_g s)
                                  in Inr (Return \<lparr>res_edist = edist,
                                                 res_pkt = pkt1\<lparr>next_trans := next_trans dummypkt2\<rparr>,
                                                 res_eventtype = RPKT_EVENTTYPE_BB,
                                                 res_g = g1,
                                                 res_dummypkt = dummypkt2\<rparr>))
                        else
                          let edist = ge_dist s + (tau_rnd - ge_tau s) / kap_cont;
                              dummypkt2 = dummypkt1\<lparr>next_trans := next_trans dummypkt1 - 1\<rparr>
                          in Inr (Return \<lparr>res_edist = edist,
                                         res_pkt = pkt\<lparr>next_trans := next_trans dummypkt2\<rparr>,
                                         res_eventtype = RPKT_EVENTTYPE_CONT,
                                         res_g = ge_g s,
                                         res_dummypkt = dummypkt2\<rparr>))
          else
            let dummypkt1 = (ge_dummypkt s)\<lparr>next_trans := nlines (linelist (glob env)) + 1\<rparr>;
                tau_cont = kap_cont * (abort_dist - ge_dist s)
            in if tau_rnd - ge_tau s > tau_cont then
                 Inr (Return \<lparr>res_edist = DBL_MAX,
                                res_pkt = pkt\<lparr>next_trans := next_trans dummypkt1\<rparr>,
                                res_eventtype = rpkt_eventtype,
                                res_g = ge_g s,
                                res_dummypkt = dummypkt1\<rparr>)
               else
                 Inr (Return \<lparr>res_edist = ge_dist s + (tau_rnd - ge_tau s) / kap_cont,
                                res_pkt = pkt\<lparr>next_trans := next_trans dummypkt1\<rparr>,
                                res_eventtype = RPKT_EVENTTYPE_CONT,
                                res_g = ge_g s,
                                res_dummypkt = dummypkt1\<rparr>))"

text \<open>The loop itself.  It ends: every further pass looks at a later line of the list.\<close>

function get_event_loop ::
  "env \<Rightarrow> int \<Rightarrow> packet \<Rightarrow> int \<Rightarrow> real \<Rightarrow> real \<Rightarrow> real \<Rightarrow> real \<Rightarrow> get_event_state
     \<Rightarrow> error + get_event_result" where
  "get_event_loop env modelgridindex pkt rpkt_eventtype tau_rnd abort_dist nu_cmf_abort kap_cont s =
     (case get_event_iter env modelgridindex pkt rpkt_eventtype tau_rnd abort_dist nu_cmf_abort
             kap_cont s of
        Inl e \<Rightarrow> Inl e
      | Inr (Return r) \<Rightarrow> Inr r
      | Inr (Continue s') \<Rightarrow>
          get_event_loop env modelgridindex pkt rpkt_eventtype tau_rnd abort_dist nu_cmf_abort
            kap_cont s')"
  by pat_completeness auto

text \<open>
  The line indices \<^verbatim>\<open>closest_transition\<close> returns (those \<open>\<ge> 0\<close>) over the passes of the
  loop, in order.
\<close>

function get_event_lines ::
  "env \<Rightarrow> int \<Rightarrow> packet \<Rightarrow> int \<Rightarrow> real \<Rightarrow> real \<Rightarrow> real \<Rightarrow> real \<Rightarrow> get_event_state \<Rightarrow> int list" where
  "get_event_lines env modelgridindex pkt rpkt_eventtype tau_rnd abort_dist nu_cmf_abort kap_cont s =
     (case closest_transition (linelist (glob env)) (nu_cmf (ge_dummypkt s))
             (next_trans (ge_dummypkt s)) of
        Inl e \<Rightarrow> []
      | Inr lineindex \<Rightarrow>
          if lineindex \<ge> 0 then
            lineindex #
              (case get_event_iter env modelgridindex pkt rpkt_eventtype tau_rnd abort_dist
                      nu_cmf_abort kap_cont s of
                 Inr (Continue s') \<Rightarrow>
                   get_event_lines env modelgridindex pkt rpkt_eventtype tau_rnd abort_dist
                     nu_cmf_abort kap_cont s'
               | _ \<Rightarrow> [])
          else [])"
  by pat_completeness auto

text \<open>
  \<^verbatim>\<open>get_event\<close>: the shadow packet advanced to \<^verbatim>\<open>abort_dist\<close> gives \<^verbatim>\<open>nu_cmf_abort\<close>, the
  cache gives \<^verbatim>\<open>kap_cont\<close>, then the loop runs from \<open>tau = dist = 0\<close> on a copy of the packet.
  \<open>rpkt_eventtype\<close> is the value behind the pointer at the call.
\<close>

definition get_event_nu_cmf_abort :: "env \<Rightarrow> packet \<Rightarrow> real \<Rightarrow> real" where
  "get_event_nu_cmf_abort env pkt abort_dist =
     nu_cmf (move_pkt_withtime env (move_pkt_withtime env pkt (abort_dist / 2)) (abort_dist / 2))"

definition get_event ::
  "env \<Rightarrow> gstate \<Rightarrow> int \<Rightarrow> packet \<Rightarrow> int \<Rightarrow> real \<Rightarrow> real \<Rightarrow> error + get_event_result" where
  "get_event env g modelgridindex pkt rpkt_eventtype tau_rnd abort_dist =
     (let nu_cmf_abort = get_event_nu_cmf_abort env pkt abort_dist in
      if TESTMODE (opts env) \<and> \<not> nu_cmf_abort \<le> nu_cmf pkt then Inl Assert_nu_cmf_abort
      else
        case calculate_kappa_rpkt_cont env g pkt of
          Inl e \<Rightarrow> Inl e
        | Inr g1 \<Rightarrow>
            let kap_cont = total (kappa_rpkt_cont g1) * doppler_packet_nucmf_on_nurf env pkt
            in get_event_loop env modelgridindex pkt rpkt_eventtype tau_rnd abort_dist nu_cmf_abort
                 kap_cont \<lparr>ge_tau = 0, ge_dist = 0, ge_dummypkt = pkt, ge_g = g1\<rparr>)"


text \<open>
  The line indices examined by one call of \<^verbatim>\<open>get_event\<close>: those of its loop, started as
  \<^verbatim>\<open>get_event\<close> starts it.
\<close>

definition get_event_examined ::
  "env \<Rightarrow> gstate \<Rightarrow> int \<Rightarrow> packet \<Rightarrow> int \<Rightarrow> real \<Rightarrow> real \<Rightarrow> int list" where
  "get_event_examined env g modelgridindex pkt rpkt_eventtype tau_rnd abort_dist =
     (case calculate_kappa_rpkt_cont env g pkt of
        Inl e \<Rightarrow> []
      | Inr g1 \<Rightarrow>
          get_event_lines env modelgridindex pkt rpkt_eventtype tau_rnd abort_dist
            (get_event_nu_cmf_abort env pkt abort_dist)
            (total (kappa_rpkt_cont g1) * doppler_packet_nucmf_on_nurf env pkt)
            \<lparr>ge_tau = 0, ge_dist = 0, ge_dummypkt = pkt, ge_g = g1\<rparr>)"

section \<open>Event handlers\<close>

text \<open>\<^verbatim>\<open>emitt_rpkt\<close>; \<^verbatim>\<open>assert_always(fabs(vec_len(pkt_ptr->dir) - 1.) < 1.e-8)\<close> is its only exit
  by error.\<close>

definition emitt_rpkt :: "env \<Rightarrow> gstate \<Rightarrow> packet \<Rightarrow> error + (packet \<times> gstate)" where
  "emitt_rpkt env g pkt =
     (let pkt1 = pkt\<lparr>pkt_type := TYPE_RPKT, last_cross := NONE\<rparr>;
          (dir_cmf, rng1) = get_rand_isotropic_unitvec (kin env) (rng g);
          g1 = g\<lparr>rng := rng1\<rparr>;
          vel_vec = get_velocity (kin env) (pos pkt1) (- 1 * prop_time pkt1);
          pkt2 = pkt1\<lparr>dir := angle_ab (kin env) dir_cmf vel_vec\<rparr>
      in if \<not> \<bar>vec_len (dir pkt2) - 1\<bar> < 0.00000001 then Inl Assert_unitvec
         else
           let dopplerfactor = doppler_packet_nucmf_on_nurf env pkt2;
               pkt3 = pkt2\<lparr>nu_rf := nu_cmf pkt2 / dopplerfactor, e_rf := e_cmf pkt2 / dopplerfactor\<rparr>;
               pkt4 = pkt3\<lparr>stokes := (1, 0, 0)\<rparr>;
               pol_dir1 = cross_prod (dir pkt4) (0, 0, 1);
               pol_dir2 = (if dot pol_dir1 pol_dir1 < 0.00000001
                           then cross_prod (dir pkt4) (0, 1, 0) else pol_dir1)
           in Inr (pkt4\<lparr>pol_dir := vec_norm pol_dir2\<rparr>, g1))"

text \<open>
  Modelled from the spec: \<^verbatim>\<open>escat_rpkt\<close> belongs to the polarisation module, which is not
  among the sources.  The specification describes the electron scattering of a continuum
  event as a coherent scatter "as in thick cell", which is the re-emission of \<^verbatim>\<open>emitt_rpkt\<close>.
\<close>

definition escat_rpkt :: "env \<Rightarrow> gstate \<Rightarrow> packet \<Rightarrow> error + (packet \<times> gstate)" where
  "escat_rpkt env g pkt = emitt_rpkt env g pkt"

text \<open>
  \<^verbatim>\<open>std::lower_bound(&kappa_bf_sum[first], &kappa_bf_sum[first + len], value)\<close> on doubles,
  with \<^verbatim>\<open><\<close> as the comparison.
\<close>

function lower_bound_double :: "(int \<Rightarrow> real) \<Rightarrow> int \<Rightarrow> int \<Rightarrow> real \<Rightarrow> int" where
  "lower_bound_double a first len val =
     (if 0 < len then
        (if a (first + len div 2) < val
         then lower_bound_double a (first + len div 2 + 1) (len - len div 2 - 1) val
         else lower_bound_double a first (len div 2) val)
      else first)"
  by pat_completeness auto
termination
  by (relation "measure (\<lambda>(a, first, len, val). nat len)") auto

declare lower_bound_double.simps [simp del]

text \<open>\<^verbatim>\<open>globals::allcont[i]\<close>\<close>

definition allcont_at :: "env \<Rightarrow> int \<Rightarrow> error + fullphixslist" where
  "allcont_at env i =
     (if 0 \<le> i \<and> i < nbfcontinua env then Inr (allcont (glob env) ! nat i) else Inl OutOfRange)"

text \<open>\<^verbatim>\<open>rpkt_event_continuum\<close>; the three draws are \<^verbatim>\<open>zrand\<close>, \<^verbatim>\<open>zrand2\<close> and \<^verbatim>\<open>zrand3\<close>.\<close>

definition rpkt_event_continuum ::
  "env \<Rightarrow> gstate \<Rightarrow> packet \<Rightarrow> rpkt_cont_opacity \<Rightarrow> int \<Rightarrow> error + (packet \<times> gstate)" where
  "rpkt_event_continuum env g pkt kappa_rpkt_cont_thisthread modelgridindex =
     (let nu' = nu_cmf pkt;
          dopplerfactor = doppler_packet_nucmf_on_nurf env pkt;
          kappa_cont = total kappa_rpkt_cont_thisthread * dopplerfactor;
          sigma = es kappa_rpkt_cont_thisthread * dopplerfactor;
          kappa_ff = ff kappa_rpkt_cont_thisthread * dopplerfactor;
          kappa_bf = bf kappa_rpkt_cont_thisthread * dopplerfactor;
          zrand = gsl_rng_uniform (kin env) (rng g);
          g1 = g\<lparr>rng := rng g + 1\<rparr>
      in if zrand * kappa_cont < sigma then
           (let pkt1 = pkt\<lparr>interactions := interactions pkt + 1,
                            nscatterings := nscatterings pkt + 1,
                            last_event := 12\<rparr>;
                g2 = g1\<lparr>trace := trace g1 @ [Stats_increment COUNTER_ESCOUNTER]\<rparr>;
                pkt2 = (if VPKT_ON (opts env) then pkt1\<lparr>last_cross := NONE\<rparr> else pkt1);
                g3 = (if VPKT_ON (opts env)
                      then g2\<lparr>trace := trace g2 @ [Vpkt_call_estimators (prop_time pkt2) 1]\<rparr>
                      else g2)
            in case escat_rpkt env g3 pkt2 of
                 Inl e \<Rightarrow> Inl e
               | Inr (pkt3, g4) \<Rightarrow>
                   Inr (pkt3\<lparr>em_pos := pos pkt3, em_time := prop_time pkt3\<rparr>, g4))
         else if zrand * kappa_cont < sigma + kappa_ff then
           Inr (pkt\<lparr>interactions := interactions pkt + 1, last_event := 5,
                    pkt_type := TYPE_KPKT, absorptiontype := - 1\<rparr>,
                g1\<lparr>trace := trace g1 @ [Stats_increment COUNTER_K_STAT_FROM_FF]\<rparr>)
         else if zrand * kappa_cont < sigma + kappa_ff + kappa_bf then
           (let pkt1 = pkt\<lparr>absorptiontype := - 2\<rparr>;
                kappa_bf_inrest = bf kappa_rpkt_cont_thisthread
            in if \<not> 0 \<le> nbfcontinua env - 1 then Inl OutOfRange
               else if \<not> phixslist_kappa_bf_sum g1 (nbfcontinua env - 1) = kappa_bf_inrest
               then Inl Assert_kappa_bf_sum
               else
                 let zrand2 = gsl_rng_uniform (kin env) (rng g1);
                     g2 = g1\<lparr>rng := rng g1 + 1\<rparr>;
                     kappa_bf_rand = zrand2 * kappa_bf_inrest;
                     allcontindex = lower_bound_double (phixslist_kappa_bf_sum g2) 0
                                      (nbfcontinua env - 1) kappa_bf_rand
                 in if \<not> allcontindex < nbfcontinua env then Inl Assert_allcontindex
                    else
                      (case allcont_at env allcontindex of
                         Inl e \<Rightarrow> Inl e
                       | Inr c \<Rightarrow>
                           let g3 = (if TRACK_ION_STATS (opts env)
                                     then g2\<lparr>trace := trace g2
                                            @ [Increment_ion_stats_contabsorption modelgridindex
                                                 (element c) (ion c)]\<rparr>
                                     else g2);
                               zrand3 = gsl_rng_uniform (kin env) (rng g3);
                               g4 = g3\<lparr>rng := rng g3 + 1\<rparr>
                           in if zrand3 < nu_edge c / nu' then
                                Inr (pkt1\<lparr>interactions := interactions pkt1 + 1, last_event := 3,
                                          pkt_type := TYPE_MA,
                                          mastate :=
                                            \<lparr>ma_element = element c, ma_ion = ion c + 1,
                                             ma_level = get_phixsupperlevel (atom env) (element c)
                                                          (ion c) (level c) (phixstargetindex c),
                                             ma_activatingline = - 99\<rparr>\<rparr>,
                                     g4\<lparr>trace := trace g4
                                          @ [Stats_increment COUNTER_MA_STAT_ACTIVATION_BF]
                                          @ (if TRACK_ION_STATS (opts env)
                                             then [Increment_ion_stats_photoion modelgridindex
                                                     (element c) (ion c + 1) (e_cmf pkt1)]
                                             else [])\<rparr>)
                              else
                                Inr (pkt1\<lparr>interactions := interactions pkt1 + 1, last_event := 4,
                                          pkt_type := TYPE_KPKT\<rparr>,
                                     g4\<lparr>trace := trace g4
                                          @ [Stats_increment COUNTER_K_STAT_FROM_BF]\<rparr>)))
         else Inl Abort_continuum_process)"

text \<open>\<^verbatim>\<open>rpkt_event_boundbound\<close>\<close>

definition rpkt_event_boundbound ::
  "env \<Rightarrow> gstate \<Rightarrow> packet \<Rightarrow> int \<Rightarrow> error + (packet \<times> gstate)" where
  "rpkt_event_boundbound env g pkt mgi =
     (let g1 = g\<lparr>trace := trace g @ [Stats_increment COUNTER_MA_STAT_ACTIVATION_BB]\<rparr>;
          pkt1 = pkt\<lparr>interactions := interactions pkt + 1, last_event := 1,
                     absorptiontype := ma_activatingline (mastate pkt),
                     absorptionfreq := nu_rf pkt,
                     absorptiondir := dir pkt,
                     pkt_type := TYPE_MA\<rparr>;
          et = emissiontype pkt1
      in case (if TRACK_ION_STATS (opts env) then
                 (let g2 = g1\<lparr>trace := trace g1
                              @ [Increment_ion_stats_radexc mgi (ma_element (mastate pkt1))
                                   (ma_ion (mastate pkt1)) (e_cmf pkt1)]\<rparr>
                  in if et \<ge> 0 then
                       (case linelist_at (linelist (glob env)) et of
                          Inl e \<Rightarrow> Inl e
                        | Inr line \<Rightarrow>
                            Inr (g2\<lparr>trace := trace g2
                                      @ [Increment_ion_stats_bb_absorbed mgi (elementindex line)
                                           (ionindex line)
                                           (e_cmf pkt1 / HPLANCK (phys env) / nu_cmf pkt1)]\<rparr>))
                     else Inr g2)
               else Inr g1) of
           Inl e \<Rightarrow> Inl e
         | Inr g3 \<Rightarrow>
             Inr (pkt1,
                  if RECORD_LINESTAT (opts env) \<and> tid (opts env) = 0
                  then g3\<lparr>trace := trace g3 @ [Acounter_increment (next_trans pkt1 - 1)]\<rparr>
                  else g3))"

text \<open>\<^verbatim>\<open>rpkt_event_thickcell\<close>\<close>

definition rpkt_event_thickcell :: "env \<Rightarrow> gstate \<Rightarrow> packet \<Rightarrow> error + (packet \<times> gstate)" where
  "rpkt_event_thickcell env g pkt =
     (let pkt1 = pkt\<lparr>interactions := interactions pkt + 1,
                      nscatterings := nscatterings pkt + 1,
                      last_event := 12\<rparr>;
          g1 = g\<lparr>trace := trace g @ [Stats_increment COUNTER_ESCOUNTER]\<rparr>
      in case emitt_rpkt env g1 pkt1 of
           Inl e \<Rightarrow> Inl e
         | Inr (pkt2, g2) \<Rightarrow> Inr (pkt2\<lparr>em_pos := pos pkt2, em_time := prop_time pkt2\<rparr>, g2))"

text \<open>
  \<^verbatim>\<open>globals::linelist[left].nu\<close> as \<^verbatim>\<open>closest_transition_empty\<close> reads it: \<open>left\<close> is the
  packet's \<^verbatim>\<open>next_trans\<close>, which may be \<^verbatim>\<open>nlines\<close> or the sentinel \<^verbatim>\<open>nlines + 1\<close>, and the
  source reads past the array there and goes on with what it finds.
\<close>

definition linelist_nu_unchecked :: "env \<Rightarrow> int \<Rightarrow> real" where
  "linelist_nu_unchecked env i =
     (if 0 \<le> i \<and> i < nlines (linelist (glob env)) then nu (linelist (glob env) ! nat i)
      else linelist_overread (glob env) i)"

text \<open>
  \<^verbatim>\<open>closest_transition_empty\<close>.  The two early tests only store \<^verbatim>\<open>nlines + 1\<close>; control goes
  on to the search, which starts at the stored \<^verbatim>\<open>next_trans\<close> and stores its own result.
  There is no test of \<^verbatim>\<open>left > 0\<close> here.
\<close>

definition closest_transition_empty :: "env \<Rightarrow> packet \<Rightarrow> error + packet" where
  "closest_transition_empty env pkt =
     (let left = next_trans pkt;
          right = nlines (linelist (glob env)) - 1
      in case linelist_at (linelist (glob env)) right of
           Inl e \<Rightarrow> Inl e
         | Inr lastline \<Rightarrow>
             let pkt1 = (if nu_cmf pkt < nu lastline
                         then pkt\<lparr>next_trans := nlines (linelist (glob env)) + 1\<rparr> else pkt);
                 pkt2 = (if left > right
                         then pkt1\<lparr>next_trans := nlines (linelist (glob env)) + 1\<rparr> else pkt1)
             in if nu_cmf pkt2 \<ge> linelist_nu_unchecked env left
                then Inr (pkt2\<lparr>next_trans := left\<rparr>)
                else
                  (case lower_bound (linelist (glob env)) (next_trans pkt2)
                          (nlines (linelist (glob env)) - next_trans pkt2) (nu_cmf pkt2) of
                     Inl e \<Rightarrow> Inl e
                   | Inr matchindex \<Rightarrow> Inr (pkt2\<lparr>next_trans := matchindex\<rparr>)))"

text \<open>\<^verbatim>\<open>globals::groundcont[i]\<close>\<close>

definition groundcont_at :: "env \<Rightarrow> int \<Rightarrow> error + groundphixslist" where
  "groundcont_at env i =
     (if 0 \<le> i \<and> i < int (length (groundcont (glob env)))
      then Inr (groundcont (glob env) ! nat i) else Inl OutOfRange)"

text \<open>
  The loop of \<^verbatim>\<open>update_estimators\<close> over the ground-level continua, for the indices in the
  list: it adds to \<^verbatim>\<open>gammaestimator\<close> and \<^verbatim>\<open>bfheatingestimator\<close>, aborts when a gamma
  estimator becomes non-finite, and stops at the first edge not below the frequency.
\<close>

fun update_estimators_loop ::
  "env \<Rightarrow> int \<Rightarrow> real \<Rightarrow> real \<Rightarrow> int list \<Rightarrow> gstate \<Rightarrow> error + gstate" where
  "update_estimators_loop env modelgridindex distance_e_cmf nu' [] g = Inr g"
| "update_estimators_loop env modelgridindex distance_e_cmf nu' (i # rest) g =
     (case groundcont_at env i of
        Inl e \<Rightarrow> Inl e
      | Inr gc \<Rightarrow>
          if nu' > gc_nu_edge gc then
            (if get_elem_abundance (grd env) modelgridindex (gc_element gc) > 0 then
               (let ionestimindex = modelgridindex * get_nelements (atom env) * get_max_nions (atom env)
                                    + gc_element gc * get_max_nions (atom env) + gc_ion gc;
                    g1 = (if \<not> NO_LUT_PHOTOION (opts env)
                          then g\<lparr>gammaestimator := (gammaestimator g)
                                   (ionestimindex := gammaestimator g ionestimindex
                                      + phixslist_groundcont_gamma_contr g i * (distance_e_cmf / nu'))\<rparr>
                          else g)
                in if \<not> NO_LUT_PHOTOION (opts env) \<and> \<not> isfinite (kin env) (gammaestimator g1 ionestimindex)
                   then Inl Abort_gammaestimator_nonfinite
                   else
                     update_estimators_loop env modelgridindex distance_e_cmf nu' rest
                       (if \<not> NO_LUT_BFHEATING (opts env)
                        then g1\<lparr>bfheatingestimator := (bfheatingestimator g1)
                                 (ionestimindex := bfheatingestimator g1 ionestimindex
                                    + phixslist_groundcont_gamma_contr g1 i * distance_e_cmf
                                      * (1 - gc_nu_edge gc / nu'))\<rparr>
                        else g1))
             else update_estimators_loop env modelgridindex distance_e_cmf nu' rest g)
          else Inr g)"

text \<open>
  \<^verbatim>\<open>update_estimators\<close>.  \<^verbatim>\<open>radfield::update_estimators\<close> belongs to a module that is not
  among the sources; its call is an entry of the trace.
\<close>

definition update_estimators :: "env \<Rightarrow> gstate \<Rightarrow> packet \<Rightarrow> real \<Rightarrow> error + gstate" where
  "update_estimators env g pkt distance =
     (let cellindex = pkt_where pkt;
          modelgridindex = get_cell_modelgridindex (grd env) cellindex
      in if modelgridindex = get_npts_model (grd env) then Inr g
         else
           let distance_e_cmf = distance * e_cmf pkt;
               nu' = nu_cmf pkt;
               g1 = g\<lparr>trace := trace g
                        @ [Radfield_update_estimators modelgridindex distance_e_cmf nu']\<rparr>
           in if FORCE_LTE (opts env) then Inr g1
              else
                let g2 = g1\<lparr>ffheatingestimator := (ffheatingestimator g1)
                             (modelgridindex := ffheatingestimator g1 modelgridindex
                                + distance_e_cmf * ffheating (kappa_rpkt_cont g1))\<rparr>
                in if \<not> NO_LUT_PHOTOION (opts env) \<or> \<not> NO_LUT_BFHEATING (opts env)
                   then update_estimators_loop env modelgridindex distance_e_cmf nu'
                          [0..nbfcontinua_ground (glob env) - 1] g2
                   else Inr g2)"


section \<open>The packet stepper\<close>

text \<open>
  What \<^verbatim>\<open>do_rpkt_step\<close> holds when it reaches the comparison of the three distances:
  \<^verbatim>\<open>sdist\<close> and \<^verbatim>\<open>snext\<close> (after the cap at \<^verbatim>\<open>max_path_step\<close>), \<^verbatim>\<open>tdist\<close>, \<^verbatim>\<open>edist\<close>,
  \<^verbatim>\<open>rpkt_eventtype\<close>, \<^verbatim>\<open>find_nextline\<close>, the packet, the state and \<^verbatim>\<open>mgi\<close>.
\<close>

record step_distances =
  sd_sdist :: real
  sd_snext :: int
  sd_tdist :: real
  sd_edist :: real
  sd_eventtype :: int
  sd_find_nextline :: bool
  sd_pkt :: packet
  sd_g :: gstate
  sd_mgi :: int

text \<open>
  The three calls that open each branch of the dispatch: the half move,
  \<^verbatim>\<open>update_estimators\<close> (whose call is an entry of the trace, before its effects) and
  \<^verbatim>\<open>rlc_emiss_rpkt\<close>, which is not among the sources and only an entry of the trace.
\<close>

definition move_and_estimate ::
  "env \<Rightarrow> gstate \<Rightarrow> packet \<Rightarrow> real \<Rightarrow> error + (packet \<times> gstate)" where
  "move_and_estimate env g pkt distance =
     (let pkt1 = move_pkt_withtime env pkt (distance / 2)
      in case update_estimators env (g\<lparr>trace := trace g @ [Update_estimators distance]\<rparr>)
                pkt1 distance of
           Inl e \<Rightarrow> Inl e
         | Inr g1 \<Rightarrow>
             Inr (pkt1,
                  if do_rlc_est (glob env) \<noteq> 0 \<and> do_rlc_est (glob env) \<noteq> 3
                  then g1\<lparr>trace := trace g1 @ [Rlc_emiss_rpkt distance]\<rparr> else g1))"

text \<open>The part of \<^verbatim>\<open>do_rpkt_step\<close> between \<^verbatim>\<open>boundary_cross\<close> and the comparison.\<close>

definition rpkt_step_distances ::
  "env \<Rightarrow> gstate \<Rightarrow> packet \<Rightarrow> real \<Rightarrow> real \<Rightarrow> real \<Rightarrow> int \<Rightarrow> int \<Rightarrow> error + step_distances" where
  "rpkt_step_distances env g pkt t2 tau_next sdist0 snext0 mgi =
     (let maxsdist = (if GRID_TYPE_SPHERICAL1D (opts env)
                      then 2 * rmax (glob env) * (prop_time pkt + sdist0 / CLIGHT_PROP (phys env))
                           / tmin (glob env)
                      else rmax (glob env) * prop_time pkt / tmin (glob env))
      in if sdist0 > maxsdist then Inl Abort_large_sdist
         else if (snext0 \<noteq> - 99 \<and> snext0 < 0) \<or> snext0 \<ge> ngrid (glob env)
         then Inl Abort_inappropriate_cell
         else
           let sdist = (if sdist0 > max_path_step (glob env) then max_path_step (glob env) else sdist0);
               snext = (if sdist0 > max_path_step (glob env) then pkt_where pkt else snext0);
               tdist = (t2 - prop_time pkt) * CLIGHT_PROP (phys env)
           in if \<not> tdist \<ge> 0 then Inl Assert_tdist
              else
                (case (if mgi = get_npts_model (grd env) then
                         Inr (DBL_MAX, - 1, True, pkt, g)
                       else if thick (grd env) mgi = 1 then
                         (let kappa = get_kappagrey (grd env) mgi * get_rho (grd env) mgi
                                      * doppler_packet_nucmf_on_nurf env pkt;
                              tau_current = 0.0
                          in Inr ((tau_next - tau_current) / kappa, - 1, True, pkt, g))
                       else
                         (case get_event env g mgi pkt (- 1) tau_next (min tdist sdist) of
                            Inl e \<Rightarrow> Inl e
                          | Inr r \<Rightarrow>
                              Inr (res_edist r, res_eventtype r, False, res_pkt r, res_g r))) of
                   Inl e \<Rightarrow> Inl e
                 | Inr (edist, rpkt_eventtype, find_nextline, pkt1, g1) \<Rightarrow>
                     if \<not> edist \<ge> 0 then Inl Assert_edist
                     else Inr \<lparr>sd_sdist = sdist, sd_snext = snext, sd_tdist = tdist,
                               sd_edist = edist, sd_eventtype = rpkt_eventtype,
                               sd_find_nextline = find_nextline, sd_pkt = pkt1, sd_g = g1,
                               sd_mgi = mgi\<rparr>))"

text \<open>The branch under \<^verbatim>\<open>(sdist < tdist) && (sdist < edist)\<close>.\<close>

definition rpkt_boundary_branch ::
  "env \<Rightarrow> int \<Rightarrow> step_distances \<Rightarrow> error + (bool \<times> packet \<times> gstate)" where
  "rpkt_boundary_branch env oldmgi d =
     (case move_and_estimate env (sd_g d) (sd_pkt d) (sd_sdist d) of
        Inl e \<Rightarrow> Inl e
      | Inr (pkt1, g1) \<Rightarrow>
          let pkt2 = move_pkt_withtime env pkt1 (sd_sdist d / 2);
              (pkt3, g2) = (if sd_snext d \<noteq> pkt_where pkt2 then change_cell g1 pkt2 (sd_snext d)
                            else (pkt2, g1));
              mgi = (if sd_snext d \<noteq> pkt_where pkt2
                     then get_cell_modelgridindex (grd env) (pkt_where pkt3) else sd_mgi d);
              pkt4 = pkt3\<lparr>scat_count := 0, last_event := last_event pkt3 + 100\<rparr>
          in case (if sd_find_nextline d
                      \<and> mgi \<noteq> get_npts_model (grd env) \<and> thick (grd env) mgi \<noteq> 1
                   then (case closest_transition_empty env pkt4 of
                           Inl e \<Rightarrow> Inl e
                         | Inr pkt5 \<Rightarrow>
                             Inr (pkt5, g2\<lparr>trace := trace g2 @ [Closest_transition_empty]\<rparr>))
                   else Inr (pkt4, g2)) of
               Inl e \<Rightarrow> Inl e
             | Inr (pkt6, g3) \<Rightarrow>
                 Inr (pkt_type pkt6 = TYPE_RPKT \<and> (mgi = get_npts_model (grd env) \<or> mgi = oldmgi),
                      pkt6, g3))"

text \<open>The branch under \<^verbatim>\<open>(edist < sdist) && (edist < tdist)\<close>.\<close>

definition rpkt_event_branch ::
  "env \<Rightarrow> int \<Rightarrow> step_distances \<Rightarrow> error + (bool \<times> packet \<times> gstate)" where
  "rpkt_event_branch env oldmgi d =
     (case move_and_estimate env (sd_g d) (sd_pkt d) (sd_edist d) of
        Inl e \<Rightarrow> Inl e
      | Inr (pkt1, g1) \<Rightarrow>
          let pkt2 = move_pkt_withtime env pkt1 (sd_edist d / 2);
              mgi = sd_mgi d
          in case (if thick (grd env) mgi = 1 then
                     rpkt_event_thickcell env (g1\<lparr>trace := trace g1 @ [Rpkt_event_thickcell]\<rparr>) pkt2
                   else if sd_eventtype d = RPKT_EVENTTYPE_BB then
                     rpkt_event_boundbound env (g1\<lparr>trace := trace g1 @ [Rpkt_event_boundbound]\<rparr>)
                       pkt2 mgi
                   else if sd_eventtype d = RPKT_EVENTTYPE_CONT then
                     rpkt_event_continuum env (g1\<lparr>trace := trace g1 @ [Rpkt_event_continuum]\<rparr>) pkt2
                       (kappa_rpkt_cont g1) mgi
                   else Inl Assert_false) of
               Inl e \<Rightarrow> Inl e
             | Inr (pkt3, g2) \<Rightarrow>
                 Inr (pkt_type pkt3 = TYPE_RPKT \<and> (mgi = get_npts_model (grd env) \<or> mgi = oldmgi),
                      pkt3, g2))"

text \<open>The branch under \<^verbatim>\<open>(tdist < sdist) && (tdist < edist)\<close>.\<close>

definition rpkt_time_branch ::
  "env \<Rightarrow> real \<Rightarrow> step_distances \<Rightarrow> error + (bool \<times> packet \<times> gstate)" where
  "rpkt_time_branch env t2 d =
     (case move_and_estimate env (sd_g d) (sd_pkt d) (sd_tdist d) of
        Inl e \<Rightarrow> Inl e
      | Inr (pkt1, g1) \<Rightarrow>
          let pkt2 = pkt1\<lparr>prop_time := t2\<rparr>;
              pkt3 = move_pkt pkt2 (sd_tdist d / 2);
              pkt4 = pkt3\<lparr>last_event := last_event pkt3 + 1000\<rparr>
          in if sd_find_nextline d then
               (case closest_transition_empty env pkt4 of
                  Inl e \<Rightarrow> Inl e
                | Inr pkt5 \<Rightarrow>
                    Inr (False, pkt5, g1\<lparr>trace := trace g1 @ [Closest_transition_empty]\<rparr>))
             else Inr (False, pkt4, g1))"

text \<open>The comparison of the three distances, with the \<^verbatim>\<open>abort()\<close> of its last \<^verbatim>\<open>else\<close>.\<close>

definition rpkt_step_dispatch ::
  "env \<Rightarrow> real \<Rightarrow> int \<Rightarrow> step_distances \<Rightarrow> error + (bool \<times> packet \<times> gstate)" where
  "rpkt_step_dispatch env t2 oldmgi d =
     (if sd_sdist d < sd_tdist d \<and> sd_sdist d < sd_edist d then rpkt_boundary_branch env oldmgi d
      else if sd_edist d < sd_sdist d \<and> sd_edist d < sd_tdist d then rpkt_event_branch env oldmgi d
      else if sd_tdist d < sd_sdist d \<and> sd_tdist d < sd_edist d then rpkt_time_branch env t2 d
      else Inl Abort_failed_to_identify_event)"

text \<open>
  \<^verbatim>\<open>do_rpkt_step\<close>.  The result is the returned flag, the packet and the state.
\<close>

definition do_rpkt_step :: "env \<Rightarrow> gstate \<Rightarrow> packet \<Rightarrow> real \<Rightarrow> error + (bool \<times> packet \<times> gstate)" where
  "do_rpkt_step env g pkt t2 =
     (let cellindex = pkt_where pkt;
          mgi = get_cell_modelgridindex (grd env) cellindex;
          oldmgi = mgi;
          zrand = gsl_rng_uniform_pos (kin env) (rng g);
          g1 = g\<lparr>rng := rng g + 1\<rparr>;
          tau_next = - 1 * ln zrand;
          (sdist, snext, last_cross') = boundary_cross (kin env) pkt;
          pkt1 = pkt\<lparr>last_cross := last_cross'\<rparr>
      in if sdist = 0 then
           (let (pkt2, g2) = change_cell g1 pkt1 snext;
                cellindexnew = pkt_where pkt2;
                mgi' = get_cell_modelgridindex (grd env) cellindexnew
            in Inr (pkt_type pkt2 = TYPE_RPKT \<and> (mgi' = get_npts_model (grd env) \<or> mgi' = oldmgi),
                    pkt2, g2))
         else
           (case rpkt_step_distances env g1 pkt1 t2 tau_next sdist snext mgi of
              Inl e \<Rightarrow> Inl e
            | Inr d \<Rightarrow> rpkt_step_dispatch env t2 oldmgi d))"


section \<open>Concrete instances\<close>

text \<open>Three lines, at \<open>5\<cdot>10\<^sup>1\<^sup>4\<close>, \<open>3\<cdot>10\<^sup>1\<^sup>4\<close> and \<open>10\<^sup>1\<^sup>4\<close> Hz.\<close>

definition line_at :: "real \<Rightarrow> linelist_entry" where
  "line_at f = \<lparr>nu = f, elementindex = 0, ionindex = 0, upperlevelindex = 1, lowerlevelindex = 0\<rparr>"

definition three_lines :: "linelist_entry list" where
  "three_lines = [line_at 500000000000000, line_at 300000000000000, line_at 100000000000000]"

text \<open>
  A small model: cells 0 to 9 hold matter, cells from 10 on are empty; one element with a
  neutral and a singly ionised stage, the latter unpopulated; one ground-level continuum
  with a cross-section falling as \<open>\<nu>\<^sup>-\<^sup>3\<close>; no aberration; a non-relativistic Doppler factor
  \<open>1 - dir \<cdot> pos / (c t)\<close>.  The constants are the cgs values.
\<close>

definition ex_opts :: options where
  "ex_opts = \<lparr>USE_RELATIVISTIC_DOPPLER_SHIFT = False, DETAILED_LINE_ESTIMATORS_ON = False,
     DETAILED_BF_ESTIMATORS_ON = False, SEPARATE_STIMRECOMB = True, NO_LUT_PHOTOION = True,
     NO_LUT_BFHEATING = True, VPKT_ON = False, TRACK_ION_STATS = False, RECORD_LINESTAT = False,
     TESTMODE = False, GRID_TYPE_SPHERICAL1D = False, tid = 0, FORCE_LTE = False\<rparr>"

definition ex_phys :: constants where
  "ex_phys = \<lparr>CLIGHT = 29979245800, CLIGHT_PROP = 29979245800,
     CLIGHTSQUAREDOVERTWOH = 6781957 * 10 ^ 40, HCLIGHTOVERFOURPI = 1580764662876770 / 10 ^ 32,
     HPLANCK = 66260755 / 10 ^ 34, HOVERKB = 4799243681748932 / 10 ^ 26,
     SIGMA_T = 66524 / 10 ^ 29\<rparr>"

definition ex_cont :: fullphixslist where
  "ex_cont = \<lparr>nu_edge = 3000000000000000, element = 0, ion = 0, level = 0,
     phixstargetindex = 0, upperlevel = 0, probability = 1, photoion_xs = [1 / 10 ^ 18],
     index_in_groundphixslist = 0\<rparr>"

definition ex_glob :: globals where
  "ex_glob = \<lparr>linelist = three_lines, allcont = [ex_cont], nbfcontinua_ground = 1,
     last_phixs_nuovernuedge = 10, do_r_lc = True, opacity_case = 4, do_rlc_est = 0,
     rmax = 10 ^ 15, tmin = 1, max_path_step = 10 ^ 14, ngrid = 100,
     groundcont = [\<lparr>gc_nu_edge = 3000000000000000, gc_element = 0, gc_ion = 0\<rparr>],
     linelist_overread = (\<lambda>i. 0)\<rparr>"

definition ex_grd :: grid where
  "ex_grd = \<lparr>get_cell_modelgridindex = (\<lambda>c. if c < 10 then c else 10), get_npts_model = 10,
     thick = (\<lambda>m. 0), get_kappagrey = (\<lambda>m. 1 / 10), get_rho = (\<lambda>m. 1 / 10 ^ 12),
     get_nne = (\<lambda>m. 10 ^ 14), get_nnetot = (\<lambda>m. 10 ^ 14), get_Te = (\<lambda>m. 10000),
     get_elem_abundance = (\<lambda>m e. 1)\<rparr>"

definition ex_atom :: atomic where
  "ex_atom = \<lparr>get_nelements = 1, get_nions = (\<lambda>e. 2), get_ionstage = (\<lambda>e i. i + 1),
     ionstagepop = (\<lambda>m e i. if i = 0 then 10 ^ 10 else 0),
     get_levelpop = (\<lambda>m e i l. if l = 0 then 10 ^ 10 else 0),
     stat_weight = (\<lambda>e i l. 1),
     einstein_spontaneous_emission = (\<lambda>l. 10000),
     calculate_sahafact = (\<lambda>e i l u T E. 0),
     photoionization_crosssection_fromtable = (\<lambda>xs ne v. hd xs * (ne / v) ^ 3),
     get_phixsupperlevel = (\<lambda>e i l t. 0), get_max_nions = 2\<rparr>"

definition ex_kin :: kinematics where
  "ex_kin = \<lparr>doppler_nucmf_on_nurf = (\<lambda>p d t. 1 - dot d p / (29979245800 * t)),
     get_velocity = (\<lambda>p t. vec_scale (1 / t) p),
     angle_ab = (\<lambda>d v. d),
     get_rand_isotropic_unitvec = (\<lambda>n. ((0, 0, 1), n + 2)),
     gsl_rng_uniform = (\<lambda>n. 1 / 2),
     gsl_rng_uniform_pos = (\<lambda>n. 1 / 2),
     boundary_cross = (\<lambda>p. (10 ^ 9, pkt_where p - 1, NEG_X)),
     isfinite = (\<lambda>x. True)\<rparr>"

definition ex_env :: env where
  "ex_env = \<lparr>opts = ex_opts, phys = ex_phys, glob = ex_glob, grd = ex_grd, atom = ex_atom,
     kin = ex_kin\<rparr>"

text \<open>
  The same environment with four continua, sorted by edge frequency: at the frequency
  \<open>4 \<times> 10\<^sup>1\<^sup>5\<close> the first contributes, the second has an empty level, the third
  contributes and the fourth lies above the frequency.  The upper level of a
  photoionisation is its target index here, and the third continuum has the target 3.
\<close>

definition ex_env_bf :: env where
  "ex_env_bf = ex_env\<lparr>glob := ex_glob\<lparr>allcont :=
     [ex_cont, ex_cont\<lparr>level := 1\<rparr>,
      ex_cont\<lparr>nu_edge := 3500000000000000, phixstargetindex := 3\<rparr>,
      ex_cont\<lparr>nu_edge := 5000000000000000\<rparr>]\<rparr>,
     atom := ex_atom\<lparr>get_phixsupperlevel := (\<lambda>e i l t. t)\<rparr>\<rparr>"

text \<open>The same environment with two continua, the second with a negative cross-section.\<close>

definition ex_env_neg :: env where
  "ex_env_neg = ex_env\<lparr>glob := ex_glob\<lparr>allcont :=
     [ex_cont, ex_cont\<lparr>nu_edge := 3500000000000000, photoion_xs := [- 1 / 10 ^ 18]\<rparr>]\<rparr>\<rparr>"

text \<open>
  An r-packet at the origin at time 1, moving along \<open>x\<close>, with the given cell, frequency
  (equal in both frames there) and \<open>next_trans\<close>.
\<close>

definition ex_pkt :: "int \<Rightarrow> real \<Rightarrow> int \<Rightarrow> packet" where
  "ex_pkt c f k = \<lparr>pkt_where = c, pkt_type = TYPE_RPKT, last_cross = NONE, interactions = 0,
     nscatterings = 0, last_event = 0, scat_count = 0, pos = (0, 0, 0), dir = (1, 0, 0),
     nu_cmf = f, nu_rf = f, e_cmf = 1, e_rf = 1, prop_time = 1, next_trans = k,
     escape_type = TYPE_RPKT, escape_time = 0, em_pos = (0, 0, 0), em_time = 0,
     absorptiontype = 0, absorptionfreq = 0, absorptiondir = (0, 0, 0), stokes = (1, 0, 0),
     pol_dir = (0, 1, 0), emissiontype = 0,
     mastate = \<lparr>ma_element = 0, ma_ion = 0, ma_level = 0, ma_activatingline = 0\<rparr>\<rparr>"

text \<open>The per-thread state after a reset: the cache asks for recalculation.\<close>

definition ex_cache_reset :: rpkt_cont_opacity where
  "ex_cache_reset = \<lparr>cont_nu = 0, total = 0, es = 0, ff = 0, bf = 0, ffheating = 0,
     cont_modelgridindex = - 1, recalculate_required = True\<rparr>"

definition ex_g :: gstate where
  "ex_g = \<lparr>kappa_rpkt_cont = ex_cache_reset, phixslist_kappa_bf_sum = (\<lambda>i. 0),
     phixslist_gamma_contr = (\<lambda>i. 0), phixslist_groundcont_gamma_contr = (\<lambda>i. 0),
     ch_allcont_departureratios = (\<lambda>i. - 1), rng = 0, trace = [],
     ffheatingestimator = (\<lambda>i. 0), gammaestimator = (\<lambda>i. 0), bfheatingestimator = (\<lambda>i. 0)\<rparr>"

text \<open>
  Successive calls of \<^verbatim>\<open>calculate_kappa_rpkt_cont\<close> on the one per-thread state, and what
  is looked at in the cache afterwards: the cell, the frequency and the total.
\<close>

primrec kappa_calls :: "env \<Rightarrow> gstate \<Rightarrow> packet list \<Rightarrow> error + gstate" where
  "kappa_calls env g [] = Inr g"
| "kappa_calls env g (p # ps) =
     (case calculate_kappa_rpkt_cont env g p of
        Inl e \<Rightarrow> Inl e
      | Inr g' \<Rightarrow> kappa_calls env g' ps)"

definition cache_view :: "error + gstate \<Rightarrow> error + (int \<times> real \<times> real)" where
  "cache_view x = map_sum id (\<lambda>g. (cont_modelgridindex (kappa_rpkt_cont g),
                                     cont_nu (kappa_rpkt_cont g), total (kappa_rpkt_cont g))) x"

text \<open>
  A cache with total opacity 1 and the given electron-scattering, free-free and
  bound-free parts, and what is looked at in the result of \<^verbatim>\<open>rpkt_event_continuum\<close>.
\<close>

definition ex_cache :: "real \<Rightarrow> real \<Rightarrow> real \<Rightarrow> rpkt_cont_opacity" where
  "ex_cache s f b = \<lparr>cont_nu = 0, total = 1, es = s, ff = f, bf = b, ffheating = f,
     cont_modelgridindex = 0, recalculate_required = False\<rparr>"

definition cont_outcome ::
  "error + (packet \<times> gstate) \<Rightarrow> error + (packet_type \<times> real \<times> int \<times> int \<times> mastate_type)" where
  "cont_outcome x =
     map_sum id (\<lambda>(p, g). (pkt_type p, nu_cmf p, last_event p, absorptiontype p, mastate p)) x"

text \<open>What is looked at in the result of \<^verbatim>\<open>emitt_rpkt\<close>.\<close>

definition emitt_outcome ::
  "error + (packet \<times> gstate)
   \<Rightarrow> error + (packet_type \<times> cell_boundary \<times> vec \<times> real \<times> real \<times> vec \<times> vec)" where
  "emitt_outcome x =
     map_sum id (\<lambda>(p, g). (pkt_type p, last_cross p, dir p, nu_rf p, e_rf p, stokes p, pol_dir p)) x"

text \<open>What is looked at in the result of \<^verbatim>\<open>get_event\<close> and of \<^verbatim>\<open>do_rpkt_step\<close>.\<close>

definition event_outcome :: "error + get_event_result \<Rightarrow> error + (real \<times> int \<times> int \<times> int)" where
  "event_outcome x =
     map_sum id (\<lambda>r. (res_edist r, res_eventtype r, next_trans (res_pkt r),
                      next_trans (res_dummypkt r))) x"

definition step_outcome ::
  "error + (bool \<times> packet \<times> gstate) \<Rightarrow> error + (bool \<times> int \<times> int \<times> call list)" where
  "step_outcome x = map_sum id (\<lambda>(b, p, g). (b, pkt_where p, next_trans p, trace g)) x"


section \<open>The event loop terminates\<close>

text \<open>
  Each pass that goes round again has found a line index at or after the shadow packet's
  \<open>next_trans\<close> and inside the list, and leaves \<open>next_trans\<close> one past it.
\<close>

lemma lower_bound_ge_first: "lower_bound ll first len v = Inr r \<Longrightarrow> first \<le> r"
proof (induction ll first len v rule: lower_bound.induct)
  case (1 ll first len v)
  show ?case
  proof (cases "0 < len")
    case False
    with 1(3) show ?thesis by (simp add: lower_bound.simps)
  next
    case True
    from 1(3) True obtain line where at: "linelist_at ll (first + len div 2) = Inr line"
      by (subst (asm) lower_bound.simps) (auto split: sum.splits)
    show ?thesis
    proof (cases "line_less line v")
      case less: True
      from 1(3) True at less
      have "lower_bound ll (first + len div 2 + 1) (len - len div 2 - 1) v = Inr r"
        by (subst (asm) lower_bound.simps) simp
      from 1(1)[OF True at less this] True show ?thesis by linarith
    next
      case nless: False
      from 1(3) True at nless have "lower_bound ll first (len div 2) v = Inr r"
        by (subst (asm) lower_bound.simps) simp
      from 1(2)[OF True at nless this] show ?thesis .
    qed
  qed
qed

lemma closest_transition_ge: "closest_transition ll v k = Inr i \<Longrightarrow> 0 \<le> i \<Longrightarrow> k \<le> i"
  unfolding closest_transition_def
  by (auto simp: Let_def split: sum.splits if_splits dest: lower_bound_ge_first)

lemma linelist_at_less: "linelist_at ll i = Inr l \<Longrightarrow> 0 \<le> i \<and> i < nlines ll"
  unfolding linelist_at_def by (auto split: if_splits)

lemma move_pkt_withtime_next_trans [simp]:
  "next_trans (move_pkt_withtime env p d) = next_trans p"
  by (simp add: move_pkt_withtime_def move_pkt_def Let_def)

lemma get_event_iter_Continue:
  assumes "get_event_iter env mgi pkt et tau_rnd abort_dist nca kc s = Inr (Continue s')"
  shows "\<exists>lineindex line. closest_transition (linelist (glob env)) (nu_cmf (ge_dummypkt s))
             (next_trans (ge_dummypkt s)) = Inr lineindex \<and> 0 \<le> lineindex
           \<and> linelist_at (linelist (glob env)) lineindex = Inr line
           \<and> next_trans (ge_dummypkt s') = lineindex + 1"
  using assms unfolding get_event_iter_def
  by (auto simp: Let_def split: sum.splits if_splits)

lemma get_event_iter_Continue_measure:
  assumes "get_event_iter env mgi pkt et tau_rnd abort_dist nca kc s = Inr (Continue s')"
  shows "next_trans (ge_dummypkt s) < next_trans (ge_dummypkt s')
       \<and> next_trans (ge_dummypkt s') \<le> nlines (linelist (glob env))"
proof -
  from get_event_iter_Continue[OF assms] obtain lineindex line where
    h: "closest_transition (linelist (glob env)) (nu_cmf (ge_dummypkt s))
             (next_trans (ge_dummypkt s)) = Inr lineindex" "0 \<le> lineindex"
       "linelist_at (linelist (glob env)) lineindex = Inr line"
       "next_trans (ge_dummypkt s') = lineindex + 1" by blast
  from closest_transition_ge[OF h(1,2)] linelist_at_less[OF h(3)] h(4) show ?thesis by linarith
qed

termination get_event_loop
proof (relation "measure (\<lambda>(env, mgi, pkt, et, tau_rnd, abort_dist, nca, kc, s).
                    nat (nlines (linelist (glob env)) - next_trans (ge_dummypkt s)))", goal_cases)
  case 1
  show ?case by simp
next
  case (2 env mgi pkt et tau_rnd abort_dist nca kc s r s')
  then have "get_event_iter env mgi pkt et tau_rnd abort_dist nca kc s = Inr (Continue s')" by simp
  from get_event_iter_Continue_measure[OF this] show ?case by simp
qed

termination get_event_lines
proof (relation "measure (\<lambda>(env, mgi, pkt, et, tau_rnd, abort_dist, nca, kc, s).
                    nat (nlines (linelist (glob env)) - next_trans (ge_dummypkt s)))", goal_cases)
  case 1
  show ?case by simp
next
  case (2 env mgi pkt et tau_rnd abort_dist nca kc s lineindex r s')
  then have "get_event_iter env mgi pkt et tau_rnd abort_dist nca kc s = Inr (Continue s')" by simp
  from get_event_iter_Continue_measure[OF this] show ?case by simp
qed

declare get_event_loop.simps [simp del]

declare get_event_lines.simps [simp del]

section \<open>Evaluation on the concrete instances\<close>

lemmas ex_defs = ex_env_def ex_opts_def ex_phys_def ex_glob_def ex_grd_def ex_atom_def ex_kin_def
  ex_pkt_def ex_g_def ex_cache_reset_def ex_cont_def three_lines_def line_at_def

lemmas kappa_defs = calculate_kappa_rpkt_cont_def kappa_rpkt_cont_compute_def calculate_kappa_ff_def
  calculate_kappa_bf_gammacontr_def bf_corrfactor_def nbfcontinua_def upto.simps

lemmas search_defs = closest_transition_def linelist_at_def nlines_def lower_bound.simps line_less_def

lemmas move_defs = move_pkt_withtime_def move_pkt_def doppler_packet_nucmf_on_nurf_def

lemmas event_defs = get_event_nu_cmf_abort_def get_event_iter_def get_event_ldist_def
  get_event_tau_line_def RPKT_EVENTTYPE_BB_def RPKT_EVENTTYPE_CONT_def

lemma get_event_loop_Return:
  "get_event_iter env mgi pkt et tau_rnd abort_dist nca kc s = Inr (Return r) \<Longrightarrow>
   get_event_loop env mgi pkt et tau_rnd abort_dist nca kc s = Inr r"
  by (subst get_event_loop.simps) simp

lemma get_event_loop_Continue:
  "get_event_iter env mgi pkt et tau_rnd abort_dist nca kc s = Inr (Continue s') \<Longrightarrow>
   get_event_loop env mgi pkt et tau_rnd abort_dist nca kc s =
   get_event_loop env mgi pkt et tau_rnd abort_dist nca kc s'"
  by (subst get_event_loop.simps) simp

lemma get_event_loop_error:
  "get_event_iter env mgi pkt et tau_rnd abort_dist nca kc s = Inl e \<Longrightarrow>
   get_event_loop env mgi pkt et tau_rnd abort_dist nca kc s = Inl e"
  by (subst get_event_loop.simps) simp

lemmas step_defs = do_rpkt_step_def rpkt_step_distances_def rpkt_step_dispatch_def
  rpkt_boundary_branch_def rpkt_time_branch_def move_and_estimate_def update_estimators_def
  change_cell_def closest_transition_empty_def linelist_nu_unchecked_def groundcont_at_def
  DBL_MAX_def


section \<open>The line list search\<close>

lemma sorted_desc_nth:
  "sorted_desc ll \<Longrightarrow> 0 \<le> i \<Longrightarrow> i \<le> j \<Longrightarrow> j < nlines ll \<Longrightarrow> nu (ll ! nat j) \<le> nu (ll ! nat i)"
proof -
  assume a: "sorted_desc ll" "0 \<le> i" "i \<le> j" "j < nlines ll"
  show ?thesis
  proof (cases "i = j")
    case True then show ?thesis by simp
  next
    case False
    with a have "nat i < nat j" "nat j < length ll" by (auto simp: nlines_def)
    with a(1) show ?thesis unfolding sorted_desc_def by (simp add: sorted_wrt_iff_nth_less)
  qed
qed

lemma lower_bound_partition:
  "sorted_desc ll \<Longrightarrow> 0 \<le> first \<Longrightarrow> 0 \<le> len \<Longrightarrow> first + len \<le> nlines ll \<Longrightarrow>
   \<exists>r. lower_bound ll first len v = Inr r \<and> first \<le> r \<and> r \<le> first + len
     \<and> (\<forall>i. first \<le> i \<and> i < r \<longrightarrow> v < nu (ll ! nat i))
     \<and> (\<forall>i. r \<le> i \<and> i < first + len \<longrightarrow> nu (ll ! nat i) \<le> v)"
proof (induction ll first len v rule: lower_bound.induct)
  case (1 ll first len v)
  show ?case
  proof (cases "0 < len")
    case False
    with 1(5) have "len = 0" by simp
    then show ?thesis by (simp add: lower_bound.simps)
  next
    case True
    define mid where "mid = first + len div 2"
    have midr: "0 \<le> mid" "mid < nlines ll" "first \<le> mid" "mid < first + len"
      using True 1(4,5,6) by (auto simp: mid_def)
    then have at: "linelist_at ll mid = Inr (ll ! nat mid)" by (simp add: linelist_at_def)
    show ?thesis
    proof (cases "line_less (ll ! nat mid) v")
      case less: True
      have "\<exists>r. lower_bound ll (mid + 1) (len - len div 2 - 1) v = Inr r \<and> mid + 1 \<le> r \<and> r \<le> mid + 1 + (len - len div 2 - 1)
     \<and> (\<forall>i. mid + 1 \<le> i \<and> i < r \<longrightarrow> v < nu (ll ! nat i))
     \<and> (\<forall>i. r \<le> i \<and> i < mid + 1 + (len - len div 2 - 1) \<longrightarrow> nu (ll ! nat i) \<le> v)"
        using 1(1)[OF True at[unfolded mid_def] less[unfolded mid_def]] 1(3) midr 1(4,5,6) True
        by (simp add: mid_def)
      then obtain r where r: "lower_bound ll (mid + 1) (len - len div 2 - 1) v = Inr r"
        "mid + 1 \<le> r" "r \<le> first + len"
        "\<forall>i. mid + 1 \<le> i \<and> i < r \<longrightarrow> v < nu (ll ! nat i)"
        "\<forall>i. r \<le> i \<and> i < first + len \<longrightarrow> nu (ll ! nat i) \<le> v"
        by (auto simp: mid_def)
      have eq: "lower_bound ll first len v = Inr r"
        using True at less r(1) by (subst lower_bound.simps) (simp add: mid_def)
      have low: "\<forall>i. first \<le> i \<and> i < r \<longrightarrow> v < nu (ll ! nat i)"
      proof (intro allI impI)
        fix i assume i: "first \<le> i \<and> i < r"
        show "v < nu (ll ! nat i)"
        proof (cases "mid + 1 \<le> i")
          case True with r(4) i show ?thesis by simp
        next
          case False
          then have "i \<le> mid" by simp
          then have "nu (ll ! nat mid) \<le> nu (ll ! nat i)"
            using sorted_desc_nth[OF 1(3), of i mid] i 1(4) midr by simp
          with less show ?thesis by (simp add: line_less_def)
        qed
      qed
      show ?thesis using eq r low midr by auto
    next
      case nless: False
      have "\<exists>r. lower_bound ll first (len div 2) v = Inr r \<and> first \<le> r \<and> r \<le> first + len div 2
     \<and> (\<forall>i. first \<le> i \<and> i < r \<longrightarrow> v < nu (ll ! nat i))
     \<and> (\<forall>i. r \<le> i \<and> i < first + len div 2 \<longrightarrow> nu (ll ! nat i) \<le> v)"
        using 1(2)[OF True at[unfolded mid_def] nless[unfolded mid_def]] 1(3) midr 1(4,5,6) True
        by (simp add: mid_def)
      then obtain r where r: "lower_bound ll first (len div 2) v = Inr r"
        "first \<le> r" "r \<le> mid"
        "\<forall>i. first \<le> i \<and> i < r \<longrightarrow> v < nu (ll ! nat i)"
        "\<forall>i. r \<le> i \<and> i < mid \<longrightarrow> nu (ll ! nat i) \<le> v"
        by (auto simp: mid_def)
      have eq: "lower_bound ll first len v = Inr r"
        using True at nless r(1) by (subst lower_bound.simps) (simp add: mid_def)
      have high: "\<forall>i. r \<le> i \<and> i < first + len \<longrightarrow> nu (ll ! nat i) \<le> v"
      proof (intro allI impI)
        fix i assume i: "r \<le> i \<and> i < first + len"
        show "nu (ll ! nat i) \<le> v"
        proof (cases "i < mid")
          case True with r(5) i show ?thesis by simp
        next
          case False
          then have "mid \<le> i" by simp
          then have "nu (ll ! nat i) \<le> nu (ll ! nat mid)"
            using sorted_desc_nth[OF 1(3), of mid i] i 1(6) midr by simp
          with nless show ?thesis by (simp add: line_less_def)
        qed
      qed
      show ?thesis using eq r high midr by auto
    qed
  qed
qed


lemma nlines_last: "ll \<noteq> [] \<Longrightarrow> linelist_at ll (nlines ll - 1) = Inr (last ll)"
  by (simp add: linelist_at_def nlines_def last_conv_nth nat_diff_distrib')

lemma nlines_hd: "ll \<noteq> [] \<Longrightarrow> linelist_at ll 0 = Inr (hd ll)"
  by (simp add: linelist_at_def nlines_def hd_conv_nth)

lemma nlines_empty: "linelist_at [] i = Inl OutOfRange"
  by (simp add: linelist_at_def nlines_def)

lemma closest_transition_while_finds:
  "sorted_desc ll \<Longrightarrow> 0 \<le> left \<Longrightarrow> right < nlines ll \<Longrightarrow> left \<le> m \<Longrightarrow> m \<le> right \<Longrightarrow> 1 \<le> m \<Longrightarrow>
   nu (ll ! nat m) \<le> v \<Longrightarrow> v < nu (ll ! nat (m - 1)) \<Longrightarrow>
   closest_transition_while ll v left right middle = Inr m"
proof (induction ll v left right middle rule: closest_transition_while.induct)
  case (1 ll v left right middle)
  let ?mid = "left + (right - left) div 2"
  have lr: "left \<le> right" using 1(6,7) by simp
  have m1: "left \<le> ?mid" using lr by simp
  have m2: "?mid \<le> right" using lr by linarith
  have m3: "0 \<le> ?mid" using m1 1(4) by linarith
  have m4: "?mid < nlines ll" using m2 1(5) by linarith
  have at: "linelist_at ll ?mid = Inr (ll ! nat ?mid)"
    using m3 m4 unfolding linelist_at_def by simp
  show ?case
  proof (cases "nu (ll ! nat ?mid) \<le> v")
    case ge: True
    have mle: "m \<le> ?mid"
    proof (rule ccontr)
      assume "\<not> m \<le> ?mid"
      then have a: "?mid \<le> m - 1" by linarith
      have b: "m - 1 < nlines ll" using 1(5,7) by linarith
      have "nu (ll ! nat (m - 1)) \<le> nu (ll ! nat ?mid)"
        by (rule sorted_desc_nth[OF 1(3) m3 a b])
      with ge 1(10) show False by linarith
    qed
    have mid1: "1 \<le> ?mid" using mle 1(8) by linarith
    have at1: "linelist_at ll (?mid - 1) = Inr (ll ! nat (?mid - 1))"
      using mid1 m4 unfolding linelist_at_def by simp
    show ?thesis
    proof (cases "v < nu (ll ! nat (?mid - 1))")
      case True
      have "?mid = m"
      proof (rule ccontr)
        assume "?mid \<noteq> m"
        with mle have a: "m \<le> ?mid - 1" by linarith
        have b: "0 \<le> m" using 1(8) by linarith
        have c: "?mid - 1 < nlines ll" using m4 by linarith
        have "nu (ll ! nat (?mid - 1)) \<le> nu (ll ! nat m)"
          by (rule sorted_desc_nth[OF 1(3) b a c])
        with True 1(9) show False by linarith
      qed
      moreover have "closest_transition_while ll v left right middle = Inr ?mid"
        by (subst closest_transition_while.simps) (simp only: lr at at1 ge True if_True sum.case)
      ultimately show ?thesis by simp
    next
      case False
      have "m \<noteq> ?mid" using False 1(10) by auto
      with mle have mle': "m \<le> ?mid - 1" by linarith
      have r': "?mid - 1 < nlines ll" using m4 by linarith
      have ge': "nu (ll ! nat ?mid) \<le> v" by (rule ge)
      have "closest_transition_while ll v left (?mid - 1) ?mid = Inr m"
        by (rule 1(1)[OF lr at ge' at1 False 1(3) 1(4) r' 1(6) mle' 1(8) 1(9) 1(10)])
      then show ?thesis
        by (subst closest_transition_while.simps) (simp only: lr at at1 ge False if_True if_False sum.case)
    qed
  next
    case False
    have ml: "?mid < m"
    proof (rule ccontr)
      assume "\<not> ?mid < m"
      then have a: "m \<le> ?mid" by linarith
      have b: "0 \<le> m" using 1(8) by linarith
      have "nu (ll ! nat ?mid) \<le> nu (ll ! nat m)"
        by (rule sorted_desc_nth[OF 1(3) b a m4])
      with False 1(9) show False by linarith
    qed
    have l': "0 \<le> ?mid + 1" using m3 by linarith
    have ml': "?mid + 1 \<le> m" using ml by linarith
    have "closest_transition_while ll v (?mid + 1) right ?mid = Inr m"
      by (rule 1(2)[OF lr at False 1(3) l' 1(5) ml' 1(7) 1(8) 1(9) 1(10)])
    then show ?thesis
      by (subst closest_transition_while.simps) (simp only: lr at False if_True if_False sum.case)
  qed
qed

lemma closest_transition_zero_search:
  assumes s: "sorted_desc ll" and ne: "ll \<noteq> []"
    and lo: "nu (last ll) \<le> v" and hi: "v < nu (hd ll)"
  shows "\<exists>i. closest_transition ll v 0 = Inr i \<and> 1 \<le> i \<and> i < nlines ll
            \<and> nu (ll ! nat i) \<le> v \<and> (\<forall>j. 0 \<le> j \<and> j < i \<longrightarrow> v < nu (ll ! nat j))"
proof -
  have n: "0 < nlines ll" using ne by (simp add: nlines_def)
  obtain r where r: "lower_bound ll 0 (nlines ll) v = Inr r" "0 \<le> r" "r \<le> nlines ll"
     "\<forall>i. 0 \<le> i \<and> i < r \<longrightarrow> v < nu (ll ! nat i)"
     "\<forall>i. r \<le> i \<and> i < nlines ll \<longrightarrow> nu (ll ! nat i) \<le> v"
    using lower_bound_partition[OF s, of 0 "nlines ll" v] n by auto
  have lastnth: "last ll = ll ! nat (nlines ll - 1)"
    using ne by (simp add: nlines_def last_conv_nth nat_diff_distrib')
  have hdnth: "hd ll = ll ! nat 0" using ne by (simp add: hd_conv_nth)
  have "r \<noteq> nlines ll"
  proof
    assume "r = nlines ll"
    with r(4) n have "v < nu (ll ! nat (nlines ll - 1))" by simp
    with lo lastnth show False by simp
  qed
  moreover have "r \<noteq> 0"
  proof
    assume "r = 0"
    with r(5) n have "nu (ll ! nat 0) \<le> v" by blast
    with hi hdnth show False by simp
  qed
  ultimately have rr: "1 \<le> r" "r < nlines ll" using r(2,3) by auto
  have "closest_transition ll v 0 = Inr r"
    using ne lo hi n r(1) by (simp add: closest_transition_def nlines_last nlines_hd)
  with rr r show ?thesis by auto
qed


lemma strict_imp_sorted_desc: "sorted_desc_strict ll \<Longrightarrow> sorted_desc ll"
  unfolding sorted_desc_strict_def sorted_desc_def
  by (erule sorted_wrt_mono_rel[rotated]) simp

text \<open>
  Claim C3.  On a non-empty line list sorted by descending frequency,
  \<open>closest_transition v 0\<close> returns \<open>-1\<close> when \<open>v\<close> is below the frequency of the last
  (reddest) line, \<open>0\<close> when \<open>v\<close> is at or above the frequency of the first (bluest) line,
  and otherwise the smallest index \<open>i\<close> whose line frequency is at most \<open>v\<close>, which is the
  largest line frequency at most \<open>v\<close>.  With \<open>0 < k \<le> nlines - 1\<close> and \<open>v\<close> not below the
  last line, \<open>closest_transition v k\<close> returns \<open>k\<close>.
\<close>

theorem closest_transition_search:
  assumes "sorted_desc ll" and "ll \<noteq> []"
  shows "(v < nu (last ll) \<longrightarrow> closest_transition ll v 0 = Inr (- 1))
       \<and> (nu (hd ll) \<le> v \<longrightarrow> closest_transition ll v 0 = Inr 0)
       \<and> (nu (last ll) \<le> v \<and> v < nu (hd ll) \<longrightarrow>
            (\<exists>i. closest_transition ll v 0 = Inr i \<and> 0 \<le> i \<and> i < nlines ll
               \<and> nu (ll ! nat i) \<le> v
               \<and> (\<forall>j. 0 \<le> j \<and> j < i \<longrightarrow> v < nu (ll ! nat j))
               \<and> (\<forall>j. 0 \<le> j \<and> j < nlines ll \<and> nu (ll ! nat j) \<le> v
                       \<longrightarrow> nu (ll ! nat j) \<le> nu (ll ! nat i))))
       \<and> (0 < k \<and> k \<le> nlines ll - 1 \<and> nu (last ll) \<le> v \<longrightarrow>
            closest_transition ll v k = Inr k)"
proof (intro conjI impI)
  assume "v < nu (last ll)"
  then show "closest_transition ll v 0 = Inr (- 1)"
    using assms(2) by (simp add: closest_transition_def nlines_last)
next
  assume h: "nu (hd ll) \<le> v"
  have n: "0 < nlines ll" using assms(2) by (simp add: nlines_def)
  have "last ll = ll ! nat (nlines ll - 1)"
    using assms(2) by (simp add: nlines_def last_conv_nth nat_diff_distrib')
  moreover have "hd ll = ll ! nat 0" using assms(2) by (simp add: hd_conv_nth)
  ultimately have "nu (last ll) \<le> nu (hd ll)"
    using sorted_desc_nth[OF assms(1), of 0 "nlines ll - 1"] n by simp
  with h show "closest_transition ll v 0 = Inr 0"
    using assms(2) n by (simp add: closest_transition_def nlines_last nlines_hd)
next
  assume h: "nu (last ll) \<le> v \<and> v < nu (hd ll)"
  then obtain i where i: "closest_transition ll v 0 = Inr i" "1 \<le> i" "i < nlines ll"
     "nu (ll ! nat i) \<le> v" "\<forall>j. 0 \<le> j \<and> j < i \<longrightarrow> v < nu (ll ! nat j)"
    using closest_transition_zero_search[OF assms, of v] by auto
  have "\<forall>j. 0 \<le> j \<and> j < nlines ll \<and> nu (ll ! nat j) \<le> v
                       \<longrightarrow> nu (ll ! nat j) \<le> nu (ll ! nat i)"
  proof (intro allI impI)
    fix j assume j: "0 \<le> j \<and> j < nlines ll \<and> nu (ll ! nat j) \<le> v"
    with i(5) have "i \<le> j" by (meson not_le)
    then show "nu (ll ! nat j) \<le> nu (ll ! nat i)"
      using sorted_desc_nth[OF assms(1), of i j] i(2) j by simp
  qed
  with i show "\<exists>i. closest_transition ll v 0 = Inr i \<and> 0 \<le> i \<and> i < nlines ll
               \<and> nu (ll ! nat i) \<le> v
               \<and> (\<forall>j. 0 \<le> j \<and> j < i \<longrightarrow> v < nu (ll ! nat j))
               \<and> (\<forall>j. 0 \<le> j \<and> j < nlines ll \<and> nu (ll ! nat j) \<le> v
                       \<longrightarrow> nu (ll ! nat j) \<le> nu (ll ! nat i))"
    by (intro exI[of _ i]) simp
next
  assume "0 < k \<and> k \<le> nlines ll - 1 \<and> nu (last ll) \<le> v"
  then show "closest_transition ll v k = Inr k"
    using assms(2) by (simp add: closest_transition_def nlines_last)
qed

theorem closest_transition_search_witness:
  "sorted_desc three_lines \<and> three_lines \<noteq> []
   \<and> closest_transition three_lines 5 0 = Inr (- 1)
   \<and> closest_transition three_lines 700000000000000 0 = Inr 0
   \<and> closest_transition three_lines 400000000000000 0 = Inr 1
   \<and> closest_transition three_lines 400000000000000 2 = Inr 2"
proof -
  have s: "sorted_desc three_lines" by (simp add: sorted_desc_def three_lines_def line_at_def)
  have n: "three_lines \<noteq> []" by (simp add: three_lines_def)
  have a: "closest_transition three_lines 5 0 = Inr (- 1)"
    using closest_transition_search[OF s n, of 5 1] by (simp add: three_lines_def line_at_def)
  have b: "closest_transition three_lines 700000000000000 0 = Inr 0"
    using closest_transition_search[OF s n, of 700000000000000 1] by (simp add: three_lines_def line_at_def)
  have d: "closest_transition three_lines 400000000000000 2 = Inr 2"
    using closest_transition_search[OF s n, of 400000000000000 2]
    by (simp add: three_lines_def line_at_def nlines_def)
  have c: "closest_transition three_lines 400000000000000 0 = Inr 1"
    by (simp add: closest_transition_def three_lines_def line_at_def nlines_def linelist_at_def
          lower_bound.simps line_less_def)
  from s n a b c d show ?thesis by simp
qed

text \<open>
  Claim C10.  On a line list sorted by strictly descending frequency and for every
  \<open>k \<ge> 0\<close>, the bisection loop of the older module and the \<^verbatim>\<open>std::lower_bound\<close> version
  return the same result; on a non-empty list that result is an index (or \<open>-1\<close>), never an
  error.
\<close>

theorem closest_transition_versions_agree:
  assumes "sorted_desc_strict ll" and "0 \<le> k"
  shows "closest_transition_old ll v k = closest_transition ll v k
       \<and> (ll \<noteq> [] \<longrightarrow> (\<exists>i. closest_transition ll v k = Inr i))"
proof (cases "ll = []")
  case True
  then show ?thesis by (simp add: closest_transition_def closest_transition_old_def nlines_empty)
next
  case ne: False
  have s: "sorted_desc ll" using assms(1) by (rule strict_imp_sorted_desc)
  show ?thesis
  proof (cases "nu (last ll) \<le> v \<and> k \<le> nlines ll - 1 \<and> k = 0 \<and> v < nu (hd ll)")
    case False
    have n: "0 < nlines ll" using ne by (simp add: nlines_def)
    have eq: "closest_transition_old ll v k = closest_transition ll v k"
      using False ne assms(2) n
      by (auto simp: closest_transition_def closest_transition_old_def nlines_last nlines_hd)
    have "\<exists>i. closest_transition ll v k = Inr i"
      using False ne assms(2) n
      by (auto simp: closest_transition_def nlines_last nlines_hd)
    with eq show ?thesis by simp
  next
    case True
    then obtain i where i: "closest_transition ll v 0 = Inr i" "1 \<le> i" "i < nlines ll"
     "nu (ll ! nat i) \<le> v" "\<forall>j. 0 \<le> j \<and> j < i \<longrightarrow> v < nu (ll ! nat j)"
      using closest_transition_zero_search[OF s ne, of v] by auto
    have "v < nu (ll ! nat (i - 1))" using i(2,5) by simp
    then have "closest_transition_while ll v 0 (nlines ll - 1) 1 = Inr i"
      using closest_transition_while_finds[OF s, of 0 "nlines ll - 1" i v 1] i by simp
    then have "closest_transition_old ll v 0 = Inr i"
      using True ne by (simp add: closest_transition_old_def nlines_last nlines_hd)
    with i(1) True show ?thesis by simp
  qed
qed

theorem closest_transition_versions_agree_witness:
  "sorted_desc_strict three_lines \<and> (0::int) \<le> 0
   \<and> closest_transition_old three_lines 200000000000000 0 = closest_transition three_lines 200000000000000 0
   \<and> closest_transition_old three_lines 200000000000000 0 = Inr 2"
proof -
  have s: "sorted_desc_strict three_lines"
    by (simp add: sorted_desc_strict_def three_lines_def line_at_def)
  have e: "closest_transition_old three_lines 200000000000000 0 = closest_transition three_lines 200000000000000 0"
    using closest_transition_versions_agree[OF s, of 0 200000000000000] by simp
  have c: "closest_transition three_lines 200000000000000 0 = Inr 2"
    by (simp add: closest_transition_def three_lines_def line_at_def nlines_def linelist_at_def
          lower_bound.simps line_less_def)
  from s e c show ?thesis by simp
qed


section \<open>The exit of \<^verbatim>\<open>get_event\<close> across the abort boundary\<close>

text \<open>
  Claim C1, as amended.  Let a pass of the loop of \<^verbatim>\<open>get_event\<close> find the line
  \<open>lineindex\<close> whose frequency lies past the abort boundary, \<open>nu line < nu_cmf_abort\<close>.
  If the remaining optical depth exceeds the continuum optical depth up to the line,
  \<open>tau_rnd - tau > kap_cont * ldist\<close>, the function winds the shadow packet's
  \<open>next_trans\<close> back to \<open>lineindex\<close>, commits it to the packet and returns the largest
  finite double, leaving the event type untouched.  Otherwise the continuum event comes
  first: the function winds back and commits in the same way and returns the distance
  \<open>dist + (tau_rnd - tau) / kap_cont\<close> with the event type \<^verbatim>\<open>RPKT_EVENTTYPE_CONT\<close>.
\<close>

theorem get_event_abort_exit:
  assumes "closest_transition (linelist (glob env)) (nu_cmf (ge_dummypkt s))
             (next_trans (ge_dummypkt s)) = Inr lineindex"
      and "0 \<le> lineindex"
      and "linelist_at (linelist (glob env)) lineindex = Inr line"
      and "get_event_ldist env ((ge_dummypkt s)\<lparr>next_trans := lineindex + 1\<rparr>) (nu line) = Inr ldist"
      and "nu line < nu_cmf_abort"
  shows "get_event_loop env mgi pkt et tau_rnd abort_dist nu_cmf_abort kap_cont s =
           (if tau_rnd - ge_tau s > kap_cont * ldist
            then Inr \<lparr>res_edist = DBL_MAX,
                      res_pkt = pkt\<lparr>next_trans := lineindex\<rparr>,
                      res_eventtype = et,
                      res_g = ge_g s,
                      res_dummypkt = (ge_dummypkt s)\<lparr>next_trans := lineindex\<rparr>\<rparr>
            else Inr \<lparr>res_edist = ge_dist s + (tau_rnd - ge_tau s) / kap_cont,
                      res_pkt = pkt\<lparr>next_trans := lineindex\<rparr>,
                      res_eventtype = RPKT_EVENTTYPE_CONT,
                      res_g = ge_g s,
                      res_dummypkt = (ge_dummypkt s)\<lparr>next_trans := lineindex\<rparr>\<rparr>)"
proof (cases "tau_rnd - ge_tau s > kap_cont * ldist")
  case True
  have "get_event_iter env mgi pkt et tau_rnd abort_dist nu_cmf_abort kap_cont s =
          Inr (Return \<lparr>res_edist = DBL_MAX, res_pkt = pkt\<lparr>next_trans := lineindex\<rparr>,
                 res_eventtype = et, res_g = ge_g s,
                 res_dummypkt = (ge_dummypkt s)\<lparr>next_trans := lineindex\<rparr>\<rparr>)"
    using assms True by (simp add: get_event_iter_def Let_def)
  from get_event_loop_Return[OF this] True show ?thesis by simp
next
  case False
  have "get_event_iter env mgi pkt et tau_rnd abort_dist nu_cmf_abort kap_cont s =
          Inr (Return \<lparr>res_edist = ge_dist s + (tau_rnd - ge_tau s) / kap_cont,
                 res_pkt = pkt\<lparr>next_trans := lineindex\<rparr>,
                 res_eventtype = RPKT_EVENTTYPE_CONT, res_g = ge_g s,
                 res_dummypkt = (ge_dummypkt s)\<lparr>next_trans := lineindex\<rparr>\<rparr>)"
    using assms False by (simp add: get_event_iter_def Let_def)
  from get_event_loop_Return[OF this] False show ?thesis by simp
qed

theorem get_event_abort_exit_witness:
  "closest_transition (linelist (glob ex_env)) 400000000000000 0 = Inr 1
   \<and> linelist_at (linelist (glob ex_env)) 1 = Inr (line_at 300000000000000)
   \<and> get_event_ldist ex_env ((ex_pkt 0 400000000000000 0)\<lparr>next_trans := 2\<rparr>) 300000000000000
        = Inr (29979245800 / 3)
   \<and> (300000000000000 :: real) < get_event_nu_cmf_abort ex_env (ex_pkt 0 400000000000000 0) 7494811450
   \<and> map_sum id (\<lambda>r. (res_edist r, next_trans (res_pkt r), next_trans (res_dummypkt r), res_eventtype r))
        (get_event ex_env ex_g 0 (ex_pkt 0 400000000000000 0) (- 1) 1 7494811450)
        = Inr (DBL_MAX, 1, 1, - 1)"
proof -
  let ?P = "ex_pkt 0 400000000000000 0"
  have ct: "closest_transition (linelist (glob ex_env)) 400000000000000 0 = Inr 1"
    by (simp add: ex_defs search_defs)
  have at: "linelist_at (linelist (glob ex_env)) 1 = Inr (line_at 300000000000000)"
    by (simp add: ex_defs search_defs)
  have ld: "get_event_ldist ex_env (?P\<lparr>next_trans := 2\<rparr>) 300000000000000 = Inr (29979245800 / 3)"
    by (simp add: ex_defs get_event_ldist_def)
  have ab: "get_event_nu_cmf_abort ex_env ?P 7494811450 = 320000000000000"
    by (simp add: ex_defs get_event_nu_cmf_abort_def move_defs)
  obtain g1 where k: "calculate_kappa_rpkt_cont ex_env ex_g ?P = Inr g1"
    and t: "total (kappa_rpkt_cont g1) = 16631 / 250000000000000"
    by (simp add: ex_defs kappa_defs Let_def)
  let ?s = "\<lparr>ge_tau = 0, ge_dist = 0, ge_dummypkt = ?P, ge_g = g1\<rparr>"
  have "get_event_loop ex_env 0 ?P (- 1) 1 7494811450 320000000000000
          (16631 / 250000000000000) ?s
        = Inr \<lparr>res_edist = DBL_MAX, res_pkt = ?P\<lparr>next_trans := 1\<rparr>, res_eventtype = - 1,
                res_g = g1, res_dummypkt = ?P\<lparr>next_trans := 1\<rparr>\<rparr>"
    using get_event_abort_exit[of ex_env ?s 1 "line_at 300000000000000" "29979245800 / 3"
            320000000000000 0 ?P "- 1" 1 7494811450 "16631 / 250000000000000"]
          ct at ld
    by (simp add: ex_pkt_def line_at_def)
  moreover have d: "doppler_packet_nucmf_on_nurf ex_env ?P = 1"
    by (simp add: ex_defs doppler_packet_nucmf_on_nurf_def)
  have tm: "\<not> TESTMODE (opts ex_env)" by (simp add: ex_defs)
  have "get_event ex_env ex_g 0 ?P (- 1) 1 7494811450
        = get_event_loop ex_env 0 ?P (- 1) 1 7494811450 320000000000000
            (16631 / 250000000000000) ?s"
    by (simp add: get_event_def Let_def ab k t d tm)
  ultimately have "map_sum id (\<lambda>r. (res_edist r, next_trans (res_pkt r), next_trans (res_dummypkt r), res_eventtype r))
        (get_event ex_env ex_g 0 ?P (- 1) 1 7494811450) = Inr (DBL_MAX, 1, 1, - 1)"
    by (simp add: ex_pkt_def)
  with ct at ld ab show ?thesis by simp
qed

theorem get_event_abort_counterexample:
  "closest_transition (linelist (glob ex_env)) (nu_cmf (ex_pkt 0 400000000000000 0))
       (next_trans (ex_pkt 0 400000000000000 0)) = Inr 1
   \<and> nu (linelist (glob ex_env) ! 1)
       < get_event_nu_cmf_abort ex_env (ex_pkt 0 400000000000000 0) 7494811450
   \<and> map_sum id (\<lambda>r. (res_edist r, res_eventtype r, next_trans (res_pkt r)))
        (get_event ex_env ex_g 0 (ex_pkt 0 400000000000000 0) (- 1) (2 / 5) 7494811450)
        = Inr (100000000000000 / 16631, RPKT_EVENTTYPE_CONT, 1)
   \<and> (100000000000000 / 16631 :: real) < 7494811450
   \<and> (100000000000000 / 16631 :: real) \<noteq> DBL_MAX"
  by (simp add: ex_defs kappa_defs search_defs move_defs event_defs get_event_def
        get_event_loop.simps Let_def DBL_MAX_def)


section \<open>The line index only advances\<close>

lemma get_event_iter_Return:
  assumes "get_event_iter env mgi pkt et tau_rnd abort_dist nca kc s = Inr (Return r)"
  shows "next_trans (res_pkt r) = next_trans (res_dummypkt r)
       \<and> (next_trans (res_pkt r) = nlines (linelist (glob env)) + 1
          \<or> (\<exists>lineindex line.
                closest_transition (linelist (glob env)) (nu_cmf (ge_dummypkt s))
                  (next_trans (ge_dummypkt s)) = Inr lineindex
                \<and> 0 \<le> lineindex
                \<and> linelist_at (linelist (glob env)) lineindex = Inr line
                \<and> (next_trans (res_pkt r) = lineindex \<or> next_trans (res_pkt r) = lineindex + 1)))"
  using assms unfolding get_event_iter_def
  by (auto simp: Let_def split: sum.splits if_splits)

lemma get_event_loop_next_trans:
  "get_event_loop env mgi pkt et tau_rnd abort_dist nca kc s = Inr r \<Longrightarrow>
   next_trans (res_pkt r) = next_trans (res_dummypkt r)
   \<and> (next_trans (ge_dummypkt s) \<le> nlines (linelist (glob env)) + 1
        \<longrightarrow> next_trans (ge_dummypkt s) \<le> next_trans (res_pkt r))"
proof (induction env mgi pkt et tau_rnd abort_dist nca kc s rule: get_event_loop.induct)
  case (1 env mgi pkt et tau_rnd abort_dist nca kc s)
  show ?case
  proof (cases "get_event_iter env mgi pkt et tau_rnd abort_dist nca kc s")
    case (Inl e)
    from get_event_loop_error[OF this] 1(2) show ?thesis by simp
  next
    case (Inr st)
    show ?thesis
    proof (cases st)
      case (Return r')
      with Inr have it: "get_event_iter env mgi pkt et tau_rnd abort_dist nca kc s = Inr (Return r')"
        by simp
      from get_event_loop_Return[OF it] 1(2) have rr: "r' = r" by simp
      note x = get_event_iter_Return[OF it, unfolded rr]
      note a = x[THEN conjunct1] and b = x[THEN conjunct2]
      have "next_trans (ge_dummypkt s) \<le> nlines (linelist (glob env)) + 1
            \<longrightarrow> next_trans (ge_dummypkt s) \<le> next_trans (res_pkt r)"
        using b by (auto dest: closest_transition_ge)
      with a show ?thesis by simp
    next
      case (Continue s')
      with Inr have it: "get_event_iter env mgi pkt et tau_rnd abort_dist nca kc s = Inr (Continue s')"
        by simp
      from get_event_loop_Continue[OF it] 1(2)
      have "get_event_loop env mgi pkt et tau_rnd abort_dist nca kc s' = Inr r" by simp
      from 1(1)[OF Inr Continue this] get_event_iter_Continue_measure[OF it]
      show ?thesis by auto
    qed
  qed
qed

lemma get_event_lines_sorted:
  "sorted_wrt (<) (get_event_lines env mgi pkt et tau_rnd abort_dist nca kc s)
   \<and> (\<forall>x \<in> set (get_event_lines env mgi pkt et tau_rnd abort_dist nca kc s).
         next_trans (ge_dummypkt s) \<le> x)"
proof (induction env mgi pkt et tau_rnd abort_dist nca kc s rule: get_event_lines.induct)
  case (1 env mgi pkt et tau_rnd abort_dist nca kc s)
  show ?case
  proof (cases "closest_transition (linelist (glob env)) (nu_cmf (ge_dummypkt s))
             (next_trans (ge_dummypkt s))")
    case (Inl e)
    then have "get_event_lines env mgi pkt et tau_rnd abort_dist nca kc s = []"
      by (subst get_event_lines.simps) simp
    then show ?thesis by simp
  next
    case (Inr lineindex)
    show ?thesis
    proof (cases "0 \<le> lineindex")
      case False
      with Inr have "get_event_lines env mgi pkt et tau_rnd abort_dist nca kc s = []"
        by (subst get_event_lines.simps) simp
      then show ?thesis by simp
    next
      case True
      have ge: "next_trans (ge_dummypkt s) \<le> lineindex" by (rule closest_transition_ge[OF Inr True])
      show ?thesis
      proof (cases "get_event_iter env mgi pkt et tau_rnd abort_dist nca kc s")
        case (Inl e)
        with Inr True have "get_event_lines env mgi pkt et tau_rnd abort_dist nca kc s = [lineindex]"
          by (subst get_event_lines.simps) simp
        with ge show ?thesis by simp
      next
        case it: (Inr st)
        show ?thesis
        proof (cases st)
          case (Return r')
          with it Inr True have "get_event_lines env mgi pkt et tau_rnd abort_dist nca kc s = [lineindex]"
            by (subst get_event_lines.simps) simp
          with ge show ?thesis by simp
        next
          case (Continue s')
          with it have it': "get_event_iter env mgi pkt et tau_rnd abort_dist nca kc s = Inr (Continue s')"
            by simp
          from get_event_iter_Continue[OF it'] Inr
          have nt: "next_trans (ge_dummypkt s') = lineindex + 1" by auto
          have eq: "get_event_lines env mgi pkt et tau_rnd abort_dist nca kc s
                    = lineindex # get_event_lines env mgi pkt et tau_rnd abort_dist nca kc s'"
            using Inr True it' by (subst get_event_lines.simps) simp
          from 1(1)[OF Inr True it Continue] nt
          have ih: "sorted_wrt (<) (get_event_lines env mgi pkt et tau_rnd abort_dist nca kc s')"
            "\<forall>x \<in> set (get_event_lines env mgi pkt et tau_rnd abort_dist nca kc s'). lineindex + 1 \<le> x"
            by simp_all
          show ?thesis unfolding eq using ih ge by auto
        qed
      qed
    qed
  qed
qed

text \<open>
  Claim C2.  In one call of \<^verbatim>\<open>get_event\<close> that returns, on a packet whose \<open>next_trans\<close>
  is at most the sentinel \<open>nlines + 1\<close>: the line indices examined by the successive calls
  of \<^verbatim>\<open>closest_transition\<close> are strictly increasing; the packet's \<open>next_trans\<close> at the
  return is the shadow packet's; and it is not smaller than the packet's \<open>next_trans\<close> at
  entry.
\<close>

theorem get_event_next_trans_monotone:
  assumes "get_event env g mgi pkt et tau_rnd abort_dist = Inr r"
      and "next_trans pkt \<le> nlines (linelist (glob env)) + 1"
  shows "sorted_wrt (<) (get_event_examined env g mgi pkt et tau_rnd abort_dist)
       \<and> next_trans (res_pkt r) = next_trans (res_dummypkt r)
       \<and> next_trans pkt \<le> next_trans (res_pkt r)"
proof -
  have a: "sorted_wrt (<) (get_event_examined env g mgi pkt et tau_rnd abort_dist)"
    unfolding get_event_examined_def using get_event_lines_sorted
    by (simp split: sum.splits)
  from assms(1) obtain g1 where
    l: "get_event_loop env mgi pkt et tau_rnd abort_dist (get_event_nu_cmf_abort env pkt abort_dist)
          (total (kappa_rpkt_cont g1) * doppler_packet_nucmf_on_nurf env pkt)
          \<lparr>ge_tau = 0, ge_dist = 0, ge_dummypkt = pkt, ge_g = g1\<rparr> = Inr r"
    unfolding get_event_def by (auto simp: Let_def split: sum.splits if_splits)
  from get_event_loop_next_trans[OF l] assms(2) a show ?thesis by simp
qed

theorem get_event_next_trans_monotone_witness:
  "next_trans (ex_pkt 0 400000000000000 0) \<le> nlines (linelist (glob ex_env)) + 1
   \<and> get_event_examined ex_env ex_g 0 (ex_pkt 0 400000000000000 0) (- 1) 100 (10 ^ 13) = [1, 2]
   \<and> sorted_wrt (<) (get_event_examined ex_env ex_g 0 (ex_pkt 0 400000000000000 0) (- 1) 100 (10 ^ 13))
   \<and> map_sum id (\<lambda>r. (next_trans (res_pkt r), next_trans (res_dummypkt r)))
        (get_event ex_env ex_g 0 (ex_pkt 0 400000000000000 0) (- 1) 100 (10 ^ 13)) = Inr (3, 3)"
proof -
  let ?P = "ex_pkt 0 400000000000000 0"
  have h: "next_trans ?P \<le> nlines (linelist (glob ex_env)) + 1"
    by (simp add: ex_defs nlines_def)
  have e: "map_sum id (\<lambda>r. (next_trans (res_pkt r), next_trans (res_dummypkt r)))
        (get_event ex_env ex_g 0 ?P (- 1) 100 (10 ^ 13)) = Inr (3, 3)"
    by (simp add: ex_defs kappa_defs search_defs move_defs event_defs get_event_def
          get_event_loop.simps Let_def)
  then obtain r where r: "get_event ex_env ex_g 0 ?P (- 1) 100 (10 ^ 13) = Inr r"
    by (cases "get_event ex_env ex_g 0 ?P (- 1) 100 (10 ^ 13)") auto
  have x: "get_event_examined ex_env ex_g 0 ?P (- 1) 100 (10 ^ 13) = [1, 2]"
    by (simp add: ex_defs kappa_defs search_defs move_defs event_defs get_event_examined_def
          get_event_lines.simps Let_def)
  from get_event_next_trans_monotone[OF r h] h e x show ?thesis by simp
qed


section \<open>The dispatch of the stepper\<close>

lemma lower_bound_error: "lower_bound ll first len v = Inl e \<Longrightarrow> e = OutOfRange"
proof (induction ll first len v rule: lower_bound.induct)
  case (1 ll first len v)
  show ?case
  proof (cases "0 < len")
    case False
    with 1(3) show ?thesis by (simp add: lower_bound.simps)
  next
    case True
    show ?thesis
    proof (cases "linelist_at ll (first + len div 2)")
      case (Inl e')
      with 1(3) True have "e = e'" by (subst (asm) lower_bound.simps) simp
      with Inl show ?thesis by (auto simp: linelist_at_def split: if_splits)
    next
      case (Inr line)
      show ?thesis
      proof (cases "line_less line v")
        case less: True
        from 1(3) True Inr less
        have "lower_bound ll (first + len div 2 + 1) (len - len div 2 - 1) v = Inl e"
          by (subst (asm) lower_bound.simps) simp
        from 1(1)[OF True Inr less this] show ?thesis .
      next
        case nless: False
        from 1(3) True Inr nless have "lower_bound ll first (len div 2) v = Inl e"
          by (subst (asm) lower_bound.simps) simp
        from 1(2)[OF True Inr nless this] show ?thesis .
      qed
    qed
  qed
qed

lemma linelist_at_error: "linelist_at ll i = Inl e \<Longrightarrow> e = OutOfRange"
  by (auto simp: linelist_at_def split: if_splits)

lemma closest_transition_empty_error:
  "closest_transition_empty env p = Inl e \<Longrightarrow> e = OutOfRange"
  unfolding closest_transition_empty_def
  by (auto simp: Let_def split: sum.splits if_splits dest: linelist_at_error lower_bound_error)

lemma emitt_rpkt_error: "emitt_rpkt env g p = Inl e \<Longrightarrow> e = Assert_unitvec"
  unfolding emitt_rpkt_def
  by (auto simp: Let_def split: sum.splits if_splits prod.splits)

lemma rpkt_event_thickcell_error: "rpkt_event_thickcell env g p = Inl e \<Longrightarrow> e = Assert_unitvec"
  unfolding rpkt_event_thickcell_def
  by (auto simp: Let_def split: sum.splits prod.splits dest: emitt_rpkt_error)

lemma rpkt_event_boundbound_error: "rpkt_event_boundbound env g p mgi = Inl e \<Longrightarrow> e = OutOfRange"
  unfolding rpkt_event_boundbound_def
  by (auto simp: Let_def split: sum.splits if_splits dest: linelist_at_error)

lemma allcont_at_error: "allcont_at env i = Inl e \<Longrightarrow> e = OutOfRange"
  by (auto simp: allcont_at_def split: if_splits)

lemma rpkt_event_continuum_error:
  "rpkt_event_continuum env g p k mgi = Inl e \<Longrightarrow>
   e \<in> {Assert_unitvec, OutOfRange, Assert_kappa_bf_sum, Assert_allcontindex, Abort_continuum_process}"
  unfolding rpkt_event_continuum_def escat_rpkt_def
  by (auto simp: Let_def split: sum.splits if_splits prod.splits
           dest: emitt_rpkt_error allcont_at_error)

lemma update_estimators_loop_error:
  "update_estimators_loop env mgi de v is g = Inl e \<Longrightarrow>
   e \<in> {OutOfRange, Abort_gammaestimator_nonfinite}"
proof (induction "is" arbitrary: g)
  case Nil
  then show ?case by simp
next
  case (Cons i rest)
  from Cons.prems show ?case
    by (auto simp: Let_def groundcont_at_def split: sum.splits if_splits dest: Cons.IH)
qed

lemma update_estimators_error:
  "update_estimators env g p dst = Inl e \<Longrightarrow> e \<in> {OutOfRange, Abort_gammaestimator_nonfinite}"
  unfolding update_estimators_def
  by (auto simp: Let_def split: if_splits dest: update_estimators_loop_error)

lemma move_and_estimate_error:
  "move_and_estimate env g p dst = Inl e \<Longrightarrow> e \<in> {OutOfRange, Abort_gammaestimator_nonfinite}"
  unfolding move_and_estimate_def
  by (auto simp: Let_def split: sum.splits dest: update_estimators_error)

lemma rpkt_boundary_branch_error:
  "rpkt_boundary_branch env oldmgi d = Inl e \<Longrightarrow>
   e \<in> {OutOfRange, Abort_gammaestimator_nonfinite}"
  unfolding rpkt_boundary_branch_def
  by (auto simp: Let_def split: sum.splits if_splits prod.splits
           dest: closest_transition_empty_error move_and_estimate_error)

lemma rpkt_time_branch_error:
  "rpkt_time_branch env t2 d = Inl e \<Longrightarrow>
   e \<in> {OutOfRange, Abort_gammaestimator_nonfinite}"
  unfolding rpkt_time_branch_def
  by (auto simp: Let_def split: sum.splits if_splits prod.splits
           dest: closest_transition_empty_error move_and_estimate_error)

lemma rpkt_event_branch_error:
  "rpkt_event_branch env oldmgi d = Inl e \<Longrightarrow>
   e \<in> {Assert_unitvec, OutOfRange, Assert_kappa_bf_sum, Assert_allcontindex,
        Abort_continuum_process, Assert_false, Abort_gammaestimator_nonfinite}"
  unfolding rpkt_event_branch_def
  by (auto simp: Let_def split: sum.splits if_splits prod.splits
           dest: rpkt_event_thickcell_error rpkt_event_boundbound_error
                 rpkt_event_continuum_error move_and_estimate_error)

lemma do_rpkt_step_dispatch_eq:
  assumes "boundary_cross (kin env) pkt = (sdist0, snext0, lc)"
      and "sdist0 \<noteq> 0"
      and "rpkt_step_distances env (g\<lparr>rng := rng g + 1\<rparr>) (pkt\<lparr>last_cross := lc\<rparr>) t2
             (- 1 * ln (gsl_rng_uniform_pos (kin env) (rng g))) sdist0 snext0
             (get_cell_modelgridindex (grd env) (pkt_where pkt)) = Inr d"
  shows "do_rpkt_step env g pkt t2
         = rpkt_step_dispatch env t2 (get_cell_modelgridindex (grd env) (pkt_where pkt)) d"
  using assms by (simp add: do_rpkt_step_def Let_def)

text \<open>
  Claim C4.  Once \<^verbatim>\<open>do_rpkt_step\<close> has its three distances (\<^verbatim>\<open>boundary_cross\<close> gave a
  non-zero distance and no check before the comparison failed), it runs the boundary
  branch when \<open>sdist\<close> is the strictly smallest, the event branch when \<open>edist\<close> is, the
  time branch when \<open>tdist\<close> is; and it aborts with "Failed to identify event" exactly
  when none of the three is strictly smallest.
\<close>

theorem do_rpkt_step_dispatch:
  assumes "boundary_cross (kin env) pkt = (sdist0, snext0, lc)"
      and "sdist0 \<noteq> 0"
      and "rpkt_step_distances env (g\<lparr>rng := rng g + 1\<rparr>) (pkt\<lparr>last_cross := lc\<rparr>) t2
             (- 1 * ln (gsl_rng_uniform_pos (kin env) (rng g))) sdist0 snext0
             (get_cell_modelgridindex (grd env) (pkt_where pkt)) = Inr d"
  shows "(sd_sdist d < sd_tdist d \<and> sd_sdist d < sd_edist d \<longrightarrow>
            do_rpkt_step env g pkt t2
            = rpkt_boundary_branch env (get_cell_modelgridindex (grd env) (pkt_where pkt)) d)
       \<and> (sd_edist d < sd_sdist d \<and> sd_edist d < sd_tdist d \<longrightarrow>
            do_rpkt_step env g pkt t2
            = rpkt_event_branch env (get_cell_modelgridindex (grd env) (pkt_where pkt)) d)
       \<and> (sd_tdist d < sd_sdist d \<and> sd_tdist d < sd_edist d \<longrightarrow>
            do_rpkt_step env g pkt t2 = rpkt_time_branch env t2 d)
       \<and> (do_rpkt_step env g pkt t2 = Inl Abort_failed_to_identify_event \<longleftrightarrow>
            \<not> (sd_sdist d < sd_tdist d \<and> sd_sdist d < sd_edist d)
            \<and> \<not> (sd_edist d < sd_sdist d \<and> sd_edist d < sd_tdist d)
            \<and> \<not> (sd_tdist d < sd_sdist d \<and> sd_tdist d < sd_edist d))"
proof -
  let ?old = "get_cell_modelgridindex (grd env) (pkt_where pkt)"
  note eq = do_rpkt_step_dispatch_eq[OF assms]
  have b: "rpkt_boundary_branch env ?old d \<noteq> Inl Abort_failed_to_identify_event"
    using rpkt_boundary_branch_error[of env ?old d Abort_failed_to_identify_event] by auto
  have e: "rpkt_event_branch env ?old d \<noteq> Inl Abort_failed_to_identify_event"
    using rpkt_event_branch_error[of env ?old d Abort_failed_to_identify_event] by auto
  have t: "rpkt_time_branch env t2 d \<noteq> Inl Abort_failed_to_identify_event"
    using rpkt_time_branch_error[of env t2 d Abort_failed_to_identify_event] by auto
  show ?thesis unfolding eq rpkt_step_dispatch_def using b e t by auto
qed

theorem do_rpkt_step_dispatch_witness:
  "boundary_cross (kin ex_env) (ex_pkt 21 400000000000000 0) = (1000000000, 20, NEG_X)
   \<and> (1000000000 :: real) \<noteq> 0
   \<and> rpkt_step_distances ex_env (ex_g\<lparr>rng := rng ex_g + 1\<rparr>)
         ((ex_pkt 21 400000000000000 0)\<lparr>last_cross := NEG_X\<rparr>) 2
         (- 1 * ln (gsl_rng_uniform_pos (kin ex_env) (rng ex_g))) 1000000000 20
         (get_cell_modelgridindex (grd ex_env) (pkt_where (ex_pkt 21 400000000000000 0)))
       = Inr \<lparr>sd_sdist = 1000000000, sd_snext = 20, sd_tdist = 29979245800, sd_edist = DBL_MAX,
               sd_eventtype = - 1, sd_find_nextline = True,
               sd_pkt = (ex_pkt 21 400000000000000 0)\<lparr>last_cross := NEG_X\<rparr>,
               sd_g = ex_g\<lparr>rng := rng ex_g + 1\<rparr>, sd_mgi = 10\<rparr>
   \<and> do_rpkt_step ex_env ex_g (ex_pkt 21 400000000000000 0) 2
       = rpkt_boundary_branch ex_env 10
           \<lparr>sd_sdist = 1000000000, sd_snext = 20, sd_tdist = 29979245800, sd_edist = DBL_MAX,
            sd_eventtype = - 1, sd_find_nextline = True,
            sd_pkt = (ex_pkt 21 400000000000000 0)\<lparr>last_cross := NEG_X\<rparr>,
            sd_g = ex_g\<lparr>rng := rng ex_g + 1\<rparr>, sd_mgi = 10\<rparr>
   \<and> do_rpkt_step ex_env ex_g (ex_pkt 21 400000000000000 0) 2 \<noteq> Inl Abort_failed_to_identify_event"
proof -
  let ?P = "ex_pkt 21 400000000000000 0"
  let ?D = "\<lparr>sd_sdist = 1000000000, sd_snext = 20, sd_tdist = 29979245800, sd_edist = DBL_MAX,
            sd_eventtype = - 1, sd_find_nextline = True,
            sd_pkt = ?P\<lparr>last_cross := NEG_X\<rparr>,
            sd_g = ex_g\<lparr>rng := rng ex_g + 1\<rparr>, sd_mgi = 10\<rparr>"
  have bc: "boundary_cross (kin ex_env) ?P = (1000000000, 20, NEG_X)"
    by (simp add: ex_defs)
  have nz: "(1000000000 :: real) \<noteq> 0" by simp
  have d: "rpkt_step_distances ex_env (ex_g\<lparr>rng := rng ex_g + 1\<rparr>) (?P\<lparr>last_cross := NEG_X\<rparr>) 2
         (- 1 * ln (gsl_rng_uniform_pos (kin ex_env) (rng ex_g))) 1000000000 20
         (get_cell_modelgridindex (grd ex_env) (pkt_where ?P)) = Inr ?D"
    by (simp add: ex_defs rpkt_step_distances_def Let_def DBL_MAX_def)
  have w: "sd_sdist ?D < sd_tdist ?D \<and> sd_sdist ?D < sd_edist ?D"
    by (simp add: DBL_MAX_def)
  have m: "get_cell_modelgridindex (grd ex_env) (pkt_where ?P) = 10" by (simp add: ex_defs)
  from do_rpkt_step_dispatch[OF bc nz d] w
  have e1: "do_rpkt_step ex_env ex_g ?P 2
            = rpkt_boundary_branch ex_env (get_cell_modelgridindex (grd ex_env) (pkt_where ?P)) ?D"
    and e2: "do_rpkt_step ex_env ex_g ?P 2 \<noteq> Inl Abort_failed_to_identify_event"
    by blast+
  from bc nz d e1[unfolded m] e2 show ?thesis by blast
qed


section \<open>Re-seating the line index after a boundary\<close>

lemma move_pkt_withtime_pkt_where [simp]:
  "pkt_where (move_pkt_withtime env p d) = pkt_where p"
  by (simp add: move_pkt_withtime_def move_pkt_def Let_def)

lemma lower_bound_total:
  "0 \<le> first \<Longrightarrow> first + len \<le> nlines ll \<Longrightarrow> \<exists>r. lower_bound ll first len v = Inr r"
proof (induction ll first len v rule: lower_bound.induct)
  case (1 ll first len v)
  show ?case
  proof (cases "0 < len")
    case False
    then show ?thesis by (subst lower_bound.simps) simp
  next
    case True
    let ?mid = "first + len div 2"
    from True have h: "0 \<le> len div 2" "len div 2 < len" by simp_all
    with 1(3,4) have at: "linelist_at ll ?mid = Inr (ll ! nat ?mid)"
      by (simp add: linelist_at_def)
    show ?thesis
    proof (cases "line_less (ll ! nat ?mid) v")
      case less: True
      have e: "lower_bound ll first len v = lower_bound ll (?mid + 1) (len - len div 2 - 1) v"
        using True at less by (subst lower_bound.simps) simp
      have "0 \<le> ?mid + 1" "?mid + 1 + (len - len div 2 - 1) \<le> nlines ll"
        using 1(3,4) h by simp_all
      from 1(1)[OF True at less this] show ?thesis unfolding e .
    next
      case nless: False
      have e: "lower_bound ll first len v = lower_bound ll first (len div 2) v"
        using True at nless by (subst lower_bound.simps) simp
      have "first + len div 2 \<le> nlines ll" using 1(4) h by simp
      from 1(2)[OF True at nless 1(3) this] show ?thesis unfolding e .
    qed
  qed
qed

lemma lower_bound_empty_range: "len \<le> 0 \<Longrightarrow> lower_bound ll first len v = Inr first"
  by (subst lower_bound.simps) simp

lemma closest_transition_empty_fields:
  "closest_transition_empty env p = Inr p' \<Longrightarrow> p' = p\<lparr>next_trans := next_trans p'\<rparr>"
  unfolding closest_transition_empty_def
  by (auto simp: Let_def split: sum.splits if_splits)

lemma closest_transition_empty_returns:
  assumes ne: "linelist (glob env) \<noteq> []" and k: "0 \<le> next_trans p"
  shows "\<exists>p'. closest_transition_empty env p = Inr p'"
proof -
  let ?ll = "linelist (glob env)"
  let ?n = "nlines ?ll"
  have n: "0 < ?n" using ne by (simp add: nlines_def)
  have lastat: "linelist_at ?ll (?n - 1) = Inr (last ?ll)" using ne by (rule nlines_last)
  let ?p1 = "(if nu_cmf p < nu (last ?ll) then p\<lparr>next_trans := ?n + 1\<rparr> else p)"
  let ?p2 = "(if next_trans p > ?n - 1 then ?p1\<lparr>next_trans := ?n + 1\<rparr> else ?p1)"
  have "next_trans ?p2 = next_trans p \<or> next_trans ?p2 = ?n + 1" by simp
  then have "\<exists>r. lower_bound ?ll (next_trans ?p2) (?n - next_trans ?p2) (nu_cmf ?p2) = Inr r"
  proof
    assume e: "next_trans ?p2 = next_trans p"
    show ?thesis unfolding e using k by (intro lower_bound_total) simp_all
  next
    assume e: "next_trans ?p2 = ?n + 1"
    show ?thesis unfolding e by (simp add: lower_bound_empty_range)
  qed
  then obtain r where r: "lower_bound ?ll (next_trans ?p2) (?n - next_trans ?p2) (nu_cmf ?p2) = Inr r"
    by blast
  show ?thesis
    unfolding closest_transition_empty_def Let_def lastat sum.case r
    by (cases "nu_cmf ?p2 \<ge> linelist_nu_unchecked env (next_trans p)") simp_all
qed

lemma closest_transition_empty_search:
  assumes s: "sorted_desc (linelist (glob env))"
    and r: "closest_transition_empty env p = Inr p'"
    and lo: "0 \<le> next_trans p" and hi: "next_trans p < nlines (linelist (glob env))"
    and v: "nu (last (linelist (glob env))) \<le> nu_cmf p"
  shows "lower_bound (linelist (glob env)) (next_trans p)
            (nlines (linelist (glob env)) - next_trans p) (nu_cmf p) = Inr (next_trans p')"
    and "next_trans p \<le> next_trans p'" and "next_trans p' < nlines (linelist (glob env))"
    and "nu (linelist (glob env) ! nat (next_trans p')) \<le> nu_cmf p"
    and "\<forall>j. next_trans p \<le> j \<and> j < next_trans p' \<longrightarrow> nu_cmf p < nu (linelist (glob env) ! nat j)"
proof -
  let ?ll = "linelist (glob env)"
  let ?n = "nlines ?ll"
  let ?k = "next_trans p"
  let ?v = "nu_cmf p"
  from lo hi have ne: "?ll \<noteq> []" by (auto simp: nlines_def)
  have lastat: "linelist_at ?ll (?n - 1) = Inr (last ?ll)" using ne by (rule nlines_last)
  have lastnth: "last ?ll = ?ll ! nat (?n - 1)"
    using ne by (simp add: nlines_def last_conv_nth nat_diff_distrib')
  obtain q where q: "lower_bound ?ll ?k (?n - ?k) ?v = Inr q" "?k \<le> q" "q \<le> ?n"
     "\<forall>i. ?k \<le> i \<and> i < q \<longrightarrow> ?v < nu (?ll ! nat i)"
     "\<forall>i. q \<le> i \<and> i < ?n \<longrightarrow> nu (?ll ! nat i) \<le> ?v"
    using lower_bound_partition[OF s lo, of "?n - ?k" ?v] hi by auto
  have qn: "q < ?n"
  proof (rule ccontr)
    assume "\<not> q < ?n"
    with q(3) have "q = ?n" by simp
    with q(4) lo hi have "?v < nu (?ll ! nat (?n - 1))" by simp
    with v lastnth show False by simp
  qed
  have un: "linelist_nu_unchecked env ?k = nu (?ll ! nat ?k)"
    using lo hi by (simp add: linelist_nu_unchecked_def)
  have e: "closest_transition_empty env p =
           (if ?v \<ge> nu (?ll ! nat ?k) then Inr (p\<lparr>next_trans := ?k\<rparr>)
            else Inr (p\<lparr>next_trans := q\<rparr>))"
    unfolding closest_transition_empty_def Let_def lastat sum.case un
    using v hi q(1) by simp
  have nq: "next_trans p' = q"
  proof (cases "?v \<ge> nu (?ll ! nat ?k)")
    case True
    with e r have a: "next_trans p' = ?k" by auto
    have "q = ?k"
    proof (rule ccontr)
      assume "q \<noteq> ?k"
      with q(2) have "?k < q" by simp
      with q(4) have "?v < nu (?ll ! nat ?k)" by simp
      with True show False by simp
    qed
    with a show ?thesis by simp
  next
    case False
    with e r show ?thesis by auto
  qed
  show "lower_bound ?ll ?k (?n - ?k) ?v = Inr (next_trans p')" using q(1) nq by simp
  show "?k \<le> next_trans p'" using q(2) nq by simp
  show "next_trans p' < ?n" using qn nq by simp
  show "nu (?ll ! nat (next_trans p')) \<le> ?v" using q(5) qn nq by simp
  show "\<forall>j. ?k \<le> j \<and> j < next_trans p' \<longrightarrow> ?v < nu (?ll ! nat j)" using q(4) nq by simp
qed

lemma closest_transition_empty_below:
  assumes s: "sorted_desc (linelist (glob env))"
    and r: "closest_transition_empty env p = Inr p'"
    and lo: "0 \<le> next_trans p" and hi: "next_trans p < nlines (linelist (glob env))"
    and v: "nu_cmf p < nu (last (linelist (glob env)))"
  shows "next_trans p' = nlines (linelist (glob env)) + 1"
proof -
  let ?ll = "linelist (glob env)"
  let ?n = "nlines ?ll"
  let ?k = "next_trans p"
  from lo hi have ne: "?ll \<noteq> []" by (auto simp: nlines_def)
  have lastat: "linelist_at ?ll (?n - 1) = Inr (last ?ll)" using ne by (rule nlines_last)
  have lastnth: "last ?ll = ?ll ! nat (?n - 1)"
    using ne by (simp add: nlines_def last_conv_nth nat_diff_distrib')
  have "nu (?ll ! nat (?n - 1)) \<le> nu (?ll ! nat ?k)"
    using sorted_desc_nth[OF s lo, of "?n - 1"] hi by simp
  with v lastnth have lt: "nu_cmf p < nu (?ll ! nat ?k)" by simp
  have un: "linelist_nu_unchecked env ?k = nu (?ll ! nat ?k)"
    using lo hi by (simp add: linelist_nu_unchecked_def)
  have "closest_transition_empty env p = Inr (p\<lparr>next_trans := ?n + 1\<rparr>)"
    unfolding closest_transition_empty_def Let_def lastat sum.case un
    using v hi lt by (simp add: lower_bound_empty_range)
  with r show ?thesis by auto
qed

lemma closest_transition_empty_past:
  assumes r: "closest_transition_empty env p = Inr p'"
    and hi: "nlines (linelist (glob env)) \<le> next_trans p"
  shows "next_trans p' = (if linelist_overread (glob env) (next_trans p) \<le> nu_cmf p
                          then next_trans p else nlines (linelist (glob env)) + 1)"
proof -
  have un: "linelist_nu_unchecked env (next_trans p) = linelist_overread (glob env) (next_trans p)"
    using hi by (simp add: linelist_nu_unchecked_def)
  from r show ?thesis
    unfolding closest_transition_empty_def Let_def un
    using hi by (auto simp: lower_bound_empty_range split: sum.splits if_splits)
qed

lemma get_event_iter_Return_where:
  "get_event_iter env mgi pkt et tau_rnd abort_dist nca kc s = Inr (Return r) \<Longrightarrow>
   pkt_where (res_pkt r) = pkt_where pkt"
  unfolding get_event_iter_def
  by (auto simp: Let_def split: sum.splits if_splits)

lemma get_event_loop_where:
  "get_event_loop env mgi pkt et tau_rnd abort_dist nca kc s = Inr r \<Longrightarrow>
   pkt_where (res_pkt r) = pkt_where pkt"
proof (induction env mgi pkt et tau_rnd abort_dist nca kc s rule: get_event_loop.induct)
  case (1 env mgi pkt et tau_rnd abort_dist nca kc s)
  show ?case
  proof (cases "get_event_iter env mgi pkt et tau_rnd abort_dist nca kc s")
    case (Inl e)
    from get_event_loop_error[OF this] 1(2) show ?thesis by simp
  next
    case (Inr st)
    show ?thesis
    proof (cases st)
      case (Return r')
      with Inr have it: "get_event_iter env mgi pkt et tau_rnd abort_dist nca kc s = Inr (Return r')"
        by simp
      from get_event_loop_Return[OF it] 1(2) have "r' = r" by simp
      with get_event_iter_Return_where[OF it] show ?thesis by simp
    next
      case (Continue s')
      with Inr have it: "get_event_iter env mgi pkt et tau_rnd abort_dist nca kc s = Inr (Continue s')"
        by simp
      from get_event_loop_Continue[OF it] 1(2)
      have "get_event_loop env mgi pkt et tau_rnd abort_dist nca kc s' = Inr r" by simp
      from 1(1)[OF Inr Continue this] show ?thesis .
    qed
  qed
qed

lemma get_event_where:
  "get_event env g mgi pkt et tau_rnd abort_dist = Inr r \<Longrightarrow> pkt_where (res_pkt r) = pkt_where pkt"
  unfolding get_event_def
  by (auto simp: Let_def split: sum.splits if_splits dest: get_event_loop_where)

lemma rpkt_step_distances_facts:
  assumes "rpkt_step_distances env g pkt t2 tau_next sdist0 snext0 mgi = Inr d"
  shows "sd_mgi d = mgi"
    and "sd_find_nextline d \<longleftrightarrow> (mgi = get_npts_model (grd env) \<or> thick (grd env) mgi = 1)"
    and "pkt_where (sd_pkt d) = pkt_where pkt"
    and "mgi = get_npts_model (grd env) \<or> thick (grd env) mgi = 1 \<Longrightarrow> sd_pkt d = pkt"
  using assms unfolding rpkt_step_distances_def
  by (auto simp: Let_def split: sum.splits if_splits prod.splits dest: get_event_where)

lemma change_cell_facts:
  assumes "change_cell g p snext = (p', g')"
  shows "\<exists>ev. trace g' = trace g @ [Change_cell snext, ev] \<and> ev \<noteq> Closest_transition_empty"
    and "pkt_where p' = (if snext = - 99 then pkt_where p else snext)"
    and "next_trans p' = next_trans p" and "nu_cmf p' = nu_cmf p"
  using assms unfolding change_cell_def by (auto split: if_splits)

lemma update_estimators_loop_facts:
  "update_estimators_loop env mgi de v is g = Inr g' \<Longrightarrow>
   trace g' = trace g \<and> kappa_rpkt_cont g' = kappa_rpkt_cont g
   \<and> phixslist_kappa_bf_sum g' = phixslist_kappa_bf_sum g \<and> rng g' = rng g"
proof (induction "is" arbitrary: g)
  case Nil
  then show ?case by simp
next
  case (Cons i rest)
  from Cons.prems show ?case
    by (auto simp: Let_def split: sum.splits if_splits dest!: Cons.IH)
qed

lemma update_estimators_facts:
  assumes "update_estimators env g p dst = Inr g'"
  shows "\<exists>evs. trace g' = trace g @ evs \<and> Closest_transition_empty \<notin> set evs"
    and "kappa_rpkt_cont g' = kappa_rpkt_cont g"
    and "phixslist_kappa_bf_sum g' = phixslist_kappa_bf_sum g"
    and "rng g' = rng g"
  using assms unfolding update_estimators_def
  by (auto simp: Let_def split: if_splits dest!: update_estimators_loop_facts)

lemma move_and_estimate_facts:
  assumes "move_and_estimate env g p dst = Inr (p', g')"
  shows "\<exists>evs. trace g' = trace g @ evs \<and> Closest_transition_empty \<notin> set evs"
    and "p' = move_pkt_withtime env p (dst / 2)"
    and "kappa_rpkt_cont g' = kappa_rpkt_cont g"
    and "phixslist_kappa_bf_sum g' = phixslist_kappa_bf_sum g"
    and "rng g' = rng g"
proof -
  let ?g0 = "g\<lparr>trace := trace g @ [Update_estimators dst]\<rparr>"
  let ?p1 = "move_pkt_withtime env p (dst / 2)"
  from assms obtain g1 where u: "update_estimators env ?g0 ?p1 dst = Inr g1"
    and p: "p' = ?p1"
    and g: "g' = (if do_rlc_est (glob env) \<noteq> 0 \<and> do_rlc_est (glob env) \<noteq> 3
                  then g1\<lparr>trace := trace g1 @ [Rlc_emiss_rpkt dst]\<rparr> else g1)"
    unfolding move_and_estimate_def Let_def by (auto split: sum.splits)
  from update_estimators_facts[OF u] obtain evs where
    t: "trace g1 = trace ?g0 @ evs" "Closest_transition_empty \<notin> set evs"
    and k: "kappa_rpkt_cont g1 = kappa_rpkt_cont g" "phixslist_kappa_bf_sum g1 = phixslist_kappa_bf_sum g"
      "rng g1 = rng g"
    by auto
  show "p' = ?p1" by (rule p)
  show "kappa_rpkt_cont g' = kappa_rpkt_cont g" using g k by simp
  show "phixslist_kappa_bf_sum g' = phixslist_kappa_bf_sum g" using g k by simp
  show "rng g' = rng g" using g k by simp
  show "\<exists>evs. trace g' = trace g @ evs \<and> Closest_transition_empty \<notin> set evs"
  proof (cases "do_rlc_est (glob env) \<noteq> 0 \<and> do_rlc_est (glob env) \<noteq> 3")
    case True
    with g t have "trace g' = trace g @ (Update_estimators dst # evs @ [Rlc_emiss_rpkt dst])" by simp
    moreover have "Closest_transition_empty \<notin> set (Update_estimators dst # evs @ [Rlc_emiss_rpkt dst])"
      using t(2) by simp
    ultimately show ?thesis by blast
  next
    case False
    with g t have "trace g' = trace g @ (Update_estimators dst # evs)" by simp
    moreover have "Closest_transition_empty \<notin> set (Update_estimators dst # evs)"
      using t(2) by simp
    ultimately show ?thesis by blast
  qed
qed

lemma rpkt_boundary_branch_cases:
  assumes r: "rpkt_boundary_branch env oldmgi d = Inr (b, p', g')"
      and m: "sd_mgi d = get_cell_modelgridindex (grd env) (pkt_where (sd_pkt d))"
  shows "\<exists>p4 evs. next_trans p4 = next_trans (sd_pkt d) \<and> pkt_where p4 = pkt_where p'
           \<and> Closest_transition_empty \<notin> set evs
           \<and> (if sd_find_nextline d
                  \<and> get_cell_modelgridindex (grd env) (pkt_where p') \<noteq> get_npts_model (grd env)
                  \<and> thick (grd env) (get_cell_modelgridindex (grd env) (pkt_where p')) \<noteq> 1
               then closest_transition_empty env p4 = Inr p'
                    \<and> trace g' = trace (sd_g d) @ evs @ [Closest_transition_empty]
               else p' = p4 \<and> trace g' = trace (sd_g d) @ evs)"
proof -
  from r obtain pkt1 g1 where me: "move_and_estimate env (sd_g d) (sd_pkt d) (sd_sdist d) = Inr (pkt1, g1)"
    unfolding rpkt_boundary_branch_def by (auto split: sum.splits)
  from move_and_estimate_facts[OF me] obtain evs1 where
    t1: "trace g1 = trace (sd_g d) @ evs1" "Closest_transition_empty \<notin> set evs1"
    and p1: "pkt1 = move_pkt_withtime env (sd_pkt d) (sd_sdist d / 2)" by auto
  have w1: "pkt_where pkt1 = pkt_where (sd_pkt d)" and n1: "next_trans pkt1 = next_trans (sd_pkt d)"
    unfolding p1 by simp_all
  let ?pkt2 = "move_pkt_withtime env pkt1 (sd_sdist d / 2)"
  obtain pkt3 g2 where cc: "(if sd_snext d \<noteq> pkt_where (sd_pkt d)
                             then change_cell g1 ?pkt2 (sd_snext d) else (?pkt2, g1)) = (pkt3, g2)"
    by (cases "(if sd_snext d \<noteq> pkt_where (sd_pkt d)
                then change_cell g1 ?pkt2 (sd_snext d) else (?pkt2, g1))") auto
  have "(\<exists>evs2. trace g2 = trace g1 @ evs2 \<and> Closest_transition_empty \<notin> set evs2)
        \<and> next_trans pkt3 = next_trans (sd_pkt d)"
  proof (cases "sd_snext d \<noteq> pkt_where (sd_pkt d)")
    case True
    with cc have c: "change_cell g1 ?pkt2 (sd_snext d) = (pkt3, g2)" by simp
    from change_cell_facts(1)[OF c] change_cell_facts(3)[OF c] n1 show ?thesis by auto
  next
    case False
    with cc n1 show ?thesis by auto
  qed
  then obtain evs2 where t2: "trace g2 = trace g1 @ evs2" "Closest_transition_empty \<notin> set evs2"
    and n3: "next_trans pkt3 = next_trans (sd_pkt d)"
    by blast
  let ?mgi = "get_cell_modelgridindex (grd env) (pkt_where pkt3)"
  have mg: "(if sd_snext d \<noteq> pkt_where (sd_pkt d)
             then get_cell_modelgridindex (grd env) (pkt_where pkt3) else sd_mgi d) = ?mgi"
  proof (cases "sd_snext d \<noteq> pkt_where (sd_pkt d)")
    case True then show ?thesis by simp
  next
    case False
    with cc have "pkt3 = ?pkt2" by simp
    with False m w1 show ?thesis by simp
  qed
  let ?pkt4 = "pkt3\<lparr>scat_count := 0, last_event := last_event pkt3 + 100\<rparr>"
  let ?c = "sd_find_nextline d \<and> ?mgi \<noteq> get_npts_model (grd env) \<and> thick (grd env) ?mgi \<noteq> 1"
  have br: "rpkt_boundary_branch env oldmgi d =
          (case (if ?c then (case closest_transition_empty env ?pkt4 of
                              Inl e \<Rightarrow> Inl e
                            | Inr pkt5 \<Rightarrow>
                                Inr (pkt5, g2\<lparr>trace := trace g2 @ [Closest_transition_empty]\<rparr>))
                 else Inr (?pkt4, g2)) of
             Inl e \<Rightarrow> Inl e
           | Inr (pkt6, g3) \<Rightarrow>
               Inr (pkt_type pkt6 = TYPE_RPKT \<and> (?mgi = get_npts_model (grd env) \<or> ?mgi = oldmgi),
                    pkt6, g3))"
    unfolding rpkt_boundary_branch_def Let_def me sum.case prod.case
      move_pkt_withtime_pkt_where w1 cc mg ..
  have n4: "next_trans ?pkt4 = next_trans (sd_pkt d)" using n3 by simp
  show ?thesis
  proof (cases ?c)
    case True
    with r br obtain pkt5 where e: "closest_transition_empty env ?pkt4 = Inr pkt5"
      and p: "p' = pkt5" and g: "g' = g2\<lparr>trace := trace g2 @ [Closest_transition_empty]\<rparr>"
      by (cases "closest_transition_empty env ?pkt4") auto
    from arg_cong[OF closest_transition_empty_fields[OF e], of pkt_where] p
    have w: "pkt_where p' = pkt_where pkt3" by simp
    have tr: "trace g' = trace (sd_g d) @ (evs1 @ evs2) @ [Closest_transition_empty]"
      using g t1 t2 by simp
    have ns: "Closest_transition_empty \<notin> set (evs1 @ evs2)" using t1(2) t2(2) by simp
    from True w have c': "sd_find_nextline d
                  \<and> get_cell_modelgridindex (grd env) (pkt_where p') \<noteq> get_npts_model (grd env)
                  \<and> thick (grd env) (get_cell_modelgridindex (grd env) (pkt_where p')) \<noteq> 1"
      by simp
    have w4: "pkt_where ?pkt4 = pkt_where p'" using w by simp
    from n4 w4 ns c' e p tr show ?thesis
      by (intro exI[of _ ?pkt4] exI[of _ "evs1 @ evs2"]) simp
  next
    case False
    with r br have p: "p' = ?pkt4" and g: "g' = g2" by auto
    have w: "pkt_where p' = pkt_where pkt3" using p by simp
    have tr: "trace g' = trace (sd_g d) @ (evs1 @ evs2)" using g t1 t2 by simp
    have ns: "Closest_transition_empty \<notin> set (evs1 @ evs2)" using t1(2) t2(2) by simp
    from False w have c': "\<not> (sd_find_nextline d
                  \<and> get_cell_modelgridindex (grd env) (pkt_where p') \<noteq> get_npts_model (grd env)
                  \<and> thick (grd env) (get_cell_modelgridindex (grd env) (pkt_where p')) \<noteq> 1)"
      by simp
    from n4 ns c' p tr show ?thesis
      by (intro exI[of _ ?pkt4] exI[of _ "evs1 @ evs2"]) simp
  qed
qed


lemma rpkt_boundary_branch_returns:
  assumes ne: "linelist (glob env) \<noteq> []" and k: "0 \<le> next_trans (sd_pkt d)"
    and er: "rpkt_boundary_branch env oldmgi d = Inl e"
  shows "move_and_estimate env (sd_g d) (sd_pkt d) (sd_sdist d) = Inl e"
proof (cases "move_and_estimate env (sd_g d) (sd_pkt d) (sd_sdist d)")
  case (Inl e')
  with er show ?thesis unfolding rpkt_boundary_branch_def by simp
next
  case (Inr x)
  obtain pkt1 g1 where x: "x = (pkt1, g1)" by (cases x) auto
  from move_and_estimate_facts(2)[OF Inr[unfolded x]]
  have n1: "next_trans pkt1 = next_trans (sd_pkt d)" by simp
  have cte: "next_trans p < 0" if "closest_transition_empty env p = Inl e'" for p e'
    using closest_transition_empty_returns[OF ne, of p] that by (cases "0 \<le> next_trans p") auto
  from er have False
    unfolding rpkt_boundary_branch_def Inr x sum.case prod.case Let_def
    using n1 k
    by (auto split: sum.splits if_splits prod.splits dest!: cte dest: change_cell_facts(3))
  then show ?thesis ..
qed


text \<open>
  Claim C5, as amended.  When the boundary distance wins a sub-step of \<^verbatim>\<open>do_rpkt_step\<close>
  (after a non-zero distance from \<^verbatim>\<open>boundary_cross\<close>), \<^verbatim>\<open>closest_transition_empty\<close> is
  called if and only if the cell in which the sub-step started is empty or thick and the
  cell the packet is in after the crossing is neither empty nor thick.  The call re-seats
  \<open>next_trans\<close> by search, never by the short-circuit of \<^verbatim>\<open>closest_transition\<close>: on a
  sorted line list, for a packet whose \<open>next_trans\<close> indexes the list and whose frequency
  is not below the last line, the new \<open>next_trans\<close> is what \<^verbatim>\<open>std::lower_bound\<close> gives from
  the old one, the first line from there on whose frequency is at most the packet's;
  below the last line it is \<open>nlines + 1\<close>; and for an old \<open>next_trans\<close> past the list it is
  the old value or \<open>nlines + 1\<close>, as the read past the array decides.  Without the call
  \<open>next_trans\<close> stays as it was.  On a non-empty line list and a non-negative
  \<open>next_trans\<close> the sub-step fails only where \<^verbatim>\<open>update_estimators\<close> aborts.
\<close>

theorem boundary_crossing_reseat:
  fixes env g pkt t2 d
  defines "ll \<equiv> linelist (glob env)"
    and "old \<equiv> get_cell_modelgridindex (grd env) (pkt_where pkt)"
  assumes bc: "boundary_cross (kin env) pkt = (sdist0, snext0, lc)"
      and nz: "sdist0 \<noteq> 0"
      and d: "rpkt_step_distances env (g\<lparr>rng := rng g + 1\<rparr>) (pkt\<lparr>last_cross := lc\<rparr>) t2
             (- 1 * ln (gsl_rng_uniform_pos (kin env) (rng g))) sdist0 snext0
             (get_cell_modelgridindex (grd env) (pkt_where pkt)) = Inr d"
      and win: "sd_sdist d < sd_tdist d \<and> sd_sdist d < sd_edist d"
  shows "(\<forall>e. do_rpkt_step env g pkt t2 = Inl e \<and> ll \<noteq> [] \<and> 0 \<le> next_trans (sd_pkt d) \<longrightarrow>
            move_and_estimate env (sd_g d) (sd_pkt d) (sd_sdist d) = Inl e)
       \<and> (\<forall>b pkt' g'. do_rpkt_step env g pkt t2 = Inr (b, pkt', g') \<longrightarrow>
            (\<exists>evs. trace g' = trace (sd_g d) @ evs
               \<and> (Closest_transition_empty \<in> set evs \<longleftrightarrow>
                    (old = get_npts_model (grd env) \<or> thick (grd env) old = 1)
                    \<and> get_cell_modelgridindex (grd env) (pkt_where pkt') \<noteq> get_npts_model (grd env)
                    \<and> thick (grd env) (get_cell_modelgridindex (grd env) (pkt_where pkt')) \<noteq> 1))
            \<and> (\<not> ((old = get_npts_model (grd env) \<or> thick (grd env) old = 1)
                    \<and> get_cell_modelgridindex (grd env) (pkt_where pkt') \<noteq> get_npts_model (grd env)
                    \<and> thick (grd env) (get_cell_modelgridindex (grd env) (pkt_where pkt')) \<noteq> 1)
                \<longrightarrow> next_trans pkt' = next_trans (sd_pkt d))
            \<and> ((old = get_npts_model (grd env) \<or> thick (grd env) old = 1)
                \<and> get_cell_modelgridindex (grd env) (pkt_where pkt') \<noteq> get_npts_model (grd env)
                \<and> thick (grd env) (get_cell_modelgridindex (grd env) (pkt_where pkt')) \<noteq> 1
                \<longrightarrow>
                  (sorted_desc ll \<and> 0 \<le> next_trans pkt \<and> next_trans pkt < nlines ll
                     \<and> nu (last ll) \<le> nu_cmf pkt' \<longrightarrow>
                       lower_bound ll (next_trans pkt) (nlines ll - next_trans pkt) (nu_cmf pkt')
                         = Inr (next_trans pkt')
                       \<and> next_trans pkt \<le> next_trans pkt' \<and> next_trans pkt' < nlines ll
                       \<and> nu (ll ! nat (next_trans pkt')) \<le> nu_cmf pkt'
                       \<and> (\<forall>j. next_trans pkt \<le> j \<and> j < next_trans pkt'
                               \<longrightarrow> nu_cmf pkt' < nu (ll ! nat j)))
                  \<and> (sorted_desc ll \<and> 0 \<le> next_trans pkt \<and> next_trans pkt < nlines ll
                     \<and> nu_cmf pkt' < nu (last ll) \<longrightarrow> next_trans pkt' = nlines ll + 1)
                  \<and> (nlines ll \<le> next_trans pkt \<longrightarrow>
                       next_trans pkt' =
                         (if linelist_overread (glob env) (next_trans pkt) \<le> nu_cmf pkt'
                          then next_trans pkt else nlines ll + 1))))"
proof -
  have eq: "do_rpkt_step env g pkt t2 = rpkt_boundary_branch env old d"
    using bc nz d win by (simp add: do_rpkt_step_def Let_def rpkt_step_dispatch_def old_def)
  note f = rpkt_step_distances_facts[OF d, folded old_def]
  have m: "sd_mgi d = get_cell_modelgridindex (grd env) (pkt_where (sd_pkt d))"
    using f(1) f(3) by (simp add: old_def)
  have err: "move_and_estimate env (sd_g d) (sd_pkt d) (sd_sdist d) = Inl e"
    if "do_rpkt_step env g pkt t2 = Inl e" "ll \<noteq> []" "0 \<le> next_trans (sd_pkt d)" for e
    using rpkt_boundary_branch_returns[of env d old e] that unfolding eq ll_def by simp
  have ret: "(\<exists>evs. trace g' = trace (sd_g d) @ evs
               \<and> (Closest_transition_empty \<in> set evs \<longleftrightarrow>
                    (old = get_npts_model (grd env) \<or> thick (grd env) old = 1)
                    \<and> get_cell_modelgridindex (grd env) (pkt_where pkt') \<noteq> get_npts_model (grd env)
                    \<and> thick (grd env) (get_cell_modelgridindex (grd env) (pkt_where pkt')) \<noteq> 1))
            \<and> (\<not> ((old = get_npts_model (grd env) \<or> thick (grd env) old = 1)
                    \<and> get_cell_modelgridindex (grd env) (pkt_where pkt') \<noteq> get_npts_model (grd env)
                    \<and> thick (grd env) (get_cell_modelgridindex (grd env) (pkt_where pkt')) \<noteq> 1)
                \<longrightarrow> next_trans pkt' = next_trans (sd_pkt d))
            \<and> ((old = get_npts_model (grd env) \<or> thick (grd env) old = 1)
                \<and> get_cell_modelgridindex (grd env) (pkt_where pkt') \<noteq> get_npts_model (grd env)
                \<and> thick (grd env) (get_cell_modelgridindex (grd env) (pkt_where pkt')) \<noteq> 1
                \<longrightarrow>
                  (sorted_desc ll \<and> 0 \<le> next_trans pkt \<and> next_trans pkt < nlines ll
                     \<and> nu (last ll) \<le> nu_cmf pkt' \<longrightarrow>
                       lower_bound ll (next_trans pkt) (nlines ll - next_trans pkt) (nu_cmf pkt')
                         = Inr (next_trans pkt')
                       \<and> next_trans pkt \<le> next_trans pkt' \<and> next_trans pkt' < nlines ll
                       \<and> nu (ll ! nat (next_trans pkt')) \<le> nu_cmf pkt'
                       \<and> (\<forall>j. next_trans pkt \<le> j \<and> j < next_trans pkt'
                               \<longrightarrow> nu_cmf pkt' < nu (ll ! nat j)))
                  \<and> (sorted_desc ll \<and> 0 \<le> next_trans pkt \<and> next_trans pkt < nlines ll
                     \<and> nu_cmf pkt' < nu (last ll) \<longrightarrow> next_trans pkt' = nlines ll + 1)
                  \<and> (nlines ll \<le> next_trans pkt \<longrightarrow>
                       next_trans pkt' =
                         (if linelist_overread (glob env) (next_trans pkt) \<le> nu_cmf pkt'
                          then next_trans pkt else nlines ll + 1)))"
    if res: "do_rpkt_step env g pkt t2 = Inr (b, pkt', g')" for b pkt' g'
  proof -
    let ?called = "(old = get_npts_model (grd env) \<or> thick (grd env) old = 1)
                    \<and> get_cell_modelgridindex (grd env) (pkt_where pkt') \<noteq> get_npts_model (grd env)
                    \<and> thick (grd env) (get_cell_modelgridindex (grd env) (pkt_where pkt')) \<noteq> 1"
    from res eq have r: "rpkt_boundary_branch env old d = Inr (b, pkt', g')" by simp
    from rpkt_boundary_branch_cases[OF r m] obtain p4 evs where
      n4: "next_trans p4 = next_trans (sd_pkt d)"
      and ns: "Closest_transition_empty \<notin> set evs"
      and cs: "if ?called
               then closest_transition_empty env p4 = Inr pkt'
                    \<and> trace g' = trace (sd_g d) @ evs @ [Closest_transition_empty]
               else pkt' = p4 \<and> trace g' = trace (sd_g d) @ evs"
      unfolding f(2) by blast
    show ?thesis
    proof (cases ?called)
      case False
      with cs have "pkt' = p4" "trace g' = trace (sd_g d) @ evs" by simp_all
      with n4 ns False show ?thesis by auto
    next
      case True
      with cs have cte: "closest_transition_empty env p4 = Inr pkt'"
        and tr: "trace g' = trace (sd_g d) @ evs @ [Closest_transition_empty]" by simp_all
      from True f(4) have "sd_pkt d = pkt\<lparr>last_cross := lc\<rparr>" by simp
      with n4 have k: "next_trans p4 = next_trans pkt" by simp
      from arg_cong[OF closest_transition_empty_fields[OF cte], of nu_cmf]
      have v: "nu_cmf p4 = nu_cmf pkt'" by simp
      have a: "\<exists>evs. trace g' = trace (sd_g d) @ evs \<and> (Closest_transition_empty \<in> set evs \<longleftrightarrow> ?called)"
        using tr True by (intro exI[of _ "evs @ [Closest_transition_empty]"]) simp
      have b1: "lower_bound ll (next_trans pkt) (nlines ll - next_trans pkt) (nu_cmf pkt')
                         = Inr (next_trans pkt')
                       \<and> next_trans pkt \<le> next_trans pkt' \<and> next_trans pkt' < nlines ll
                       \<and> nu (ll ! nat (next_trans pkt')) \<le> nu_cmf pkt'
                       \<and> (\<forall>j. next_trans pkt \<le> j \<and> j < next_trans pkt'
                               \<longrightarrow> nu_cmf pkt' < nu (ll ! nat j))"
        if "sorted_desc ll" "0 \<le> next_trans pkt" "next_trans pkt < nlines ll"
           "nu (last ll) \<le> nu_cmf pkt'"
        using closest_transition_empty_search[OF _ cte] that unfolding ll_def k v by blast
      have b2: "next_trans pkt' = nlines ll + 1"
        if "sorted_desc ll" "0 \<le> next_trans pkt" "next_trans pkt < nlines ll"
           "nu_cmf pkt' < nu (last ll)"
        using closest_transition_empty_below[OF _ cte] that unfolding ll_def k v by blast
      have b3: "next_trans pkt' =
                         (if linelist_overread (glob env) (next_trans pkt) \<le> nu_cmf pkt'
                          then next_trans pkt else nlines ll + 1)"
        if "nlines ll \<le> next_trans pkt"
        using closest_transition_empty_past[OF cte] that unfolding ll_def k v by blast
      from a b1 b2 b3 True show ?thesis by blast
    qed
  qed
  from err ret show ?thesis by blast
qed

theorem boundary_crossing_reseat_witness:
  "boundary_cross (kin ex_env) (ex_pkt 10 200000000000000 1) = (1000000000, 9, NEG_X)
   \<and> (1000000000 :: real) \<noteq> 0
   \<and> get_cell_modelgridindex (grd ex_env) 10 = get_npts_model (grd ex_env)
   \<and> get_cell_modelgridindex (grd ex_env) 9 \<noteq> get_npts_model (grd ex_env)
   \<and> thick (grd ex_env) (get_cell_modelgridindex (grd ex_env) 9) \<noteq> 1
   \<and> sorted_desc (linelist (glob ex_env))
   \<and> step_outcome (do_rpkt_step ex_env ex_g (ex_pkt 10 200000000000000 1) 2)
       = Inr (False, 9, 2, [Update_estimators 1000000000, Change_cell 9,
                Stats_increment COUNTER_CELLCROSSINGS, Closest_transition_empty])
   \<and> lower_bound (linelist (glob ex_env)) 1 2 (200000000000000 * 149896229 / 154896229) = Inr 2
   \<and> nu (linelist (glob ex_env) ! 1) > 200000000000000 * 149896229 / 154896229
   \<and> step_outcome (do_rpkt_step ex_env ex_g (ex_pkt 10 400000000000000 4) 2)
       = Inr (False, 9, 4, [Update_estimators 1000000000, Change_cell 9,
                Stats_increment COUNTER_CELLCROSSINGS, Closest_transition_empty])
   \<and> step_outcome (do_rpkt_step ex_env ex_g (ex_pkt 10 50000000000000 0) 2)
       = Inr (False, 9, 4, [Update_estimators 1000000000, Change_cell 9,
                Stats_increment COUNTER_CELLCROSSINGS, Closest_transition_empty])"
proof -
  let ?P = "ex_pkt 10 200000000000000 1"
  let ?D = "\<lparr>sd_sdist = 1000000000, sd_snext = 9, sd_tdist = 29979245800, sd_edist = DBL_MAX,
            sd_eventtype = - 1, sd_find_nextline = True,
            sd_pkt = ?P\<lparr>last_cross := NEG_X\<rparr>,
            sd_g = ex_g\<lparr>rng := rng ex_g + 1\<rparr>, sd_mgi = 10\<rparr>"
  let ?v = "200000000000000 * 149896229 / 154896229 :: real"
  have bc: "boundary_cross (kin ex_env) ?P = (1000000000, 9, NEG_X)"
    by (simp add: ex_defs)
  have nz: "(1000000000 :: real) \<noteq> 0" by simp
  have d: "rpkt_step_distances ex_env (ex_g\<lparr>rng := rng ex_g + 1\<rparr>) (?P\<lparr>last_cross := NEG_X\<rparr>) 2
         (- 1 * ln (gsl_rng_uniform_pos (kin ex_env) (rng ex_g))) 1000000000 9
         (get_cell_modelgridindex (grd ex_env) (pkt_where ?P)) = Inr ?D"
    by (simp add: ex_defs rpkt_step_distances_def Let_def DBL_MAX_def)
  have w: "sd_sdist ?D < sd_tdist ?D \<and> sd_sdist ?D < sd_edist ?D"
    by (simp add: DBL_MAX_def)
  have o: "step_outcome (do_rpkt_step ex_env ex_g ?P 2)
       = Inr (False, 9, 2, [Update_estimators 1000000000, Change_cell 9,
                Stats_increment COUNTER_CELLCROSSINGS, Closest_transition_empty])"
    by (simp add: ex_defs step_defs move_defs search_defs step_outcome_def Let_def)
  have ov: "map_sum id (\<lambda>(b, p, g). nu_cmf p) (do_rpkt_step ex_env ex_g ?P 2) = Inr ?v"
    by (simp add: ex_defs step_defs move_defs search_defs Let_def)
  from o obtain b p' g' where r: "do_rpkt_step ex_env ex_g ?P 2 = Inr (b, p', g')"
    by (cases "do_rpkt_step ex_env ex_g ?P 2") (auto simp: step_outcome_def)
  from o r have pw: "pkt_where p' = 9" and nt: "next_trans p' = 2"
    by (simp_all add: step_outcome_def)
  from ov r have v: "nu_cmf p' = ?v" by simp
  have c: "get_cell_modelgridindex (grd ex_env) 10 = get_npts_model (grd ex_env)"
      "get_cell_modelgridindex (grd ex_env) 9 \<noteq> get_npts_model (grd ex_env)"
      "thick (grd ex_env) (get_cell_modelgridindex (grd ex_env) 9) \<noteq> 1"
    by (simp_all add: ex_defs)
  have pw0: "pkt_where ?P = 10" by (simp add: ex_pkt_def)
  have srt: "sorted_desc (linelist (glob ex_env))"
    by (simp add: sorted_desc_def ex_defs)
  have k: "0 \<le> next_trans ?P" "next_trans ?P < nlines (linelist (glob ex_env))"
    "next_trans ?P = 1" "nlines (linelist (glob ex_env)) - next_trans ?P = 2"
    by (simp_all add: ex_defs nlines_def)
  have lastv: "nu (last (linelist (glob ex_env))) \<le> nu_cmf p'"
    unfolding v by (simp add: ex_defs)
  from boundary_crossing_reseat[OF bc nz d w] r
  have "lower_bound (linelist (glob ex_env)) (next_trans ?P)
          (nlines (linelist (glob ex_env)) - next_trans ?P) (nu_cmf p') = Inr (next_trans p')"
    using c pw pw0 srt k(1,2) lastv by auto
  moreover have "nlines (linelist (glob ex_env)) = 3" by (simp add: ex_defs nlines_def)
  ultimately have lb: "lower_bound (linelist (glob ex_env)) 1 2 ?v = Inr 2"
    by (simp add: k(3) v nt)
  have above: "nu (linelist (glob ex_env) ! 1) > ?v" by (simp add: ex_defs)
  have o2: "step_outcome (do_rpkt_step ex_env ex_g (ex_pkt 10 400000000000000 4) 2)
       = Inr (False, 9, 4, [Update_estimators 1000000000, Change_cell 9,
                Stats_increment COUNTER_CELLCROSSINGS, Closest_transition_empty])"
    by (simp add: ex_defs step_defs move_defs search_defs step_outcome_def Let_def)
  have o3: "step_outcome (do_rpkt_step ex_env ex_g (ex_pkt 10 50000000000000 0) 2)
       = Inr (False, 9, 4, [Update_estimators 1000000000, Change_cell 9,
                Stats_increment COUNTER_CELLCROSSINGS, Closest_transition_empty])"
    by (simp add: ex_defs step_defs move_defs search_defs step_outcome_def Let_def)
  from bc nz c srt o lb above o2 o3 show ?thesis by blast
qed

theorem boundary_crossing_reseat_counterexample:
  "get_cell_modelgridindex (grd ex_env) 20 = get_npts_model (grd ex_env)
   \<and> step_outcome (do_rpkt_step ex_env ex_g (ex_pkt 21 400000000000000 0) 2)
       = Inr (True, 20, 0, [Update_estimators 1000000000, Change_cell 20,
                Stats_increment COUNTER_CELLCROSSINGS])
   \<and> Closest_transition_empty
        \<notin> set [Update_estimators 1000000000, Change_cell 20, Stats_increment COUNTER_CELLCROSSINGS]"
  by (simp add: ex_defs step_defs move_defs search_defs step_outcome_def Let_def)


section \<open>The opacity cache\<close>

lemma calculate_kappa_rpkt_cont_after:
  assumes "calculate_kappa_rpkt_cont env g pkt = Inr g1"
  shows "cont_modelgridindex (kappa_rpkt_cont g1) = get_cell_modelgridindex (grd env) (pkt_where pkt)"
    and "\<not> recalculate_required (kappa_rpkt_cont g1)"
    and "get_cell_modelgridindex (grd env) (pkt_where pkt) \<noteq> get_npts_model (grd env)"
    and "thick (grd env) (get_cell_modelgridindex (grd env) (pkt_where pkt)) \<noteq> 1"
  using assms unfolding calculate_kappa_rpkt_cont_def Let_def
  by (auto split: if_splits sum.splits prod.splits)

lemma calculate_kappa_rpkt_cont_miss:
  assumes r: "calculate_kappa_rpkt_cont env g pkt = Inr g1"
    and miss: "\<not> (get_cell_modelgridindex (grd env) (pkt_where pkt)
                    = cont_modelgridindex (kappa_rpkt_cont g)
                  \<and> \<not> recalculate_required (kappa_rpkt_cont g)
                  \<and> \<bar>cont_nu (kappa_rpkt_cont g) / nu_cmf pkt - 1\<bar> < 0.0001)"
  shows "case kappa_rpkt_cont_compute env g (get_cell_modelgridindex (grd env) (pkt_where pkt))
               (nu_cmf pkt) of
           Inl e \<Rightarrow> False
         | Inr (sigma, kappa_ff, kappa_bf, kappa_ffheating, gc) \<Rightarrow>
             g1 = gc\<lparr>kappa_rpkt_cont := kappa_rpkt_cont g1\<rparr>
             \<and> cont_nu (kappa_rpkt_cont g1) = nu_cmf pkt
             \<and> cont_modelgridindex (kappa_rpkt_cont g1)
                 = get_cell_modelgridindex (grd env) (pkt_where pkt)
             \<and> es (kappa_rpkt_cont g1) = sigma
             \<and> ffheating (kappa_rpkt_cont g1) = kappa_ffheating
             \<and> (if isfinite (kin env) (sigma + kappa_bf + kappa_ff)
                 then total (kappa_rpkt_cont g1) = sigma + kappa_bf + kappa_ff
                      \<and> ff (kappa_rpkt_cont g1) = kappa_ff \<and> bf (kappa_rpkt_cont g1) = kappa_bf
                 else total (kappa_rpkt_cont g1) = sigma
                      \<and> ff (kappa_rpkt_cont g1) = 0 \<and> bf (kappa_rpkt_cont g1) = 0)"
  using r miss unfolding calculate_kappa_rpkt_cont_def Let_def
  by (auto split: if_splits sum.splits prod.splits)

text \<open>
  Claim C8, as amended.  After a call of \<^verbatim>\<open>calculate_kappa_rpkt_cont\<close> that returned, a
  second call for a packet in the same model-grid cell whose frequency \<open>\<nu>\<close> satisfies
  \<open>|nu_cached / \<nu> - 1| < 10\<^sup>-\<^sup>4\<close> for the frequency the cache holds returns at once and
  leaves the whole state, the cached opacities included, as it was; the cache holds the
  first packet's frequency whenever the first call recomputed.  A call that returns for
  a packet in a different model-grid cell recomputes: the cache then holds that cell,
  that packet's frequency and the opacities computed for them.
\<close>

theorem kappa_rpkt_cont_cache:
  assumes r: "calculate_kappa_rpkt_cont env g pkt1 = Inr g1"
  shows "(get_cell_modelgridindex (grd env) (pkt_where pkt2)
            = get_cell_modelgridindex (grd env) (pkt_where pkt1)
          \<and> \<bar>cont_nu (kappa_rpkt_cont g1) / nu_cmf pkt2 - 1\<bar> < 0.0001
          \<longrightarrow> calculate_kappa_rpkt_cont env g1 pkt2 = Inr g1)
       \<and> (\<not> (get_cell_modelgridindex (grd env) (pkt_where pkt1)
                 = cont_modelgridindex (kappa_rpkt_cont g)
               \<and> \<not> recalculate_required (kappa_rpkt_cont g)
               \<and> \<bar>cont_nu (kappa_rpkt_cont g) / nu_cmf pkt1 - 1\<bar> < 0.0001)
          \<longrightarrow> cont_nu (kappa_rpkt_cont g1) = nu_cmf pkt1)
       \<and> (get_cell_modelgridindex (grd env) (pkt_where pkt2)
            \<noteq> get_cell_modelgridindex (grd env) (pkt_where pkt1)
          \<and> calculate_kappa_rpkt_cont env g1 pkt2 = Inr g2
          \<longrightarrow> (case kappa_rpkt_cont_compute env g1
                        (get_cell_modelgridindex (grd env) (pkt_where pkt2)) (nu_cmf pkt2) of
                 Inl e \<Rightarrow> False
               | Inr (sigma, kappa_ff, kappa_bf, kappa_ffheating, gc) \<Rightarrow>
                   g2 = gc\<lparr>kappa_rpkt_cont := kappa_rpkt_cont g2\<rparr>
                   \<and> cont_nu (kappa_rpkt_cont g2) = nu_cmf pkt2
                   \<and> cont_modelgridindex (kappa_rpkt_cont g2)
                       = get_cell_modelgridindex (grd env) (pkt_where pkt2)
                   \<and> es (kappa_rpkt_cont g2) = sigma
                   \<and> ffheating (kappa_rpkt_cont g2) = kappa_ffheating
                   \<and> (if isfinite (kin env) (sigma + kappa_bf + kappa_ff)
                       then total (kappa_rpkt_cont g2) = sigma + kappa_bf + kappa_ff
                            \<and> ff (kappa_rpkt_cont g2) = kappa_ff
                            \<and> bf (kappa_rpkt_cont g2) = kappa_bf
                       else total (kappa_rpkt_cont g2) = sigma
                            \<and> ff (kappa_rpkt_cont g2) = 0 \<and> bf (kappa_rpkt_cont g2) = 0)))"
proof -
  note after = calculate_kappa_rpkt_cont_after[OF r]
  have hit: "calculate_kappa_rpkt_cont env g1 pkt2 = Inr g1"
    if "get_cell_modelgridindex (grd env) (pkt_where pkt2)
            = get_cell_modelgridindex (grd env) (pkt_where pkt1)"
      and "\<bar>cont_nu (kappa_rpkt_cont g1) / nu_cmf pkt2 - 1\<bar> < 0.0001"
    using that after unfolding calculate_kappa_rpkt_cont_def Let_def by simp
  have nu1: "cont_nu (kappa_rpkt_cont g1) = nu_cmf pkt1"
    if m: "\<not> (get_cell_modelgridindex (grd env) (pkt_where pkt1)
                 = cont_modelgridindex (kappa_rpkt_cont g)
               \<and> \<not> recalculate_required (kappa_rpkt_cont g)
               \<and> \<bar>cont_nu (kappa_rpkt_cont g) / nu_cmf pkt1 - 1\<bar> < 0.0001)"
    using calculate_kappa_rpkt_cont_miss[OF r m] by (auto split: sum.splits prod.splits)
  have other: "case kappa_rpkt_cont_compute env g1
                        (get_cell_modelgridindex (grd env) (pkt_where pkt2)) (nu_cmf pkt2) of
                 Inl e \<Rightarrow> False
               | Inr (sigma, kappa_ff, kappa_bf, kappa_ffheating, gc) \<Rightarrow>
                   g2 = gc\<lparr>kappa_rpkt_cont := kappa_rpkt_cont g2\<rparr>
                   \<and> cont_nu (kappa_rpkt_cont g2) = nu_cmf pkt2
                   \<and> cont_modelgridindex (kappa_rpkt_cont g2)
                       = get_cell_modelgridindex (grd env) (pkt_where pkt2)
                   \<and> es (kappa_rpkt_cont g2) = sigma
                   \<and> ffheating (kappa_rpkt_cont g2) = kappa_ffheating
                   \<and> (if isfinite (kin env) (sigma + kappa_bf + kappa_ff)
                       then total (kappa_rpkt_cont g2) = sigma + kappa_bf + kappa_ff
                            \<and> ff (kappa_rpkt_cont g2) = kappa_ff
                            \<and> bf (kappa_rpkt_cont g2) = kappa_bf
                       else total (kappa_rpkt_cont g2) = sigma
                            \<and> ff (kappa_rpkt_cont g2) = 0 \<and> bf (kappa_rpkt_cont g2) = 0)"
    if d: "get_cell_modelgridindex (grd env) (pkt_where pkt2)
            \<noteq> get_cell_modelgridindex (grd env) (pkt_where pkt1)"
      and r2: "calculate_kappa_rpkt_cont env g1 pkt2 = Inr g2"
  proof -
    from d after(1) have "\<not> (get_cell_modelgridindex (grd env) (pkt_where pkt2)
                    = cont_modelgridindex (kappa_rpkt_cont g1)
                  \<and> \<not> recalculate_required (kappa_rpkt_cont g1)
                  \<and> \<bar>cont_nu (kappa_rpkt_cont g1) / nu_cmf pkt2 - 1\<bar> < 0.0001)" by simp
    from calculate_kappa_rpkt_cont_miss[OF r2 this] show ?thesis .
  qed
  from hit nu1 other show ?thesis by blast
qed


theorem kappa_rpkt_cont_cache_witness:
  "cache_view (kappa_calls ex_env ex_g [ex_pkt 0 4000000000000000 0])
     = Inr (0, 4000000000000000, 16631 / 250000000000000 + (3 / 4) ^ 3 / 100000000)
   \<and> kappa_calls ex_env ex_g [ex_pkt 0 4000000000000000 0, ex_pkt 0 4000300000000000 0]
     = kappa_calls ex_env ex_g [ex_pkt 0 4000000000000000 0]
   \<and> get_cell_modelgridindex (grd ex_env) (pkt_where (ex_pkt 1 4000300000000000 0))
     \<noteq> get_cell_modelgridindex (grd ex_env) (pkt_where (ex_pkt 0 4000000000000000 0))
   \<and> cache_view (kappa_calls ex_env ex_g
        [ex_pkt 0 4000000000000000 0, ex_pkt 1 4000300000000000 0])
     = Inr (1, 4000300000000000, 16631 / 250000000000000 + (30000 / 40003) ^ 3 / 100000000)"
proof -
  let ?p0 = "ex_pkt 0 4000000000000000 0"
  let ?p1 = "ex_pkt 0 4000300000000000 0"
  let ?p2 = "ex_pkt 1 4000300000000000 0"
  have a: "cache_view (kappa_calls ex_env ex_g [?p0])
     = Inr (0, 4000000000000000, 16631 / 250000000000000 + (3 / 4) ^ 3 / 100000000)"
    by (simp add: cache_view_def ex_defs kappa_defs Let_def)
  then obtain g1 where r: "calculate_kappa_rpkt_cont ex_env ex_g ?p0 = Inr g1"
    by (cases "calculate_kappa_rpkt_cont ex_env ex_g ?p0") (auto simp: cache_view_def)
  have miss: "\<not> (get_cell_modelgridindex (grd ex_env) (pkt_where ?p0)
                 = cont_modelgridindex (kappa_rpkt_cont ex_g)
               \<and> \<not> recalculate_required (kappa_rpkt_cont ex_g)
               \<and> \<bar>cont_nu (kappa_rpkt_cont ex_g) / nu_cmf ?p0 - 1\<bar> < 0.0001)"
    by (simp add: ex_defs)
  note t1 = kappa_rpkt_cont_cache[OF r, of ?p1]
  from t1 miss have nu1: "cont_nu (kappa_rpkt_cont g1) = nu_cmf ?p0" by blast
  have same: "get_cell_modelgridindex (grd ex_env) (pkt_where ?p1)
            = get_cell_modelgridindex (grd ex_env) (pkt_where ?p0)"
    by (simp add: ex_defs)
  have near: "\<bar>cont_nu (kappa_rpkt_cont g1) / nu_cmf ?p1 - 1\<bar> < 0.0001"
    unfolding nu1 by (simp add: ex_defs)
  from t1 same near have hit: "calculate_kappa_rpkt_cont ex_env g1 ?p1 = Inr g1" by blast
  have b: "kappa_calls ex_env ex_g [?p0, ?p1] = kappa_calls ex_env ex_g [?p0]"
    by (simp add: r hit)
  have c: "cache_view (kappa_calls ex_env ex_g [?p0, ?p2])
     = Inr (1, 4000300000000000, 16631 / 250000000000000 + (30000 / 40003) ^ 3 / 100000000)"
    by (simp add: cache_view_def ex_defs kappa_defs Let_def)
  have d: "get_cell_modelgridindex (grd ex_env) (pkt_where ?p2)
     \<noteq> get_cell_modelgridindex (grd ex_env) (pkt_where ?p0)"
    by (simp add: ex_defs)
  from c r obtain g2 where r2: "calculate_kappa_rpkt_cont ex_env g1 ?p2 = Inr g2"
    by (cases "calculate_kappa_rpkt_cont ex_env g1 ?p2") (auto simp: cache_view_def)
  from kappa_rpkt_cont_cache[OF r, of ?p2 g2] d r2
  have "case kappa_rpkt_cont_compute ex_env g1
               (get_cell_modelgridindex (grd ex_env) (pkt_where ?p2)) (nu_cmf ?p2) of
          Inl e \<Rightarrow> False
        | Inr (sigma, kappa_ff, kappa_bf, kappa_ffheating, gc) \<Rightarrow>
            cont_nu (kappa_rpkt_cont g2) = nu_cmf ?p2
            \<and> cont_modelgridindex (kappa_rpkt_cont g2)
                = get_cell_modelgridindex (grd ex_env) (pkt_where ?p2)"
    by (auto split: sum.splits prod.splits)
  then have "cont_nu (kappa_rpkt_cont g2) = nu_cmf ?p2
      \<and> cont_modelgridindex (kappa_rpkt_cont g2)
          = get_cell_modelgridindex (grd ex_env) (pkt_where ?p2)"
    by (auto split: sum.splits prod.splits)
  with a b c d show ?thesis by blast
qed

text \<open>
  Three successive calls for packets in one cell, from a reset cache.  The second call
  finds the first packet's frequency in the cache and returns at once, leaving that
  frequency there; the third packet's frequency is within \<open>10\<^sup>-\<^sup>4\<close> of the second's, in
  either normalisation, but not of the cached one, and the third call recomputes.
\<close>

theorem kappa_rpkt_cont_cache_counterexample:
  "get_cell_modelgridindex (grd ex_env) (pkt_where (ex_pkt 0 4000300000000000 0))
     = get_cell_modelgridindex (grd ex_env) (pkt_where (ex_pkt 0 4000600000000000 0))
   \<and> \<bar>nu_cmf (ex_pkt 0 4000300000000000 0) / nu_cmf (ex_pkt 0 4000600000000000 0) - 1\<bar> < 0.0001
   \<and> \<bar>nu_cmf (ex_pkt 0 4000600000000000 0) / nu_cmf (ex_pkt 0 4000300000000000 0) - 1\<bar> < 0.0001
   \<and> cache_view (kappa_calls ex_env ex_g
         [ex_pkt 0 4000000000000000 0, ex_pkt 0 4000300000000000 0])
       = Inr (0, 4000000000000000, 16631 / 250000000000000 + (3 / 4) ^ 3 / 100000000)
   \<and> cache_view (kappa_calls ex_env ex_g
         [ex_pkt 0 4000000000000000 0, ex_pkt 0 4000300000000000 0, ex_pkt 0 4000600000000000 0])
       = Inr (0, 4000600000000000, 16631 / 250000000000000 + (15000 / 20003) ^ 3 / 100000000)
   \<and> (16631 / 250000000000000 + (15000 / 20003) ^ 3 / 100000000 :: real)
       \<noteq> 16631 / 250000000000000 + (3 / 4) ^ 3 / 100000000"
proof -
  have a: "cache_view (kappa_calls ex_env ex_g
         [ex_pkt 0 4000000000000000 0, ex_pkt 0 4000300000000000 0])
       = Inr (0, 4000000000000000, 16631 / 250000000000000 + (3 / 4) ^ 3 / 100000000)"
    by (simp add: cache_view_def ex_defs kappa_defs Let_def)
  have b: "cache_view (kappa_calls ex_env ex_g
         [ex_pkt 0 4000000000000000 0, ex_pkt 0 4000300000000000 0, ex_pkt 0 4000600000000000 0])
       = Inr (0, 4000600000000000, 16631 / 250000000000000 + (15000 / 20003) ^ 3 / 100000000)"
    by (simp add: cache_view_def ex_defs kappa_defs Let_def)
  have c: "(16631 / 250000000000000 + (15000 / 20003) ^ 3 / 100000000 :: real)
       \<noteq> 16631 / 250000000000000 + (3 / 4) ^ 3 / 100000000"
    by (simp add: power3_eq_cube)
  have d: "get_cell_modelgridindex (grd ex_env) (pkt_where (ex_pkt 0 4000300000000000 0))
     = get_cell_modelgridindex (grd ex_env) (pkt_where (ex_pkt 0 4000600000000000 0))"
    "\<bar>nu_cmf (ex_pkt 0 4000300000000000 0) / nu_cmf (ex_pkt 0 4000600000000000 0) - 1\<bar> < 0.0001"
    "\<bar>nu_cmf (ex_pkt 0 4000600000000000 0) / nu_cmf (ex_pkt 0 4000300000000000 0) - 1\<bar> < 0.0001"
    by (simp_all add: ex_defs)
  from a b c d show ?thesis by blast
qed


section \<open>The cumulative bound-free opacities\<close>

lemma fold_fill:
  "fold (\<lambda>k a. a(k := c)) [i..j] a = (\<lambda>k. if i \<le> k \<and> k \<le> j then c else a k)"
proof (induction i j arbitrary: a rule: upto.induct)
  case (1 i j)
  show ?case
  proof (cases "i \<le> j")
    case True
    then have "[i..j] = i # [i + 1..j]" by (simp add: upto_rec1)
    then have "fold (\<lambda>k a. a(k := c)) [i..j] a = fold (\<lambda>k a. a(k := c)) [i + 1..j] (a(i := c))"
      by simp
    also have "\<dots> = (\<lambda>k. if i + 1 \<le> k \<and> k \<le> j then c else (a(i := c)) k)"
      by (rule 1[OF True])
    also have "\<dots> = (\<lambda>k. if i \<le> k \<and> k \<le> j then c else a k)"
      using True by (auto simp: fun_eq_iff)
    finally show ?thesis .
  next
    case False
    then show ?thesis by (auto simp: fun_eq_iff)
  qed
qed

lemma bf_corrfactor_facts:
  assumes "bf_corrfactor env g mgi v i c nnlevel = (corrfactor, g1)"
  shows "0 \<le> corrfactor" and "phixslist_kappa_bf_sum g1 = phixslist_kappa_bf_sum g"
  using assms unfolding bf_corrfactor_def
  by (auto simp: Let_def split: if_splits)

lemma kappa_bf_loop_inv:
  "kappa_bf_loop env mgi v cs i s g = Inr (i', s', g') \<Longrightarrow>
   (\<forall>c \<in> set cs. nonneg_cont env v c) \<Longrightarrow>
   i \<le> i' \<and> i' \<le> i + int (length cs) \<and> s \<le> s'
   \<and> (\<forall>k. k < i \<longrightarrow> phixslist_kappa_bf_sum g' k = phixslist_kappa_bf_sum g k)
   \<and> (\<forall>k. i \<le> k \<and> k < i' \<longrightarrow> s \<le> phixslist_kappa_bf_sum g' k \<and> phixslist_kappa_bf_sum g' k \<le> s')
   \<and> (\<forall>k l. i \<le> k \<and> k \<le> l \<and> l < i' \<longrightarrow> phixslist_kappa_bf_sum g' k \<le> phixslist_kappa_bf_sum g' l)
   \<and> (i < i' \<longrightarrow> phixslist_kappa_bf_sum g' (i' - 1) = s')
   \<and> (i' = i \<longrightarrow> s' = s)"
proof (induction cs arbitrary: i s g)
  case Nil
  then show ?case by simp
next
  case (Cons c cs)
  let ?A = "phixslist_kappa_bf_sum"
  have step: "\<And>s1 g1. kappa_bf_loop env mgi v cs (i + 1) s1 g1 = Inr (i', s', g') \<Longrightarrow>
      s \<le> s1 \<Longrightarrow> ?A g1 = (?A g)(i := s1) \<Longrightarrow> ?case"
  proof -
    fix s1 g1
    assume r: "kappa_bf_loop env mgi v cs (i + 1) s1 g1 = Inr (i', s', g')"
      and le: "s \<le> s1" and a: "?A g1 = (?A g)(i := s1)"
    have nn: "\<forall>c \<in> set cs. nonneg_cont env v c" using Cons.prems(2) by simp
    from Cons.IH[OF r nn]
    have ih: "i + 1 \<le> i'" "i' \<le> i + 1 + int (length cs)" "s1 \<le> s'"
      "\<forall>k. k < i + 1 \<longrightarrow> ?A g' k = ?A g1 k"
      "\<forall>k. i + 1 \<le> k \<and> k < i' \<longrightarrow> s1 \<le> ?A g' k \<and> ?A g' k \<le> s'"
      "\<forall>k l. i + 1 \<le> k \<and> k \<le> l \<and> l < i' \<longrightarrow> ?A g' k \<le> ?A g' l"
      "i + 1 < i' \<longrightarrow> ?A g' (i' - 1) = s'"
      "i' = i + 1 \<longrightarrow> s' = s1" by blast+
    have ai: "?A g' i = s1" using ih(4) a by simp
    have b1: "i \<le> i' \<and> i' \<le> i + int (length (c # cs)) \<and> s \<le> s'"
      using ih(1,2,3) le by simp
    have b2: "\<forall>k. k < i \<longrightarrow> ?A g' k = ?A g k" using ih(4) a by simp
    have b3: "\<forall>k. i \<le> k \<and> k < i' \<longrightarrow> s \<le> ?A g' k \<and> ?A g' k \<le> s'"
    proof (intro allI impI)
      fix k assume k: "i \<le> k \<and> k < i'"
      show "s \<le> ?A g' k \<and> ?A g' k \<le> s'"
      proof (cases "k = i")
        case True with ai le ih(3) show ?thesis by simp
      next
        case False
        with k have "i + 1 \<le> k \<and> k < i'" by simp
        with ih(5) le show ?thesis by fastforce
      qed
    qed
    have b4: "\<forall>k l. i \<le> k \<and> k \<le> l \<and> l < i' \<longrightarrow> ?A g' k \<le> ?A g' l"
    proof (intro allI impI)
      fix k l assume kl: "i \<le> k \<and> k \<le> l \<and> l < i'"
      show "?A g' k \<le> ?A g' l"
      proof (cases "k = i")
        case True
        show ?thesis
        proof (cases "l = i")
          case True with \<open>k = i\<close> show ?thesis by simp
        next
          case False
          with kl True have "i + 1 \<le> l \<and> l < i'" by simp
          with ih(5) have "s1 \<le> ?A g' l" by simp
          with ai True show ?thesis by simp
        qed
      next
        case False
        with kl have "i + 1 \<le> k \<and> k \<le> l \<and> l < i'" by simp
        with ih(6) show ?thesis by simp
      qed
    qed
    have b5: "i < i' \<longrightarrow> ?A g' (i' - 1) = s'"
    proof (cases "i + 1 < i'")
      case True with ih(7) show ?thesis by simp
    next
      case False
      with ih(1) have e: "i' = i + 1" by simp
      with ih(8) ai show ?thesis by simp
    qed
    have b6: "i' = i \<longrightarrow> s' = s" using ih(1) by simp
    from b1 b2 b3 b4 b5 b6 show ?case by blast
  qed
  let ?inc = "(DETAILED_BF_ESTIMATORS_ON (opts env)
            \<and> get_elem_abundance (grd env) mgi (element c) > 0)
         \<or> (\<not> DETAILED_BF_ESTIMATORS_ON (opts env)
            \<and> (ionstagepop (atom env) mgi (element c) (ion c)
                  / get_nnetot (grd env) mgi > 0.000001
               \<or> level c = 0))"
  let ?nn = "get_levelpop (atom env) mgi (element c) (ion c) (level c)"
  let ?skip = "g\<lparr>phixslist_kappa_bf_sum := (?A g)(i := s),
                    phixslist_gamma_contr :=
                      (if DETAILED_BF_ESTIMATORS_ON (opts env)
                       then (phixslist_gamma_contr g)(i := 0) else phixslist_gamma_contr g)\<rparr>"
  show ?case
  proof (cases ?inc)
    case False
    have "kappa_bf_loop env mgi v (c # cs) i s g = kappa_bf_loop env mgi v cs (i + 1) s ?skip"
      by (simp only: kappa_bf_loop.simps False if_False)
    with Cons.prems(1) have "kappa_bf_loop env mgi v cs (i + 1) s ?skip = Inr (i', s', g')"
      by simp
    from step[OF this] show ?thesis by simp
  next
    case inc: True
    show ?thesis
    proof (cases "v < nu_edge c")
      case True
      have "kappa_bf_loop env mgi v (c # cs) i s g = Inr (i, s, g)"
        by (simp only: kappa_bf_loop.simps inc if_True Let_def True)
      with Cons.prems(1) have "i' = i \<and> s' = s \<and> g' = g" by simp
      then show ?thesis by simp
    next
      case nlt: False
      show ?thesis
      proof (cases "v \<le> nu_edge c * last_phixs_nuovernuedge (glob env) \<and> ?nn > 0")
        case False
        have "kappa_bf_loop env mgi v (c # cs) i s g = kappa_bf_loop env mgi v cs (i + 1) s ?skip"
          by (simp only: kappa_bf_loop.simps inc if_True Let_def nlt False if_False)
        with Cons.prems(1)
        have "kappa_bf_loop env mgi v cs (i + 1) s ?skip = Inr (i', s', g')" by simp
        from step[OF this] show ?thesis by simp
      next
        case True
        obtain corrfactor g1 where bc: "bf_corrfactor env g mgi v i c ?nn = (corrfactor, g1)"
          by (cases "bf_corrfactor env g mgi v i c ?nn") auto
        note f = bf_corrfactor_facts[OF bc]
        let ?sig = "photoionization_crosssection_fromtable (atom env) (photoion_xs c) (nu_edge c) v"
        let ?contr = "?nn * ?sig * probability c * corrfactor"
        let ?g2 = "(if (\<not> NO_LUT_PHOTOION (opts env) \<or> \<not> NO_LUT_BFHEATING (opts env))
                            \<and> level c = 0
                         then g1\<lparr>phixslist_groundcont_gamma_contr :=
                                   (phixslist_groundcont_gamma_contr g1)
                                     (index_in_groundphixslist c :=
                                        phixslist_groundcont_gamma_contr g1 (index_in_groundphixslist c)
                                        + ?sig * probability c * corrfactor)\<rparr>
                         else g1)"
        let ?g3 = "(if DETAILED_BF_ESTIMATORS_ON (opts env)
                         then ?g2\<lparr>phixslist_gamma_contr :=
                                   (phixslist_gamma_contr ?g2)(i := ?sig * probability c * corrfactor)\<rparr>
                         else ?g2)"
        let ?G = "?g3\<lparr>phixslist_kappa_bf_sum := (?A ?g3)(i := s + ?contr)\<rparr>"
        have nnc: "nonneg_cont env v c" using Cons.prems(2) by simp
        have cpos: "0 \<le> ?contr" using True f(1) nnc unfolding nonneg_cont_def by simp
        have e: "kappa_bf_loop env mgi v (c # cs) i s g =
                 (if \<not> isfinite (kin env) ?contr then Inl Abort_kappa_bf_contr_nonfinite
                  else kappa_bf_loop env mgi v cs (i + 1) (s + ?contr) ?G)"
          by (simp only: kappa_bf_loop.simps inc if_True Let_def nlt True[THEN conjunct1] True[THEN conjunct2] simp_thms if_False bc prod.case)
        with Cons.prems(1) have G: "kappa_bf_loop env mgi v cs (i + 1) (s + ?contr) ?G = Inr (i', s', g')"
          by (cases "isfinite (kin env) ?contr") simp_all
        have "?A ?G = (?A g)(i := s + ?contr)" using f(2) by simp
        from step[OF G _ this] cpos show ?thesis by simp
      qed
    qed
  qed
qed


lemma kappa_bf_loop_last:
  "kappa_bf_loop env mgi v cs i s g = Inr (i', s', g') \<Longrightarrow>
   i \<le> i' \<and> i' \<le> i + int (length cs)
   \<and> (\<forall>k. k < i \<longrightarrow> phixslist_kappa_bf_sum g' k = phixslist_kappa_bf_sum g k)
   \<and> (i < i' \<longrightarrow> phixslist_kappa_bf_sum g' (i' - 1) = s')
   \<and> (i' = i \<longrightarrow> s' = s)"
proof (induction cs arbitrary: i s g)
  case Nil
  then show ?case by simp
next
  case (Cons c cs)
  let ?A = "phixslist_kappa_bf_sum"
  have step: "\<And>s1 g1. kappa_bf_loop env mgi v cs (i + 1) s1 g1 = Inr (i', s', g') \<Longrightarrow>
      ?A g1 = (?A g)(i := s1) \<Longrightarrow> ?case"
  proof -
    fix s1 g1
    assume r: "kappa_bf_loop env mgi v cs (i + 1) s1 g1 = Inr (i', s', g')"
      and a: "?A g1 = (?A g)(i := s1)"
    from Cons.IH[OF r]
    have ih: "i + 1 \<le> i'" "i' \<le> i + 1 + int (length cs)"
      "\<forall>k. k < i + 1 \<longrightarrow> ?A g' k = ?A g1 k"
      "i + 1 < i' \<longrightarrow> ?A g' (i' - 1) = s'"
      "i' = i + 1 \<longrightarrow> s' = s1" by blast+
    have ai: "?A g' i = s1" using ih(3) a by simp
    have b1: "i \<le> i' \<and> i' \<le> i + int (length (c # cs))"
      using ih(1,2) by simp
    have b2: "\<forall>k. k < i \<longrightarrow> ?A g' k = ?A g k" using ih(3) a by simp
    have b5: "i < i' \<longrightarrow> ?A g' (i' - 1) = s'"
    proof (cases "i + 1 < i'")
      case True with ih(4) show ?thesis by simp
    next
      case False
      with ih(1) have e: "i' = i + 1" by simp
      with ih(5) ai show ?thesis by simp
    qed
    have b6: "i' = i \<longrightarrow> s' = s" using ih(1) by simp
    from b1 b2 b5 b6 show ?case by blast
  qed
  let ?inc = "(DETAILED_BF_ESTIMATORS_ON (opts env)
            \<and> get_elem_abundance (grd env) mgi (element c) > 0)
         \<or> (\<not> DETAILED_BF_ESTIMATORS_ON (opts env)
            \<and> (ionstagepop (atom env) mgi (element c) (ion c)
                  / get_nnetot (grd env) mgi > 0.000001
               \<or> level c = 0))"
  let ?nn = "get_levelpop (atom env) mgi (element c) (ion c) (level c)"
  let ?skip = "g\<lparr>phixslist_kappa_bf_sum := (?A g)(i := s),
                    phixslist_gamma_contr :=
                      (if DETAILED_BF_ESTIMATORS_ON (opts env)
                       then (phixslist_gamma_contr g)(i := 0) else phixslist_gamma_contr g)\<rparr>"
  show ?case
  proof (cases ?inc)
    case False
    have "kappa_bf_loop env mgi v (c # cs) i s g = kappa_bf_loop env mgi v cs (i + 1) s ?skip"
      by (simp only: kappa_bf_loop.simps False if_False)
    with Cons.prems(1) have "kappa_bf_loop env mgi v cs (i + 1) s ?skip = Inr (i', s', g')"
      by simp
    from step[OF this] show ?thesis by simp
  next
    case inc: True
    show ?thesis
    proof (cases "v < nu_edge c")
      case True
      have "kappa_bf_loop env mgi v (c # cs) i s g = Inr (i, s, g)"
        by (simp only: kappa_bf_loop.simps inc if_True Let_def True)
      with Cons.prems(1) have "i' = i \<and> s' = s \<and> g' = g" by simp
      then show ?thesis by simp
    next
      case nlt: False
      show ?thesis
      proof (cases "v \<le> nu_edge c * last_phixs_nuovernuedge (glob env) \<and> ?nn > 0")
        case False
        have "kappa_bf_loop env mgi v (c # cs) i s g = kappa_bf_loop env mgi v cs (i + 1) s ?skip"
          by (simp only: kappa_bf_loop.simps inc if_True Let_def nlt False if_False)
        with Cons.prems(1)
        have "kappa_bf_loop env mgi v cs (i + 1) s ?skip = Inr (i', s', g')" by simp
        from step[OF this] show ?thesis by simp
      next
        case True
        obtain corrfactor g1 where bc: "bf_corrfactor env g mgi v i c ?nn = (corrfactor, g1)"
          by (cases "bf_corrfactor env g mgi v i c ?nn") auto
        note f = bf_corrfactor_facts[OF bc]
        let ?sig = "photoionization_crosssection_fromtable (atom env) (photoion_xs c) (nu_edge c) v"
        let ?contr = "?nn * ?sig * probability c * corrfactor"
        let ?g2 = "(if (\<not> NO_LUT_PHOTOION (opts env) \<or> \<not> NO_LUT_BFHEATING (opts env))
                            \<and> level c = 0
                         then g1\<lparr>phixslist_groundcont_gamma_contr :=
                                   (phixslist_groundcont_gamma_contr g1)
                                     (index_in_groundphixslist c :=
                                        phixslist_groundcont_gamma_contr g1 (index_in_groundphixslist c)
                                        + ?sig * probability c * corrfactor)\<rparr>
                         else g1)"
        let ?g3 = "(if DETAILED_BF_ESTIMATORS_ON (opts env)
                         then ?g2\<lparr>phixslist_gamma_contr :=
                                   (phixslist_gamma_contr ?g2)(i := ?sig * probability c * corrfactor)\<rparr>
                         else ?g2)"
        let ?G = "?g3\<lparr>phixslist_kappa_bf_sum := (?A ?g3)(i := s + ?contr)\<rparr>"
        have e: "kappa_bf_loop env mgi v (c # cs) i s g =
                 (if \<not> isfinite (kin env) ?contr then Inl Abort_kappa_bf_contr_nonfinite
                  else kappa_bf_loop env mgi v cs (i + 1) (s + ?contr) ?G)"
          by (simp only: kappa_bf_loop.simps inc if_True Let_def nlt True[THEN conjunct1] True[THEN conjunct2] simp_thms if_False bc prod.case)
        with Cons.prems(1) have G: "kappa_bf_loop env mgi v cs (i + 1) (s + ?contr) ?G = Inr (i', s', g')"
          by (cases "isfinite (kin env) ?contr") simp_all
        have "?A ?G = (?A g)(i := s + ?contr)" using f(2) by simp
        from step[OF G this] show ?thesis by simp
      qed
    qed
  qed
qed




lemma bf_corrfactor_cache:
  "bf_corrfactor env g mgi v i c nnlevel = (corrfactor, g1) \<Longrightarrow>
   kappa_rpkt_cont g1 = kappa_rpkt_cont g"
  unfolding bf_corrfactor_def by (auto simp: Let_def split: if_splits)

lemma kappa_bf_loop_cache:
  "kappa_bf_loop env mgi v cs i s g = Inr (i', s', g') \<Longrightarrow>
   kappa_rpkt_cont g' = kappa_rpkt_cont g"
proof (induction cs arbitrary: i s g)
  case Nil
  then show ?case by simp
next
  case (Cons c cs)
  from Cons.prems show ?case
    by (auto simp: Let_def split: if_splits prod.splits dest!: Cons.IH bf_corrfactor_cache)
qed

lemma kappa_bf_loop_Nil_sum: "kappa_bf_loop env mgi v [] i s g = Inr (i', s', g') \<Longrightarrow> s' = s"
  by simp

lemma calculate_kappa_bf_gammacontr_last:
  assumes r: "calculate_kappa_bf_gammacontr env g mgi v = Inr (kappa_bf, g')"
  shows "0 < nbfcontinua env \<Longrightarrow> phixslist_kappa_bf_sum g' (nbfcontinua env - 1) = kappa_bf"
    and "nbfcontinua env = 0 \<Longrightarrow> kappa_bf = 0"
    and "kappa_rpkt_cont g' = kappa_rpkt_cont g"
proof -
  let ?A = "phixslist_kappa_bf_sum"
  let ?N = "nbfcontinua env"
  let ?g0 = "(if \<not> NO_LUT_PHOTOION (opts env) \<or> \<not> NO_LUT_BFHEATING (opts env)
                then g\<lparr>phixslist_groundcont_gamma_contr :=
                         fold (\<lambda>gphixsindex a. a(gphixsindex := 0))
                              [0..nbfcontinua_ground (glob env) - 1]
                              (phixslist_groundcont_gamma_contr g)\<rparr>
                else g)"
  from r obtain i g1 where
    lp: "kappa_bf_loop env mgi v (allcont (glob env)) 0 0 ?g0 = Inr (i, kappa_bf, g1)"
    and a: "?A g' = fold (\<lambda>k a. a(k := kappa_bf)) [i..?N - 1] (?A g1)"
    and c: "kappa_rpkt_cont g' = kappa_rpkt_cont g1"
    unfolding calculate_kappa_bf_gammacontr_def Let_def
    by (auto split: sum.splits)
  have A: "\<And>k. ?A g' k = (if i \<le> k \<and> k \<le> ?N - 1 then kappa_bf else ?A g1 k)"
    unfolding a fold_fill by simp
  from kappa_bf_loop_last[OF lp]
  have i0: "0 \<le> i" and iN: "i \<le> ?N"
    and lastw: "0 < i \<Longrightarrow> ?A g1 (i - 1) = kappa_bf"
    and same: "i = 0 \<Longrightarrow> kappa_bf = 0"
    by (simp_all add: nbfcontinua_def)
  show "?A g' (?N - 1) = kappa_bf" if n: "0 < ?N"
  proof (cases "i \<le> ?N - 1")
    case True
    then show ?thesis by (simp add: A)
  next
    case False
    with iN have e: "i = ?N" by simp
    with n lastw have "?A g1 (?N - 1) = kappa_bf" by simp
    with False show ?thesis by (simp add: A)
  qed
  show "kappa_bf = 0" if "?N = 0"
    using that i0 iN same by simp
  have "kappa_rpkt_cont g1 = kappa_rpkt_cont ?g0" by (rule kappa_bf_loop_cache[OF lp])
  with c show "kappa_rpkt_cont g' = kappa_rpkt_cont g" by simp
qed


lemma kappa_rpkt_cont_compute_bf:
  assumes "kappa_rpkt_cont_compute env g mgi v = Inr (sigma, kappa_ff, kappa_bf, kappa_ffheating, gc)"
  shows "kappa_bf = 0 \<or> (0 < nbfcontinua env \<and> phixslist_kappa_bf_sum gc (nbfcontinua env - 1) = kappa_bf)"
proof -
  have n: "nbfcontinua env = 0 \<or> 0 < nbfcontinua env" by (auto simp: nbfcontinua_def)
  from assms show ?thesis
    unfolding kappa_rpkt_cont_compute_def Let_def
    using n
    by (auto split: if_splits sum.splits
             dest: calculate_kappa_bf_gammacontr_last(1) calculate_kappa_bf_gammacontr_last(2))
qed

lemma calculate_kappa_rpkt_cont_consistent:
  assumes r: "calculate_kappa_rpkt_cont env g pkt = Inr g'"
    and c: "kappa_cache_consistent env g"
  shows "kappa_bf_sum_matches env g'" and "\<not> recalculate_required (kappa_rpkt_cont g')"
proof -
  let ?mgi = "get_cell_modelgridindex (grd env) (pkt_where pkt)"
  let ?hit = "?mgi = cont_modelgridindex (kappa_rpkt_cont g)
                  \<and> \<not> recalculate_required (kappa_rpkt_cont g)
                  \<and> \<bar>cont_nu (kappa_rpkt_cont g) / nu_cmf pkt - 1\<bar> < 0.0001"
  have "kappa_bf_sum_matches env g' \<and> \<not> recalculate_required (kappa_rpkt_cont g')"
  proof (cases ?hit)
    case True
    with r have "g' = g" unfolding calculate_kappa_rpkt_cont_def Let_def
      by (auto split: if_splits)
    with True c show ?thesis by (auto simp: kappa_cache_consistent_def)
  next
    case False
    from calculate_kappa_rpkt_cont_miss[OF r False]
    obtain sigma kappa_ff kappa_bf kappa_ffheating gc where
      k: "kappa_rpkt_cont_compute env g ?mgi (nu_cmf pkt)
            = Inr (sigma, kappa_ff, kappa_bf, kappa_ffheating, gc)"
      and g: "g' = gc\<lparr>kappa_rpkt_cont := kappa_rpkt_cont g'\<rparr>"
      and b: "bf (kappa_rpkt_cont g') = kappa_bf \<or> bf (kappa_rpkt_cont g') = 0"
      by (auto split: sum.splits prod.splits if_splits)
    from arg_cong[OF g, of phixslist_kappa_bf_sum]
    have A: "phixslist_kappa_bf_sum g' = phixslist_kappa_bf_sum gc" by simp
    from kappa_rpkt_cont_compute_bf[OF k] b A
    have m: "kappa_bf_sum_matches env g'" by (auto simp: kappa_bf_sum_matches_def)
    have "\<not> recalculate_required (kappa_rpkt_cont g')"
      by (rule calculate_kappa_rpkt_cont_after(2)[OF r])
    with m show ?thesis by simp
  qed
  then show "kappa_bf_sum_matches env g'" and "\<not> recalculate_required (kappa_rpkt_cont g')"
    by simp_all
qed

lemma rpkt_event_continuum_assert:
  assumes "kappa_bf_sum_matches env g"
  shows "rpkt_event_continuum env g pkt (kappa_rpkt_cont g) mgi \<noteq> Inl Assert_kappa_bf_sum"
  using assms emitt_rpkt_error[of env _ _ Assert_kappa_bf_sum]
  unfolding rpkt_event_continuum_def Let_def escat_rpkt_def kappa_bf_sum_matches_def
  by (auto simp: allcont_at_def split: sum.splits)


lemma same_opacity_refl [simp]: "same_opacity g g"
  by (simp add: same_opacity_def)

lemma same_opacity_trans: "same_opacity g g1 \<Longrightarrow> same_opacity g1 g2 \<Longrightarrow> same_opacity g g2"
  by (simp add: same_opacity_def)

lemma same_opacity_trace [simp]: "same_opacity g (g'\<lparr>trace := t\<rparr>) = same_opacity g g'"
  by (simp add: same_opacity_def)

lemma same_opacity_rng [simp]: "same_opacity g (g'\<lparr>rng := n\<rparr>) = same_opacity g g'"
  by (simp add: same_opacity_def)

lemma same_opacity_trace_left [simp]: "same_opacity (g\<lparr>trace := t\<rparr>) g' = same_opacity g g'"
  by (simp add: same_opacity_def)

lemma same_opacity_rng_left [simp]: "same_opacity (g\<lparr>rng := n\<rparr>) g' = same_opacity g g'"
  by (simp add: same_opacity_def)

lemma same_opacity_consistent:
  "same_opacity g g' \<Longrightarrow> kappa_cache_consistent env g' = kappa_cache_consistent env g"
  "same_opacity g g' \<Longrightarrow> kappa_bf_sum_matches env g' = kappa_bf_sum_matches env g"
  by (simp_all add: same_opacity_def kappa_cache_consistent_def kappa_bf_sum_matches_def)

lemma emitt_rpkt_frame: "emitt_rpkt env g p = Inr (p', g') \<Longrightarrow> same_opacity g g'"
  unfolding emitt_rpkt_def
  by (auto simp: Let_def same_opacity_def split: if_splits prod.splits)

lemma rpkt_event_thickcell_frame:
  "rpkt_event_thickcell env g p = Inr (p', g') \<Longrightarrow> same_opacity g g'"
  unfolding rpkt_event_thickcell_def
  by (auto simp: Let_def split: sum.splits dest!: emitt_rpkt_frame)

lemma rpkt_event_boundbound_frame:
  "rpkt_event_boundbound env g p mgi = Inr (p', g') \<Longrightarrow> same_opacity g g'"
  unfolding rpkt_event_boundbound_def
  by (auto simp: Let_def split: sum.splits if_splits)

lemma rpkt_event_continuum_frame:
  "rpkt_event_continuum env g p k mgi = Inr (p', g') \<Longrightarrow> same_opacity g g'"
  unfolding rpkt_event_continuum_def escat_rpkt_def
  by (auto simp: Let_def split: sum.splits if_splits dest!: emitt_rpkt_frame)

lemma change_cell_frame: "change_cell g p s = (p', g') \<Longrightarrow> same_opacity g g'"
  unfolding change_cell_def by (auto split: if_splits)

lemma move_and_estimate_frame:
  "move_and_estimate env g p dst = Inr (p', g') \<Longrightarrow> same_opacity g g'"
  using move_and_estimate_facts(3,4)[of env g p dst p' g'] by (simp add: same_opacity_def)

lemma get_event_iter_frame:
  "get_event_iter env mgi pkt et tau_rnd abort_dist nca kc s = Inr (Return r) \<Longrightarrow>
   same_opacity (ge_g s) (res_g r)"
  "get_event_iter env mgi pkt et tau_rnd abort_dist nca kc s = Inr (Continue s') \<Longrightarrow>
   same_opacity (ge_g s) (ge_g s')"
  unfolding get_event_iter_def
  by (auto simp: Let_def split: sum.splits if_splits)

lemma get_event_iter_eventtype:
  "get_event_iter env mgi pkt et tau_rnd abort_dist nca kc s = Inr (Return r) \<Longrightarrow>
   res_eventtype r \<in> {et, RPKT_EVENTTYPE_BB, RPKT_EVENTTYPE_CONT}"
  unfolding get_event_iter_def
  by (auto simp: Let_def split: sum.splits if_splits)

lemma get_event_loop_frame:
  "get_event_loop env mgi pkt et tau_rnd abort_dist nca kc s = Inr r \<Longrightarrow>
   same_opacity (ge_g s) (res_g r)"
proof (induction env mgi pkt et tau_rnd abort_dist nca kc s rule: get_event_loop.induct)
  case (1 env mgi pkt et tau_rnd abort_dist nca kc s)
  show ?case
  proof (cases "get_event_iter env mgi pkt et tau_rnd abort_dist nca kc s")
    case (Inl e)
    from get_event_loop_error[OF this] 1(2) show ?thesis by simp
  next
    case (Inr st)
    show ?thesis
    proof (cases st)
      case (Return r')
      with Inr have it: "get_event_iter env mgi pkt et tau_rnd abort_dist nca kc s = Inr (Return r')"
        by simp
      from get_event_loop_Return[OF it] 1(2) have "r' = r" by simp
      with get_event_iter_frame(1)[OF it] show ?thesis by simp
    next
      case (Continue s')
      with Inr have it: "get_event_iter env mgi pkt et tau_rnd abort_dist nca kc s = Inr (Continue s')"
        by simp
      from get_event_loop_Continue[OF it] 1(2)
      have "get_event_loop env mgi pkt et tau_rnd abort_dist nca kc s' = Inr r" by simp
      from 1(1)[OF Inr Continue this] get_event_iter_frame(2)[OF it]
      show ?thesis by (blast intro: same_opacity_trans)
    qed
  qed
qed

lemma get_event_consistent:
  assumes r: "get_event env g mgi pkt et tau_rnd abort_dist = Inr r"
    and c: "kappa_cache_consistent env g"
  shows "kappa_bf_sum_matches env (res_g r)"
proof -
  from r obtain g1 where k: "calculate_kappa_rpkt_cont env g pkt = Inr g1"
    and l: "get_event_loop env mgi pkt et tau_rnd abort_dist (get_event_nu_cmf_abort env pkt abort_dist)
              (total (kappa_rpkt_cont g1) * doppler_packet_nucmf_on_nurf env pkt)
              \<lparr>ge_tau = 0, ge_dist = 0, ge_dummypkt = pkt, ge_g = g1\<rparr> = Inr r"
    unfolding get_event_def Let_def by (auto split: sum.splits if_splits)
  from get_event_loop_frame[OF l] have "same_opacity g1 (res_g r)" by simp
  with calculate_kappa_rpkt_cont_consistent(1)[OF k c] show ?thesis
    by (simp add: same_opacity_consistent)
qed

lemma rpkt_step_distances_consistent:
  assumes d: "rpkt_step_distances env g pkt t2 tau_next sdist0 snext0 mgi = Inr d"
    and c: "kappa_cache_consistent env g"
  shows "kappa_cache_consistent env (sd_g d)"
    and "sd_eventtype d = RPKT_EVENTTYPE_CONT \<Longrightarrow> kappa_bf_sum_matches env (sd_g d)"
proof -
  have m: "kappa_bf_sum_matches env g' \<Longrightarrow> kappa_cache_consistent env g'" for g'
    by (simp add: kappa_cache_consistent_def)
  from d c show "kappa_cache_consistent env (sd_g d)"
    unfolding rpkt_step_distances_def
    by (auto simp: Let_def split: sum.splits if_splits prod.splits
             dest!: get_event_consistent intro: m)
  assume "sd_eventtype d = RPKT_EVENTTYPE_CONT"
  with d c show "kappa_bf_sum_matches env (sd_g d)"
    unfolding rpkt_step_distances_def
    by (auto simp: Let_def RPKT_EVENTTYPE_CONT_def split: sum.splits if_splits prod.splits
             dest!: get_event_consistent)
qed


lemma rpkt_event_branch_assert:
  assumes m: "sd_eventtype d = RPKT_EVENTTYPE_CONT \<Longrightarrow> kappa_bf_sum_matches env (sd_g d)"
  shows "rpkt_event_branch env oldmgi d \<noteq> Inl Assert_kappa_bf_sum"
proof (cases "move_and_estimate env (sd_g d) (sd_pkt d) (sd_edist d)")
  case (Inl e)
  with move_and_estimate_error[OF Inl] show ?thesis
    unfolding rpkt_event_branch_def by auto
next
  case (Inr x)
  obtain pkt1 g1 where x: "x = (pkt1, g1)" by (cases x) auto
  note me = Inr[unfolded x]
  from move_and_estimate_frame[OF me] have so: "same_opacity (sd_g d) g1" .
  let ?g = "g1\<lparr>trace := trace g1 @ [Rpkt_event_continuum]\<rparr>"
  let ?p = "move_pkt_withtime env pkt1 (sd_edist d / 2)"
  have k: "kappa_rpkt_cont ?g = kappa_rpkt_cont g1" by simp
  have cont: "rpkt_event_continuum env ?g ?p (kappa_rpkt_cont g1) (sd_mgi d) \<noteq> Inl Assert_kappa_bf_sum"
    if "sd_eventtype d = RPKT_EVENTTYPE_CONT"
  proof -
    from m[OF that] so have "kappa_bf_sum_matches env ?g"
      by (simp add: same_opacity_def kappa_bf_sum_matches_def)
    from rpkt_event_continuum_assert[OF this, of ?p "sd_mgi d"] show ?thesis by simp
  qed
  show ?thesis
    unfolding rpkt_event_branch_def me sum.case prod.case Let_def
    using cont rpkt_event_thickcell_error[of env _ _ Assert_kappa_bf_sum]
      rpkt_event_boundbound_error[of env _ _ _ Assert_kappa_bf_sum]
    by (auto split: sum.splits)
qed

lemma rpkt_event_branch_frame:
  "rpkt_event_branch env oldmgi d = Inr (b, p', g') \<Longrightarrow> same_opacity (sd_g d) g'"
  unfolding rpkt_event_branch_def
  by (auto simp: Let_def split: sum.splits if_splits prod.splits
           dest!: move_and_estimate_frame rpkt_event_thickcell_frame rpkt_event_boundbound_frame
                  rpkt_event_continuum_frame
           intro: same_opacity_trans)

lemma rpkt_boundary_branch_frame:
  "rpkt_boundary_branch env oldmgi d = Inr (b, p', g') \<Longrightarrow> same_opacity (sd_g d) g'"
  unfolding rpkt_boundary_branch_def
  by (auto simp: Let_def split: sum.splits if_splits prod.splits
           dest!: move_and_estimate_frame change_cell_frame
           intro: same_opacity_trans)

lemma rpkt_time_branch_frame:
  "rpkt_time_branch env t2 d = Inr (b, p', g') \<Longrightarrow> same_opacity (sd_g d) g'"
  unfolding rpkt_time_branch_def
  by (auto simp: Let_def split: sum.splits if_splits prod.splits
           dest!: move_and_estimate_frame)

lemma kappa_bf_loop_error:
  "kappa_bf_loop env mgi v cs i s g = Inl e \<Longrightarrow> e = Abort_kappa_bf_contr_nonfinite"
proof (induction cs arbitrary: i s g)
  case Nil
  then show ?case by simp
next
  case (Cons c cs)
  from Cons.prems show ?case
    by (auto simp: Let_def split: if_splits prod.splits dest: Cons.IH)
qed

lemma calculate_kappa_rpkt_cont_error:
  "calculate_kappa_rpkt_cont env g pkt = Inl e \<Longrightarrow> e \<noteq> Assert_kappa_bf_sum"
  unfolding calculate_kappa_rpkt_cont_def kappa_rpkt_cont_compute_def calculate_kappa_ff_def
    calculate_kappa_bf_gammacontr_def
  by (auto simp: Let_def split: if_splits sum.splits prod.splits dest: kappa_bf_loop_error)

lemma closest_transition_error: "closest_transition ll v k = Inl e \<Longrightarrow> e = OutOfRange"
  unfolding closest_transition_def
  by (auto simp: Let_def split: sum.splits if_splits dest: linelist_at_error lower_bound_error)

lemma get_event_iter_error:
  "get_event_iter env mgi pkt et tau_rnd abort_dist nca kc s = Inl e \<Longrightarrow>
   e \<in> {OutOfRange, Assert_ldist}"
  unfolding get_event_iter_def get_event_ldist_def
  by (auto simp: Let_def split: sum.splits if_splits
           dest: linelist_at_error closest_transition_error)

lemma get_event_loop_errors:
  "get_event_loop env mgi pkt et tau_rnd abort_dist nca kc s = Inl e \<Longrightarrow>
   e \<in> {OutOfRange, Assert_ldist}"
proof (induction env mgi pkt et tau_rnd abort_dist nca kc s rule: get_event_loop.induct)
  case (1 env mgi pkt et tau_rnd abort_dist nca kc s)
  show ?case
  proof (cases "get_event_iter env mgi pkt et tau_rnd abort_dist nca kc s")
    case (Inl e')
    from get_event_loop_error[OF this] 1(2) have "e' = e" by simp
    with get_event_iter_error[OF Inl] show ?thesis by simp
  next
    case (Inr st)
    show ?thesis
    proof (cases st)
      case (Return r')
      with Inr have it: "get_event_iter env mgi pkt et tau_rnd abort_dist nca kc s = Inr (Return r')"
        by simp
      from get_event_loop_Return[OF it] 1(2) show ?thesis by simp
    next
      case (Continue s')
      with Inr have it: "get_event_iter env mgi pkt et tau_rnd abort_dist nca kc s = Inr (Continue s')"
        by simp
      from get_event_loop_Continue[OF it] 1(2)
      have "get_event_loop env mgi pkt et tau_rnd abort_dist nca kc s' = Inl e" by simp
      from 1(1)[OF Inr Continue this] show ?thesis .
    qed
  qed
qed

lemma get_event_error:
  "get_event env g mgi pkt et tau_rnd abort_dist = Inl e \<Longrightarrow> e \<noteq> Assert_kappa_bf_sum"
  unfolding get_event_def
  by (auto simp: Let_def split: sum.splits if_splits
           dest: calculate_kappa_rpkt_cont_error get_event_loop_errors)

lemma rpkt_step_distances_error:
  "rpkt_step_distances env g pkt t2 tau_next sdist0 snext0 mgi = Inl e \<Longrightarrow> e \<noteq> Assert_kappa_bf_sum"
  unfolding rpkt_step_distances_def
  by (auto simp: Let_def split: sum.splits if_splits prod.splits dest: get_event_error)

lemma do_rpkt_step_consistent:
  assumes c: "kappa_cache_consistent env g"
  shows "do_rpkt_step env g pkt t2 \<noteq> Inl Assert_kappa_bf_sum"
    and "do_rpkt_step env g pkt t2 = Inr (b, p', g') \<Longrightarrow> kappa_cache_consistent env g'"
proof -
  obtain sdist snext lc where bc: "boundary_cross (kin env) pkt = (sdist, snext, lc)"
    by (cases "boundary_cross (kin env) pkt") (auto simp: prod_eq_iff)
  let ?g1 = "g\<lparr>rng := rng g + 1\<rparr>"
  let ?p1 = "pkt\<lparr>last_cross := lc\<rparr>"
  let ?old = "get_cell_modelgridindex (grd env) (pkt_where pkt)"
  let ?sd = "rpkt_step_distances env ?g1 ?p1 t2
               (- 1 * ln (gsl_rng_uniform_pos (kin env) (rng g))) sdist snext ?old"
  have c1: "kappa_cache_consistent env ?g1" using c
    by (simp add: kappa_cache_consistent_def kappa_bf_sum_matches_def)
  have so1: "same_opacity g ?g1" by simp
  have e: "do_rpkt_step env g pkt t2 =
           (if sdist = 0 then
              (let (pkt2, g2) = change_cell ?g1 ?p1 snext
               in Inr (pkt_type pkt2 = TYPE_RPKT
                       \<and> (get_cell_modelgridindex (grd env) (pkt_where pkt2) = get_npts_model (grd env)
                          \<or> get_cell_modelgridindex (grd env) (pkt_where pkt2) = ?old),
                       pkt2, g2))
            else (case ?sd of Inl e \<Rightarrow> Inl e | Inr d \<Rightarrow> rpkt_step_dispatch env t2 ?old d))"
    unfolding do_rpkt_step_def Let_def bc prod.case ..
  have disp: "rpkt_step_dispatch env t2 ?old d \<noteq> Inl Assert_kappa_bf_sum
              \<and> (rpkt_step_dispatch env t2 ?old d = Inr (b, p', g') \<longrightarrow> same_opacity (sd_g d) g')"
    if d: "?sd = Inr d" for d
  proof -
    note m = rpkt_step_distances_consistent(2)[OF d c1]
    have a: "rpkt_event_branch env ?old d \<noteq> Inl Assert_kappa_bf_sum"
      using rpkt_event_branch_assert[of d env ?old] m by blast
    have b: "rpkt_boundary_branch env ?old d \<noteq> Inl Assert_kappa_bf_sum"
      using rpkt_boundary_branch_error[of env ?old d Assert_kappa_bf_sum] by auto
    have t: "rpkt_time_branch env t2 d \<noteq> Inl Assert_kappa_bf_sum"
      using rpkt_time_branch_error[of env t2 d Assert_kappa_bf_sum] by auto
    from a b t show ?thesis
      unfolding rpkt_step_dispatch_def
      by (auto dest: rpkt_event_branch_frame rpkt_boundary_branch_frame rpkt_time_branch_frame)
  qed
  show "do_rpkt_step env g pkt t2 \<noteq> Inl Assert_kappa_bf_sum"
  proof (cases "sdist = 0")
    case True
    then show ?thesis unfolding e by (simp add: Let_def split: prod.splits)
  next
    case False
    show ?thesis
    proof (cases ?sd)
      case (Inl e')
      with rpkt_step_distances_error[OF Inl] False show ?thesis unfolding e by auto
    next
      case (Inr d)
      with disp[OF Inr] False show ?thesis unfolding e by simp
    qed
  qed
  show "kappa_cache_consistent env g'" if r: "do_rpkt_step env g pkt t2 = Inr (b, p', g')"
  proof (cases "sdist = 0")
    case True
    with r have "\<exists>p2. change_cell ?g1 ?p1 snext = (p2, g')"
      unfolding e by (auto simp: Let_def split: prod.splits)
    then obtain p2 where "change_cell ?g1 ?p1 snext = (p2, g')" by blast
    from change_cell_frame[OF this] have "same_opacity g g'" by simp
    with c show ?thesis by (simp add: same_opacity_consistent)
  next
    case False
    with r obtain d where d: "?sd = Inr d" and rd: "rpkt_step_dispatch env t2 ?old d = Inr (b, p', g')"
      unfolding e by (auto split: sum.splits)
    from disp[OF d] rd have "same_opacity (sd_g d) g'" by simp
    with rpkt_step_distances_consistent(1)[OF d c1] show ?thesis
      by (simp add: same_opacity_consistent)
  qed
qed


text \<open>
  Claim C6, as amended.  When \<^verbatim>\<open>calculate_kappa_bf_gammacontr\<close> returns \<open>kappa_bf\<close>, the
  last entry of the scratch array \<^verbatim>\<open>kappa_bf_sum\<close> equals \<open>kappa_bf\<close> (with no continuum at
  all \<open>kappa_bf\<close> is zero), and the array is non-decreasing over the indices
  \<open>0 .. nbfcontinua - 1\<close> when the cross-sections and the target probabilities of the
  continua are not negative.  A call of \<^verbatim>\<open>calculate_kappa_rpkt_cont\<close> that returns from a
  consistent state leaves the cached \<open>bf\<close> equal to that last entry, or zero; with such a
  state the assertion of \<^verbatim>\<open>rpkt_event_continuum\<close> does not fail; and from a consistent
  state \<^verbatim>\<open>do_rpkt_step\<close> never fails that assertion and returns a consistent state.
\<close>

theorem kappa_bf_sum_cumulative:
  "(calculate_kappa_bf_gammacontr env g mgi v = Inr (kappa_bf, g') \<longrightarrow>
      (0 < nbfcontinua env \<longrightarrow> phixslist_kappa_bf_sum g' (nbfcontinua env - 1) = kappa_bf)
      \<and> (nbfcontinua env = 0 \<longrightarrow> kappa_bf = 0)
      \<and> ((\<forall>c \<in> set (allcont (glob env)). nonneg_cont env v c) \<longrightarrow>
            (\<forall>k l. 0 \<le> k \<and> k \<le> l \<and> l < nbfcontinua env
               \<longrightarrow> phixslist_kappa_bf_sum g' k \<le> phixslist_kappa_bf_sum g' l)))
   \<and> (kappa_cache_consistent env h \<and> calculate_kappa_rpkt_cont env h pkt = Inr h' \<longrightarrow>
        kappa_bf_sum_matches env h' \<and> \<not> recalculate_required (kappa_rpkt_cont h'))
   \<and> (kappa_bf_sum_matches env h \<longrightarrow>
        rpkt_event_continuum env h pkt (kappa_rpkt_cont h) m \<noteq> Inl Assert_kappa_bf_sum)
   \<and> (kappa_cache_consistent env h \<longrightarrow>
        do_rpkt_step env h pkt t2 \<noteq> Inl Assert_kappa_bf_sum
        \<and> (\<forall>b p' h''. do_rpkt_step env h pkt t2 = Inr (b, p', h'')
              \<longrightarrow> kappa_cache_consistent env h''))"
proof -
  let ?A = "phixslist_kappa_bf_sum"
  let ?N = "nbfcontinua env"
  have mono: "?A g' k \<le> ?A g' l"
    if r: "calculate_kappa_bf_gammacontr env g mgi v = Inr (kappa_bf, g')"
      and nn: "\<forall>c \<in> set (allcont (glob env)). nonneg_cont env v c"
      and kl: "0 \<le> k \<and> k \<le> l \<and> l < ?N" for k l
  proof -
    let ?g0 = "(if \<not> NO_LUT_PHOTOION (opts env) \<or> \<not> NO_LUT_BFHEATING (opts env)
                then g\<lparr>phixslist_groundcont_gamma_contr :=
                         fold (\<lambda>gphixsindex a. a(gphixsindex := 0))
                              [0..nbfcontinua_ground (glob env) - 1]
                              (phixslist_groundcont_gamma_contr g)\<rparr>
                else g)"
    from r obtain i g1 where
      lp: "kappa_bf_loop env mgi v (allcont (glob env)) 0 0 ?g0 = Inr (i, kappa_bf, g1)"
      and a: "?A g' = fold (\<lambda>k a. a(k := kappa_bf)) [i..?N - 1] (?A g1)"
      unfolding calculate_kappa_bf_gammacontr_def Let_def
      by (auto split: sum.splits)
    have A: "\<And>k. ?A g' k = (if i \<le> k \<and> k \<le> ?N - 1 then kappa_bf else ?A g1 k)"
      unfolding a fold_fill by simp
    from kappa_bf_loop_inv[OF lp nn]
    have below: "\<And>k. 0 \<le> k \<Longrightarrow> k < i \<Longrightarrow> ?A g1 k \<le> kappa_bf"
      and mono: "\<And>k l. 0 \<le> k \<Longrightarrow> k \<le> l \<Longrightarrow> l < i \<Longrightarrow> ?A g1 k \<le> ?A g1 l"
      by simp_all
    show ?thesis
    proof (cases "i \<le> l")
      case True
      with kl have l: "?A g' l = kappa_bf" by (simp add: A)
      show ?thesis
      proof (cases "i \<le> k")
        case True
        with kl l show ?thesis by (simp add: A)
      next
        case False
        with kl have "?A g' k = ?A g1 k" by (simp add: A)
        with below[of k] False kl l show ?thesis by simp
      qed
    next
      case False
      with kl have "?A g' k = ?A g1 k" "?A g' l = ?A g1 l" by (simp_all add: A)
      with mono[of k l] False kl show ?thesis by simp
    qed
  qed
  note lst = calculate_kappa_bf_gammacontr_last(1,2)[of env g mgi v kappa_bf g']
  note cal = calculate_kappa_rpkt_cont_consistent[of env h pkt h']
  note ass = rpkt_event_continuum_assert[of env h pkt m]
  note stp = do_rpkt_step_consistent[of env h pkt t2]
  from mono lst cal ass stp show ?thesis by blast
qed

theorem kappa_bf_sum_cumulative_witness:
  "0 < nbfcontinua ex_env_bf
   \<and> list_all (nonneg_cont ex_env_bf 4000000000000000) (allcont (glob ex_env_bf))
   \<and> (case calculate_kappa_bf_gammacontr ex_env_bf ex_g 0 4000000000000000 of
         Inl e \<Rightarrow> False
       | Inr (kappa_bf, g') \<Rightarrow>
           kappa_bf = 559 / 51200000000
           \<and> map (phixslist_kappa_bf_sum g') [0, 1, 2, 3]
               = [27 / 6400000000, 27 / 6400000000, 559 / 51200000000, 559 / 51200000000]
           \<and> sorted (map (phixslist_kappa_bf_sum g') [0, 1, 2, 3])
           \<and> phixslist_kappa_bf_sum g' (nbfcontinua ex_env_bf - 1) = kappa_bf)
   \<and> kappa_cache_consistent ex_env_bf ex_g
   \<and> (case calculate_kappa_rpkt_cont ex_env_bf ex_g (ex_pkt 0 4000000000000000 0) of
         Inl e \<Rightarrow> False
       | Inr h' \<Rightarrow>
           bf (kappa_rpkt_cont h') = 559 / 51200000000
           \<and> kappa_bf_sum_matches ex_env_bf h'
           \<and> rpkt_event_continuum ex_env_bf h' (ex_pkt 0 4000000000000000 0) (kappa_rpkt_cont h') 0
               \<noteq> Inl Assert_kappa_bf_sum)
   \<and> (case do_rpkt_step ex_env_bf ex_g (ex_pkt 21 400000000000000 0) 2 of
         Inl e \<Rightarrow> False
       | Inr (b, p', h') \<Rightarrow> pkt_where p' = 20 \<and> kappa_cache_consistent ex_env_bf h')"
proof -
  let ?v = "4000000000000000 :: real"
  let ?P = "ex_pkt 0 4000000000000000 0"
  let ?Q = "ex_pkt 21 400000000000000 0"
  have n: "0 < nbfcontinua ex_env_bf"
    by (simp add: ex_env_bf_def ex_defs nbfcontinua_def)
  have nn: "list_all (nonneg_cont ex_env_bf ?v) (allcont (glob ex_env_bf))"
    by (simp add: ex_env_bf_def ex_defs nonneg_cont_def)
  have e: "map_sum id (\<lambda>(kb, g'). (kb, map (phixslist_kappa_bf_sum g') [0, 1, 2, 3]))
          (calculate_kappa_bf_gammacontr ex_env_bf ex_g 0 ?v)
        = Inr (559 / 51200000000,
               [27 / 6400000000, 27 / 6400000000, 559 / 51200000000, 559 / 51200000000])"
    by (simp add: ex_env_bf_def ex_defs kappa_defs Let_def power3_eq_cube)
  then obtain kb g' where r: "calculate_kappa_bf_gammacontr ex_env_bf ex_g 0 ?v = Inr (kb, g')"
    by (cases "calculate_kappa_bf_gammacontr ex_env_bf ex_g 0 ?v") auto
  from e r have kb: "kb = 559 / 51200000000"
    and arr: "map (phixslist_kappa_bf_sum g') [0, 1, 2, 3]
               = [27 / 6400000000, 27 / 6400000000, 559 / 51200000000, 559 / 51200000000]"
    by simp_all
  have c0: "kappa_cache_consistent ex_env_bf ex_g"
    by (simp add: kappa_cache_consistent_def ex_defs)
  have ek: "map_sum id (\<lambda>h'. bf (kappa_rpkt_cont h')) (calculate_kappa_rpkt_cont ex_env_bf ex_g ?P)
        = Inr (559 / 51200000000)"
    by (simp add: ex_env_bf_def ex_defs kappa_defs Let_def power3_eq_cube)
  then obtain h' where rk: "calculate_kappa_rpkt_cont ex_env_bf ex_g ?P = Inr h'"
    by (cases "calculate_kappa_rpkt_cont ex_env_bf ex_g ?P") auto
  from ek rk have bfv: "bf (kappa_rpkt_cont h') = 559 / 51200000000" by simp
  have es: "map_sum id (\<lambda>(b, p, h). pkt_where p) (do_rpkt_step ex_env_bf ex_g ?Q 2) = Inr 20"
    by (simp add: ex_env_bf_def ex_defs step_defs move_defs search_defs Let_def)
  then obtain b p' h'' where rs: "do_rpkt_step ex_env_bf ex_g ?Q 2 = Inr (b, p', h'')"
    by (cases "do_rpkt_step ex_env_bf ex_g ?Q 2") auto
  from es rs have pw: "pkt_where p' = 20" by simp
  note t = kappa_bf_sum_cumulative[of ex_env_bf ex_g 0 ?v kb g' ex_g ?P h' 0 2]
  from nn have nn': "\<forall>c \<in> set (allcont (glob ex_env_bf)). nonneg_cont ex_env_bf ?v c"
    by (simp add: list_all_iff)
  from t r nn' have mono: "\<And>k l. 0 \<le> k \<Longrightarrow> k \<le> l \<Longrightarrow> l < nbfcontinua ex_env_bf \<Longrightarrow>
      phixslist_kappa_bf_sum g' k \<le> phixslist_kappa_bf_sum g' l"
    by blast
  have n4: "nbfcontinua ex_env_bf = 4"
    by (simp add: ex_env_bf_def ex_defs nbfcontinua_def)
  have srt: "sorted (map (phixslist_kappa_bf_sum g') [0, 1, 2, 3])"
    using mono[of 0 1] mono[of 0 2] mono[of 0 3] mono[of 1 2] mono[of 1 3] mono[of 2 3]
    by (simp add: n4)
  from t r n have lst: "phixslist_kappa_bf_sum g' (nbfcontinua ex_env_bf - 1) = kb" by blast
  from t c0 rk have m: "kappa_bf_sum_matches ex_env_bf h'" by blast
  from kappa_bf_sum_cumulative[of ex_env_bf ex_g 0 ?v kb g' h' ?P h' 0 2] m
  have na: "rpkt_event_continuum ex_env_bf h' ?P (kappa_rpkt_cont h') 0 \<noteq> Inl Assert_kappa_bf_sum"
    by blast
  from kappa_bf_sum_cumulative[of ex_env_bf ex_g 0 ?v kb g' ex_g ?Q h' 0 2] c0 rs
  have cs: "kappa_cache_consistent ex_env_bf h''" by blast
  show ?thesis
    unfolding r[unfolded kb] rk rs sum.case prod.case
    using n nn arr srt lst[unfolded kb] c0 bfv m na pw cs by blast
qed

text \<open>
  Two continua, the second with a negative cross-section: the call returns and the second
  entry of \<^verbatim>\<open>kappa_bf_sum\<close> is below the first.
\<close>

theorem kappa_bf_sum_cumulative_counterexample:
  "map_sum id (\<lambda>(kappa_bf, g'). (kappa_bf, phixslist_kappa_bf_sum g' 0, phixslist_kappa_bf_sum g' 1))
      (calculate_kappa_bf_gammacontr ex_env_neg ex_g 0 4000000000000000)
     = Inr (- 127 / 51200000000, 27 / 6400000000, - 127 / 51200000000)
   \<and> nbfcontinua ex_env_neg = 2
   \<and> (- 127 / 51200000000 :: real) < 27 / 6400000000"
  by (simp add: ex_env_neg_def ex_defs kappa_defs Let_def power3_eq_cube)


section \<open>The continuum event\<close>

lemma lower_bound_double_range:
  "0 \<le> len \<Longrightarrow>
   first \<le> lower_bound_double a first len val \<and> lower_bound_double a first len val \<le> first + len"
proof (induction a first len val rule: lower_bound_double.induct)
  case (1 a first len val)
  show ?case
  proof (cases "0 < len")
    case False
    then have "lower_bound_double a first len val = first"
      by (subst lower_bound_double.simps) simp
    with 1(3) show ?thesis by simp
  next
    case pos: True
    show ?thesis
    proof (cases "a (first + len div 2) < val")
      case True
      have e: "lower_bound_double a first len val
               = lower_bound_double a (first + len div 2 + 1) (len - len div 2 - 1) val"
        using pos True by (subst lower_bound_double.simps) simp
      from pos have h: "0 \<le> len div 2" by simp
      from pos have "0 \<le> len - len div 2 - 1" by simp
      from 1(1)[OF pos True this] h show ?thesis unfolding e by arith
    next
      case False
      have e: "lower_bound_double a first len val = lower_bound_double a first (len div 2) val"
        using pos False by (subst lower_bound_double.simps) simp
      from pos have h: "0 \<le> len div 2" "len div 2 \<le> len" by simp_all
      from 1(2)[OF pos False h(1)] h show ?thesis unfolding e by arith
    qed
  qed
qed

lemma emitt_rpkt_returns:
  "emitt_rpkt env g pkt = Inr (p', g') \<Longrightarrow>
   pkt_type p' = TYPE_RPKT \<and> nu_cmf p' = nu_cmf pkt \<and> e_cmf p' = e_cmf pkt
   \<and> last_cross p' = NONE \<and> pos p' = pos pkt \<and> prop_time p' = prop_time pkt
   \<and> interactions p' = interactions pkt \<and> nscatterings p' = nscatterings pkt
   \<and> last_event p' = last_event pkt"
  unfolding emitt_rpkt_def
  by (auto simp: Let_def split: if_splits prod.splits)

lemma lower_bound_double_bracket:
  "0 \<le> len \<Longrightarrow> lo \<le> first \<Longrightarrow> first + len \<le> hi \<Longrightarrow>
   (lo < first \<longrightarrow> a (first - 1) < val) \<Longrightarrow>
   (first + len < hi \<longrightarrow> val \<le> a (first + len)) \<Longrightarrow>
   (lo < lower_bound_double a first len val \<longrightarrow> a (lower_bound_double a first len val - 1) < val)
   \<and> (lower_bound_double a first len val < hi \<longrightarrow> val \<le> a (lower_bound_double a first len val))"
proof (induction a first len val rule: lower_bound_double.induct)
  case (1 a first len val)
  show ?case
  proof (cases "0 < len")
    case False
    then have e: "lower_bound_double a first len val = first"
      by (subst lower_bound_double.simps) simp
    from False 1(3) have "len = 0" by simp
    with 1(6,7) show ?thesis unfolding e by simp
  next
    case pos: True
    from pos have h: "0 \<le> len div 2" "len div 2 < len" by simp_all
    show ?thesis
    proof (cases "a (first + len div 2) < val")
      case True
      have e: "lower_bound_double a first len val
               = lower_bound_double a (first + len div 2 + 1) (len - len div 2 - 1) val"
        using pos True by (subst lower_bound_double.simps) simp
      have p1: "0 \<le> len - len div 2 - 1" using h by simp
      have p2: "lo \<le> first + len div 2 + 1" using 1(4) h by simp
      have p3: "first + len div 2 + 1 + (len - len div 2 - 1) \<le> hi" using 1(5) by simp
      have p4: "lo < first + len div 2 + 1 \<longrightarrow> a (first + len div 2 + 1 - 1) < val"
        using True by simp
      have p5: "first + len div 2 + 1 + (len - len div 2 - 1) < hi
                \<longrightarrow> val \<le> a (first + len div 2 + 1 + (len - len div 2 - 1))"
        using 1(7) by simp
      from 1(1)[OF pos True p1 p2 p3 p4 p5] show ?thesis unfolding e .
    next
      case False
      have e: "lower_bound_double a first len val = lower_bound_double a first (len div 2) val"
        using pos False by (subst lower_bound_double.simps) simp
      have p3: "first + len div 2 \<le> hi" using 1(5) h by simp
      have p5: "first + len div 2 < hi \<longrightarrow> val \<le> a (first + len div 2)" using False by simp
      from 1(2)[OF pos False h(1) 1(4) p3 1(6) p5] show ?thesis unfolding e .
    qed
  qed
qed

text \<open>
  Claim C7.  In \<^verbatim>\<open>rpkt_event_continuum\<close>, with \<open>zrand\<close> the first draw and the four cached
  opacities multiplied by the one Doppler factor: if \<open>zrand * kappa_cont < sigma\<close> the
  packet is scattered by \<^verbatim>\<open>escat_rpkt\<close>, whose unit-vector assertion is the only error,
  and when the routine returns the packet is an r-packet with its \<open>nu_cmf\<close> unchanged;
  else if \<open>zrand * kappa_cont < sigma + kappa_ff\<close> it becomes a k-packet with
  \<open>absorptiontype = -1\<close>; else if \<open>zrand * kappa_cont < sigma + kappa_ff + kappa_bf\<close> the
  routine returns exactly when \<^verbatim>\<open>allcont\<close> is not empty and the last entry of
  \<^verbatim>\<open>kappa_bf_sum\<close> is the cached \<open>bf\<close>.  The continuum \<open>i\<close> is then the one
  \<^verbatim>\<open>std::lower_bound\<close> finds in \<^verbatim>\<open>kappa_bf_sum\<close> for the second draw times \<open>bf\<close>: an index
  into \<^verbatim>\<open>allcont\<close> with the entry before it below that value and, short of the last index,
  its own entry at or above it; at or above it at the last index too when the draw is at
  most 1 and \<open>bf\<close> is not negative; and with every earlier entry below the value when the
  array is non-decreasing, so that \<open>i\<close> is the first continuum whose cumulative opacity
  reaches the draw.  The packet becomes a macro-atom in the ion above, at the upper level
  of the photoionisation target, when the third draw is below \<open>nu_edge / nu\<close>, and a
  k-packet otherwise; and if none of the three comparisons holds the routine aborts.
\<close>

theorem rpkt_event_continuum_dispatch:
  fixes env g pkt cache mgi
  defines "D \<equiv> doppler_packet_nucmf_on_nurf env pkt"
    and "zrand \<equiv> gsl_rng_uniform (kin env) (rng g)"
    and "zrand2 \<equiv> gsl_rng_uniform (kin env) (rng g + 1)"
    and "zrand3 \<equiv> gsl_rng_uniform (kin env) (rng g + 2)"
    and "r \<equiv> rpkt_event_continuum env g pkt cache mgi"
    and "i \<equiv> lower_bound_double (phixslist_kappa_bf_sum g) 0 (nbfcontinua env - 1)
                 (gsl_rng_uniform (kin env) (rng g + 1) * bf cache)"
  shows "(zrand * (total cache * D) < es cache * D \<longrightarrow>
            (\<forall>e. r = Inl e \<longrightarrow> e = Assert_unitvec)
            \<and> (\<forall>p' g'. r = Inr (p', g') \<longrightarrow>
                  pkt_type p' = TYPE_RPKT \<and> nu_cmf p' = nu_cmf pkt
                  \<and> nscatterings p' = nscatterings pkt + 1 \<and> last_event p' = 12))
       \<and> (\<not> zrand * (total cache * D) < es cache * D
          \<and> zrand * (total cache * D) < es cache * D + ff cache * D \<longrightarrow>
            (\<exists>p' g'. r = Inr (p', g') \<and> pkt_type p' = TYPE_KPKT \<and> absorptiontype p' = - 1
                     \<and> last_event p' = 5))
       \<and> (\<not> zrand * (total cache * D) < es cache * D
          \<and> \<not> zrand * (total cache * D) < es cache * D + ff cache * D
          \<and> zrand * (total cache * D) < es cache * D + ff cache * D + bf cache * D \<longrightarrow>
            ((\<exists>p' g'. r = Inr (p', g'))
               \<longleftrightarrow> 0 < nbfcontinua env
                   \<and> phixslist_kappa_bf_sum g (nbfcontinua env - 1) = bf cache)
            \<and> (\<forall>p' g'. r = Inr (p', g') \<longrightarrow>
                  0 \<le> i \<and> i < nbfcontinua env \<and> absorptiontype p' = - 2
                  \<and> (0 < i \<longrightarrow> phixslist_kappa_bf_sum g (i - 1) < zrand2 * bf cache)
                  \<and> (i < nbfcontinua env - 1 \<longrightarrow> zrand2 * bf cache \<le> phixslist_kappa_bf_sum g i)
                  \<and> (zrand2 \<le> 1 \<and> 0 \<le> bf cache \<longrightarrow> zrand2 * bf cache \<le> phixslist_kappa_bf_sum g i)
                  \<and> ((\<forall>k l. 0 \<le> k \<and> k \<le> l \<and> l < nbfcontinua env
                          \<longrightarrow> phixslist_kappa_bf_sum g k \<le> phixslist_kappa_bf_sum g l)
                      \<longrightarrow> (\<forall>k. 0 \<le> k \<and> k < i \<longrightarrow> phixslist_kappa_bf_sum g k < zrand2 * bf cache))
                  \<and> (if zrand3 < nu_edge (allcont (glob env) ! nat i) / nu_cmf pkt
                      then pkt_type p' = TYPE_MA \<and> last_event p' = 3
                           \<and> mastate p' =
                               \<lparr>ma_element = element (allcont (glob env) ! nat i),
                                ma_ion = ion (allcont (glob env) ! nat i) + 1,
                                ma_level = get_phixsupperlevel (atom env)
                                   (element (allcont (glob env) ! nat i))
                                   (ion (allcont (glob env) ! nat i))
                                   (level (allcont (glob env) ! nat i))
                                   (phixstargetindex (allcont (glob env) ! nat i)),
                                ma_activatingline = - 99\<rparr>
                      else pkt_type p' = TYPE_KPKT \<and> last_event p' = 4)))
       \<and> (\<not> zrand * (total cache * D) < es cache * D
          \<and> \<not> zrand * (total cache * D) < es cache * D + ff cache * D
          \<and> \<not> zrand * (total cache * D) < es cache * D + ff cache * D + bf cache * D \<longrightarrow>
            r = Inl Abort_continuum_process)"
proof -
  let ?A = "phixslist_kappa_bf_sum"
  let ?N = "nbfcontinua env"
  have es: "(\<forall>e. r = Inl e \<longrightarrow> e = Assert_unitvec)
            \<and> (\<forall>p' g'. r = Inr (p', g') \<longrightarrow>
                  pkt_type p' = TYPE_RPKT \<and> nu_cmf p' = nu_cmf pkt
                  \<and> nscatterings p' = nscatterings pkt + 1 \<and> last_event p' = 12)"
    if "zrand * (total cache * D) < es cache * D"
    using that unfolding r_def rpkt_event_continuum_def Let_def escat_rpkt_def D_def zrand_def
    by (auto split: sum.splits dest!: emitt_rpkt_error emitt_rpkt_returns)
  have ff: "\<exists>p' g'. r = Inr (p', g') \<and> pkt_type p' = TYPE_KPKT \<and> absorptiontype p' = - 1
                     \<and> last_event p' = 5"
    if "\<not> zrand * (total cache * D) < es cache * D"
       "zrand * (total cache * D) < es cache * D + ff cache * D"
    using that unfolding r_def rpkt_event_continuum_def Let_def D_def zrand_def
    by simp
  have none: "r = Inl Abort_continuum_process"
    if "\<not> zrand * (total cache * D) < es cache * D"
       "\<not> zrand * (total cache * D) < es cache * D + ff cache * D"
       "\<not> zrand * (total cache * D) < es cache * D + ff cache * D + bf cache * D"
    using that unfolding r_def rpkt_event_continuum_def Let_def D_def zrand_def
    by simp
  have rng: "0 \<le> i \<and> i \<le> ?N - 1" if "0 < ?N"
    using lower_bound_double_range[of "?N - 1" 0 "?A g" "zrand2 * bf cache"] that
    unfolding i_def zrand2_def by simp
  have bf: "((\<exists>p' g'. r = Inr (p', g'))
               \<longleftrightarrow> 0 < ?N \<and> ?A g (?N - 1) = bf cache)
            \<and> (\<forall>p' g'. r = Inr (p', g') \<longrightarrow>
                  0 \<le> i \<and> i < ?N \<and> absorptiontype p' = - 2
                  \<and> (0 < i \<longrightarrow> ?A g (i - 1) < zrand2 * bf cache)
                  \<and> (i < ?N - 1 \<longrightarrow> zrand2 * bf cache \<le> ?A g i)
                  \<and> (zrand2 \<le> 1 \<and> 0 \<le> bf cache \<longrightarrow> zrand2 * bf cache \<le> ?A g i)
                  \<and> ((\<forall>k l. 0 \<le> k \<and> k \<le> l \<and> l < ?N \<longrightarrow> ?A g k \<le> ?A g l)
                      \<longrightarrow> (\<forall>k. 0 \<le> k \<and> k < i \<longrightarrow> ?A g k < zrand2 * bf cache))
                  \<and> (if zrand3 < nu_edge (allcont (glob env) ! nat i) / nu_cmf pkt
                      then pkt_type p' = TYPE_MA \<and> last_event p' = 3
                           \<and> mastate p' =
                               \<lparr>ma_element = element (allcont (glob env) ! nat i),
                                ma_ion = ion (allcont (glob env) ! nat i) + 1,
                                ma_level = get_phixsupperlevel (atom env)
                                   (element (allcont (glob env) ! nat i))
                                   (ion (allcont (glob env) ! nat i))
                                   (level (allcont (glob env) ! nat i))
                                   (phixstargetindex (allcont (glob env) ! nat i)),
                                ma_activatingline = - 99\<rparr>
                      else pkt_type p' = TYPE_KPKT \<and> last_event p' = 4))"
    if c: "\<not> zrand * (total cache * D) < es cache * D"
       "\<not> zrand * (total cache * D) < es cache * D + ff cache * D"
       "zrand * (total cache * D) < es cache * D + ff cache * D + bf cache * D"
  proof (cases "0 < ?N \<and> ?A g (?N - 1) = bf cache")
    case False
    then have "r = Inl OutOfRange \<or> r = Inl Assert_kappa_bf_sum"
      using c unfolding r_def rpkt_event_continuum_def Let_def D_def zrand_def
      by auto
    with False show ?thesis by auto
  next
    case True
    with rng have ir: "0 \<le> i" "i < ?N" by simp_all
    from True have N1: "0 \<le> ?N - 1" by simp
    from lower_bound_double_bracket[OF N1, of 0 0 "?N - 1" "?A g" "zrand2 * bf cache"]
    have br: "0 < i \<longrightarrow> ?A g (i - 1) < zrand2 * bf cache"
      "i < ?N - 1 \<longrightarrow> zrand2 * bf cache \<le> ?A g i"
      unfolding i_def zrand2_def by simp_all
    have top: "zrand2 * bf cache \<le> ?A g i" if "zrand2 \<le> 1" "0 \<le> bf cache"
    proof (cases "i < ?N - 1")
      case inner: True
      with br(2) show ?thesis by simp
    next
      case False
      with ir have "i = ?N - 1" by simp
      with True have "?A g i = bf cache" by simp
      moreover from that have "zrand2 * bf cache \<le> 1 * bf cache" by (intro mult_right_mono) simp_all
      ultimately show ?thesis by simp
    qed
    have least: "?A g k < zrand2 * bf cache"
      if mono: "\<forall>k l. 0 \<le> k \<and> k \<le> l \<and> l < ?N \<longrightarrow> ?A g k \<le> ?A g l" and k: "0 \<le> k \<and> k < i" for k
    proof -
      from k have "0 < i" by simp
      with br(1) have a: "?A g (i - 1) < zrand2 * bf cache" by simp
      from mono k ir have "?A g k \<le> ?A g (i - 1)" by simp
      with a show ?thesis by simp
    qed
    from ir have ac: "allcont_at env i = Inr (allcont (glob env) ! nat i)"
      by (simp add: allcont_at_def)
    have i': "lower_bound_double (?A g) 0 (?N - 1)
                (gsl_rng_uniform (kin env) (Suc (rng g)) * bf cache) = i"
      by (simp add: i_def)
    have z3: "gsl_rng_uniform (kin env) (Suc (Suc (rng g))) = zrand3"
      by (simp add: zrand3_def)
    show ?thesis
    proof (cases "TRACK_ION_STATS (opts env)")
      case t: True
      have "((\<exists>p' g'. r = Inr (p', g')) \<longleftrightarrow> 0 < ?N \<and> ?A g (?N - 1) = bf cache)
            \<and> (\<forall>p' g'. r = Inr (p', g') \<longrightarrow>
                  0 \<le> i \<and> i < ?N \<and> absorptiontype p' = - 2
                  \<and> (if zrand3 < nu_edge (allcont (glob env) ! nat i) / nu_cmf pkt
                      then pkt_type p' = TYPE_MA \<and> last_event p' = 3
                           \<and> mastate p' =
                               \<lparr>ma_element = element (allcont (glob env) ! nat i),
                                ma_ion = ion (allcont (glob env) ! nat i) + 1,
                                ma_level = get_phixsupperlevel (atom env)
                                   (element (allcont (glob env) ! nat i))
                                   (ion (allcont (glob env) ! nat i))
                                   (level (allcont (glob env) ! nat i))
                                   (phixstargetindex (allcont (glob env) ! nat i)),
                                ma_activatingline = - 99\<rparr>
                      else pkt_type p' = TYPE_KPKT \<and> last_event p' = 4))"
        using c True ir
        unfolding r_def rpkt_event_continuum_def Let_def D_def zrand_def
        by (simp add: i' ac z3 t)
      with br top least show ?thesis by blast
    next
      case t: False
      have "((\<exists>p' g'. r = Inr (p', g')) \<longleftrightarrow> 0 < ?N \<and> ?A g (?N - 1) = bf cache)
            \<and> (\<forall>p' g'. r = Inr (p', g') \<longrightarrow>
                  0 \<le> i \<and> i < ?N \<and> absorptiontype p' = - 2
                  \<and> (if zrand3 < nu_edge (allcont (glob env) ! nat i) / nu_cmf pkt
                      then pkt_type p' = TYPE_MA \<and> last_event p' = 3
                           \<and> mastate p' =
                               \<lparr>ma_element = element (allcont (glob env) ! nat i),
                                ma_ion = ion (allcont (glob env) ! nat i) + 1,
                                ma_level = get_phixsupperlevel (atom env)
                                   (element (allcont (glob env) ! nat i))
                                   (ion (allcont (glob env) ! nat i))
                                   (level (allcont (glob env) ! nat i))
                                   (phixstargetindex (allcont (glob env) ! nat i)),
                                ma_activatingline = - 99\<rparr>
                      else pkt_type p' = TYPE_KPKT \<and> last_event p' = 4))"
        using c True ir
        unfolding r_def rpkt_event_continuum_def Let_def D_def zrand_def
        by (simp add: i' ac z3 t)
      with br top least show ?thesis by blast
    qed
  qed
  from es ff bf none show ?thesis by blast
qed

lemmas cont_defs = cont_outcome_def ex_cache_def rpkt_event_continuum_def escat_rpkt_def
  emitt_rpkt_def vec_len_def vec_norm_def nbfcontinua_def lower_bound_double.simps allcont_at_def

theorem rpkt_event_continuum_dispatch_witness:
  "cont_outcome (rpkt_event_continuum ex_env ex_g (ex_pkt 0 4000000000000000 0) (ex_cache 1 0 0) 0)
     = Inr (TYPE_RPKT, 4000000000000000, 12, 0,
            \<lparr>ma_element = 0, ma_ion = 0, ma_level = 0, ma_activatingline = 0\<rparr>)
   \<and> cont_outcome (rpkt_event_continuum ex_env ex_g (ex_pkt 0 4000000000000000 0) (ex_cache 0 1 0) 0)
     = Inr (TYPE_KPKT, 4000000000000000, 5, - 1,
            \<lparr>ma_element = 0, ma_ion = 0, ma_level = 0, ma_activatingline = 0\<rparr>)
   \<and> cont_outcome (rpkt_event_continuum ex_env (ex_g\<lparr>phixslist_kappa_bf_sum := (\<lambda>i. 1)\<rparr>)
        (ex_pkt 0 4000000000000000 0) (ex_cache 0 0 1) 0)
     = Inr (TYPE_MA, 4000000000000000, 3, - 2,
            \<lparr>ma_element = 0, ma_ion = 1, ma_level = 0, ma_activatingline = - 99\<rparr>)
   \<and> cont_outcome (rpkt_event_continuum ex_env (ex_g\<lparr>phixslist_kappa_bf_sum := (\<lambda>i. 1)\<rparr>)
        (ex_pkt 0 8000000000000000 0) (ex_cache 0 0 1) 0)
     = Inr (TYPE_KPKT, 8000000000000000, 4, - 2,
            \<lparr>ma_element = 0, ma_ion = 0, ma_level = 0, ma_activatingline = 0\<rparr>)
   \<and> rpkt_event_continuum ex_env ex_g (ex_pkt 0 4000000000000000 0) (ex_cache 0 0 0) 0
     = Inl Abort_continuum_process
   \<and> (case calculate_kappa_rpkt_cont ex_env_bf ex_g (ex_pkt 0 4000000000000000 0) of
         Inl e \<Rightarrow> False
       | Inr h \<Rightarrow>
           map (phixslist_kappa_bf_sum h) [0, 1, 2, 3]
             = [27 / 6400000000, 27 / 6400000000, 559 / 51200000000, 559 / 51200000000]
           \<and> gsl_rng_uniform (kin ex_env_bf) (rng h + 1) * bf (kappa_rpkt_cont h)
               = 559 / 102400000000
           \<and> lower_bound_double (phixslist_kappa_bf_sum h) 0 (nbfcontinua ex_env_bf - 1)
                (gsl_rng_uniform (kin ex_env_bf) (rng h + 1) * bf (kappa_rpkt_cont h)) = 2
           \<and> map_sum id (\<lambda>(p, g). (pkt_type p, last_event p, absorptiontype p, mastate p))
                 (rpkt_event_continuum ex_env_bf h (ex_pkt 0 4000000000000000 0)
                    (kappa_rpkt_cont h) 0)
               = Inr (TYPE_MA, 3, - 2,
                      \<lparr>ma_element = 0, ma_ion = 1, ma_level = 3, ma_activatingline = - 99\<rparr>))"
proof -
  let ?P = "ex_pkt 0 4000000000000000 0"
  let ?G = "ex_g\<lparr>phixslist_kappa_bf_sum := (\<lambda>i. 1)\<rparr>"
  have a: "cont_outcome (rpkt_event_continuum ex_env ex_g ?P (ex_cache 1 0 0) 0)
     = Inr (TYPE_RPKT, 4000000000000000, 12, 0,
            \<lparr>ma_element = 0, ma_ion = 0, ma_level = 0, ma_activatingline = 0\<rparr>)"
    by (simp add: cont_defs ex_defs move_defs Let_def)
  have b: "cont_outcome (rpkt_event_continuum ex_env ex_g ?P (ex_cache 0 1 0) 0)
     = Inr (TYPE_KPKT, 4000000000000000, 5, - 1,
            \<lparr>ma_element = 0, ma_ion = 0, ma_level = 0, ma_activatingline = 0\<rparr>)"
    by (simp add: cont_defs ex_defs move_defs Let_def)
  have c: "cont_outcome (rpkt_event_continuum ex_env ?G ?P (ex_cache 0 0 1) 0)
     = Inr (TYPE_MA, 4000000000000000, 3, - 2,
            \<lparr>ma_element = 0, ma_ion = 1, ma_level = 0, ma_activatingline = - 99\<rparr>)"
    by (simp add: cont_defs ex_defs move_defs Let_def)
  have d: "cont_outcome (rpkt_event_continuum ex_env ?G (ex_pkt 0 8000000000000000 0) (ex_cache 0 0 1) 0)
     = Inr (TYPE_KPKT, 8000000000000000, 4, - 2,
            \<lparr>ma_element = 0, ma_ion = 0, ma_level = 0, ma_activatingline = 0\<rparr>)"
    by (simp add: cont_defs ex_defs move_defs Let_def)
  have h: "\<not> gsl_rng_uniform (kin ex_env) (rng ex_g)
               * (total (ex_cache 0 0 0) * doppler_packet_nucmf_on_nurf ex_env ?P)
             < es (ex_cache 0 0 0) * doppler_packet_nucmf_on_nurf ex_env ?P"
    "\<not> gsl_rng_uniform (kin ex_env) (rng ex_g)
               * (total (ex_cache 0 0 0) * doppler_packet_nucmf_on_nurf ex_env ?P)
             < es (ex_cache 0 0 0) * doppler_packet_nucmf_on_nurf ex_env ?P
               + ff (ex_cache 0 0 0) * doppler_packet_nucmf_on_nurf ex_env ?P"
    "\<not> gsl_rng_uniform (kin ex_env) (rng ex_g)
               * (total (ex_cache 0 0 0) * doppler_packet_nucmf_on_nurf ex_env ?P)
             < es (ex_cache 0 0 0) * doppler_packet_nucmf_on_nurf ex_env ?P
               + ff (ex_cache 0 0 0) * doppler_packet_nucmf_on_nurf ex_env ?P
               + bf (ex_cache 0 0 0) * doppler_packet_nucmf_on_nurf ex_env ?P"
    by (simp_all add: ex_cache_def ex_defs move_defs)
  from rpkt_event_continuum_dispatch[where env = ex_env and g = ex_g and pkt = "?P"
         and cache = "ex_cache 0 0 0" and mgi = 0] h
  have e: "rpkt_event_continuum ex_env ex_g ?P (ex_cache 0 0 0) 0 = Inl Abort_continuum_process"
    by blast
  have ha: "gsl_rng_uniform (kin ex_env) (rng ex_g)
               * (total (ex_cache 1 0 0) * doppler_packet_nucmf_on_nurf ex_env ?P)
             < es (ex_cache 1 0 0) * doppler_packet_nucmf_on_nurf ex_env ?P"
    by (simp add: ex_cache_def ex_defs move_defs)
  from rpkt_event_continuum_dispatch[where env = ex_env and g = ex_g and pkt = "?P"
         and cache = "ex_cache 1 0 0" and mgi = 0] ha
  have a': "\<forall>p' g'. rpkt_event_continuum ex_env ex_g ?P (ex_cache 1 0 0) 0 = Inr (p', g')
              \<longrightarrow> pkt_type p' = TYPE_RPKT \<and> nu_cmf p' = nu_cmf ?P"
    by blast
  have hb: "\<not> gsl_rng_uniform (kin ex_env) (rng ex_g)
               * (total (ex_cache 0 1 0) * doppler_packet_nucmf_on_nurf ex_env ?P)
             < es (ex_cache 0 1 0) * doppler_packet_nucmf_on_nurf ex_env ?P"
    "gsl_rng_uniform (kin ex_env) (rng ex_g)
               * (total (ex_cache 0 1 0) * doppler_packet_nucmf_on_nurf ex_env ?P)
             < es (ex_cache 0 1 0) * doppler_packet_nucmf_on_nurf ex_env ?P
               + ff (ex_cache 0 1 0) * doppler_packet_nucmf_on_nurf ex_env ?P"
    by (simp_all add: ex_cache_def ex_defs move_defs)
  from rpkt_event_continuum_dispatch[where env = ex_env and g = ex_g and pkt = "?P"
         and cache = "ex_cache 0 1 0" and mgi = 0] hb
  have b': "\<exists>p' g'. rpkt_event_continuum ex_env ex_g ?P (ex_cache 0 1 0) 0 = Inr (p', g')
              \<and> pkt_type p' = TYPE_KPKT \<and> absorptiontype p' = - 1"
    by blast
  have hc: "\<not> gsl_rng_uniform (kin ex_env) (rng ?G)
               * (total (ex_cache 0 0 1) * doppler_packet_nucmf_on_nurf ex_env ?P)
             < es (ex_cache 0 0 1) * doppler_packet_nucmf_on_nurf ex_env ?P"
    "\<not> gsl_rng_uniform (kin ex_env) (rng ?G)
               * (total (ex_cache 0 0 1) * doppler_packet_nucmf_on_nurf ex_env ?P)
             < es (ex_cache 0 0 1) * doppler_packet_nucmf_on_nurf ex_env ?P
               + ff (ex_cache 0 0 1) * doppler_packet_nucmf_on_nurf ex_env ?P"
    "gsl_rng_uniform (kin ex_env) (rng ?G)
               * (total (ex_cache 0 0 1) * doppler_packet_nucmf_on_nurf ex_env ?P)
             < es (ex_cache 0 0 1) * doppler_packet_nucmf_on_nurf ex_env ?P
               + ff (ex_cache 0 0 1) * doppler_packet_nucmf_on_nurf ex_env ?P
               + bf (ex_cache 0 0 1) * doppler_packet_nucmf_on_nurf ex_env ?P"
    "0 < nbfcontinua ex_env"
    "phixslist_kappa_bf_sum ?G (nbfcontinua ex_env - 1) = bf (ex_cache 0 0 1)"
    by (simp_all add: ex_cache_def ex_defs move_defs nbfcontinua_def)
  from rpkt_event_continuum_dispatch[where env = ex_env and g = "?G" and pkt = "?P"
         and cache = "ex_cache 0 0 1" and mgi = 0] hc
  have c': "\<exists>p' g'. rpkt_event_continuum ex_env ?G ?P (ex_cache 0 0 1) 0 = Inr (p', g')"
    by blast
  have ek: "map_sum id (\<lambda>h. (map (phixslist_kappa_bf_sum h) [0, 1, 2, 3], bf (kappa_rpkt_cont h),
                                total (kappa_rpkt_cont h), es (kappa_rpkt_cont h),
                                ff (kappa_rpkt_cont h), rng h))
               (calculate_kappa_rpkt_cont ex_env_bf ex_g ?P)
        = Inr ([27 / 6400000000, 27 / 6400000000, 559 / 51200000000, 559 / 51200000000],
               559 / 51200000000, 16631 / 250000000000000 + 559 / 51200000000,
               16631 / 250000000000000, 0, 0)"
    by (simp add: ex_env_bf_def ex_defs kappa_defs Let_def power3_eq_cube)
  then obtain h where rk: "calculate_kappa_rpkt_cont ex_env_bf ex_g ?P = Inr h"
    by (cases "calculate_kappa_rpkt_cont ex_env_bf ex_g ?P") auto
  from ek rk have arr: "map (phixslist_kappa_bf_sum h) [0, 1, 2, 3]
             = [27 / 6400000000, 27 / 6400000000, 559 / 51200000000, 559 / 51200000000]"
    and bfv: "bf (kappa_rpkt_cont h) = 559 / 51200000000"
    and tot: "total (kappa_rpkt_cont h) = 16631 / 250000000000000 + 559 / 51200000000"
    and esv: "es (kappa_rpkt_cont h) = 16631 / 250000000000000"
    and ffv: "ff (kappa_rpkt_cont h) = 0"
    and rg: "rng h = 0"
    by simp_all
  from arr have A: "phixslist_kappa_bf_sum h 0 = 27 / 6400000000"
    "phixslist_kappa_bf_sum h 1 = 27 / 6400000000"
    "phixslist_kappa_bf_sum h 2 = 559 / 51200000000"
    "phixslist_kappa_bf_sum h 3 = 559 / 51200000000" by simp_all
  have z: "gsl_rng_uniform (kin ex_env_bf) n = 1 / 2" for n
    by (simp add: ex_env_bf_def ex_defs)
  have Dv: "doppler_packet_nucmf_on_nurf ex_env_bf ?P = 1"
    by (simp add: ex_env_bf_def ex_defs move_defs)
  have n4: "nbfcontinua ex_env_bf = 4"
    by (simp add: ex_env_bf_def ex_defs nbfcontinua_def)
  have val: "gsl_rng_uniform (kin ex_env_bf) (rng h + 1) * bf (kappa_rpkt_cont h)
               = 559 / 102400000000"
    by (simp add: z bfv)
  have idx: "lower_bound_double (phixslist_kappa_bf_sum h) 0 (nbfcontinua ex_env_bf - 1)
                (gsl_rng_uniform (kin ex_env_bf) (rng h + 1) * bf (kappa_rpkt_cont h)) = 2"
    unfolding val n4 by (simp add: lower_bound_double.simps A)
  have hbf: "\<not> gsl_rng_uniform (kin ex_env_bf) (rng h)
               * (total (kappa_rpkt_cont h) * doppler_packet_nucmf_on_nurf ex_env_bf ?P)
             < es (kappa_rpkt_cont h) * doppler_packet_nucmf_on_nurf ex_env_bf ?P"
    "\<not> gsl_rng_uniform (kin ex_env_bf) (rng h)
               * (total (kappa_rpkt_cont h) * doppler_packet_nucmf_on_nurf ex_env_bf ?P)
             < es (kappa_rpkt_cont h) * doppler_packet_nucmf_on_nurf ex_env_bf ?P
               + ff (kappa_rpkt_cont h) * doppler_packet_nucmf_on_nurf ex_env_bf ?P"
    "gsl_rng_uniform (kin ex_env_bf) (rng h)
               * (total (kappa_rpkt_cont h) * doppler_packet_nucmf_on_nurf ex_env_bf ?P)
             < es (kappa_rpkt_cont h) * doppler_packet_nucmf_on_nurf ex_env_bf ?P
               + ff (kappa_rpkt_cont h) * doppler_packet_nucmf_on_nurf ex_env_bf ?P
               + bf (kappa_rpkt_cont h) * doppler_packet_nucmf_on_nurf ex_env_bf ?P"
    "0 < nbfcontinua ex_env_bf"
    "phixslist_kappa_bf_sum h (nbfcontinua ex_env_bf - 1) = bf (kappa_rpkt_cont h)"
    by (simp_all add: z Dv tot esv ffv bfv n4 A)
  note t = rpkt_event_continuum_dispatch[where env = ex_env_bf and g = h and pkt = "?P"
         and cache = "kappa_rpkt_cont h" and mgi = 0]
  from t hbf obtain p' g' where
    rr: "rpkt_event_continuum ex_env_bf h ?P (kappa_rpkt_cont h) 0 = Inr (p', g')"
    by blast
  have c2: "allcont (glob ex_env_bf) ! nat 2
            = ex_cont\<lparr>nu_edge := 3500000000000000, phixstargetindex := 3\<rparr>"
    by (simp add: ex_env_bf_def ex_defs)
  have z3: "gsl_rng_uniform (kin ex_env_bf) (rng h + 2)
            < nu_edge (allcont (glob ex_env_bf) ! nat 2) / nu_cmf ?P"
    unfolding c2 by (simp add: z ex_defs)
  from t hbf rr
  have post: "absorptiontype p' = - 2
        \<and> (if gsl_rng_uniform (kin ex_env_bf) (rng h + 2)
                 < nu_edge (allcont (glob ex_env_bf) ! nat 2) / nu_cmf ?P
            then pkt_type p' = TYPE_MA \<and> last_event p' = 3
                 \<and> mastate p' =
                       \<lparr>ma_element = element (allcont (glob ex_env_bf) ! nat 2),
                        ma_ion = ion (allcont (glob ex_env_bf) ! nat 2) + 1,
                        ma_level = get_phixsupperlevel (atom ex_env_bf)
                           (element (allcont (glob ex_env_bf) ! nat 2))
                           (ion (allcont (glob ex_env_bf) ! nat 2))
                           (level (allcont (glob ex_env_bf) ! nat 2))
                           (phixstargetindex (allcont (glob ex_env_bf) ! nat 2)),
                        ma_activatingline = - 99\<rparr>
            else pkt_type p' = TYPE_KPKT \<and> last_event p' = 4)"
    unfolding idx by blast
  with z3 have post': "absorptiontype p' = - 2 \<and> pkt_type p' = TYPE_MA \<and> last_event p' = 3
        \<and> mastate p' = \<lparr>ma_element = 0, ma_ion = 1, ma_level = 3, ma_activatingline = - 99\<rparr>"
    unfolding c2 by (simp add: ex_env_bf_def ex_defs)
  from post' have f: "map_sum id (\<lambda>(p, g). (pkt_type p, last_event p, absorptiontype p, mastate p))
                        (rpkt_event_continuum ex_env_bf h ?P (kappa_rpkt_cont h) 0)
               = Inr (TYPE_MA, 3, - 2,
                      \<lparr>ma_element = 0, ma_ion = 1, ma_level = 3, ma_activatingline = - 99\<rparr>)"
    unfolding rr by simp
  show ?thesis
    unfolding rk sum.case
    using a a' b b' c c' d e arr val idx f by blast
qed


section \<open>Emission of an r-packet\<close>

lemma dot_vec_scale: "dot (vec_scale k x) y = k * dot x y"
proof -
  obtain a b c where x: "x = (a, b, c)" by (cases x) auto
  obtain d e f where y: "y = (d, e, f)" by (cases y) auto
  show ?thesis unfolding x y by (simp add: algebra_simps)
qed

lemma dot_vec_scale_self: "dot (vec_scale k x) (vec_scale k x) = k * k * dot x x"
proof -
  obtain a b c where x: "x = (a, b, c)" by (cases x) auto
  show ?thesis unfolding x by (simp add: algebra_simps)
qed

lemma vec_norm_unit:
  assumes "0 < dot x x"
  shows "vec_len (vec_norm x) = 1"
proof -
  let ?s = "dot x x"
  from assms have L: "sqrt ?s * sqrt ?s = ?s" by simp
  have "dot (vec_norm x) (vec_norm x) = (1 / sqrt ?s) * (1 / sqrt ?s) * ?s"
    unfolding vec_norm_def vec_len_def by (rule dot_vec_scale_self)
  also have "\<dots> = ?s / (sqrt ?s * sqrt ?s)" by simp
  also have "\<dots> = 1" using assms unfolding L by simp
  finally show ?thesis by (simp add: vec_len_def)
qed

lemma vec_norm_orthogonal:
  assumes "dot x y = 0"
  shows "dot (vec_norm x) y = 0"
  unfolding vec_norm_def dot_vec_scale using assms by simp

lemma cross_prod_orthogonal: "dot (cross_prod x y) x = 0"
proof -
  obtain a b c where x: "x = (a, b, c)" by (cases x) auto
  obtain d e f where y: "y = (d, e, f)" by (cases y) auto
  show ?thesis unfolding x y by (simp add: algebra_simps)
qed

lemma pol_dir_nonzero:
  assumes u: "\<bar>vec_len d - 1\<bar> < 0.00000001"
    and z: "dot (cross_prod d (0, 0, 1)) (cross_prod d (0, 0, 1)) < 0.00000001"
  shows "0 < dot (cross_prod d (0, 1, 0)) (cross_prod d (0, 1, 0))"
proof -
  obtain a b c where d: "d = (a, b, c)" by (cases d) auto
  from z have ab: "a * a + b * b < 0.00000001" unfolding d by (simp add: algebra_simps)
  have nn: "0 \<le> c * c + a * a" by simp
  show ?thesis
  proof (rule ccontr)
    assume "\<not> ?thesis"
    then have "c * c + a * a \<le> 0" unfolding d by (simp add: algebra_simps)
    then have c0: "c = 0" and a0: "a = 0" unfolding sum_squares_le_zero_iff by simp_all
    from ab a0 have b: "b * b < 0.00000001" by simp
    have "vec_len d = sqrt (b * b)" unfolding vec_len_def d using a0 c0 by simp
    also have "\<dots> = \<bar>b\<bar>" by (simp add: power2_eq_square[symmetric])
    finally have l: "vec_len d = \<bar>b\<bar>" .
    have "\<bar>b\<bar> < 1 / 2"
    proof (rule ccontr)
      assume "\<not> \<bar>b\<bar> < 1 / 2"
      then have "1 / 2 \<le> \<bar>b\<bar>" by simp
      then have "(1 / 2) * (1 / 2) \<le> \<bar>b\<bar> * \<bar>b\<bar>" by (intro mult_mono) simp_all
      then have "1 / 4 \<le> b * b" by simp
      with b show False by simp
    qed
    with u l show False by simp
  qed
qed


text \<open>
  Claim C9.  \<^verbatim>\<open>emitt_rpkt\<close> returns exactly when the aberrated direction has a length
  within \<open>10\<^sup>-\<^sup>8\<close> of 1.  When it returns, the packet is an r-packet with
  \<open>last_cross = NONE\<close> and that direction, at the same position and time; \<open>nu_rf\<close> and
  \<open>e_rf\<close> are \<open>nu_cmf\<close> and \<open>e_cmf\<close> divided by the Doppler factor of the new position,
  direction and time; \<open>nu_cmf\<close> and \<open>e_cmf\<close> are unchanged; the Stokes vector is
  \<open>(1, 0, 0)\<close>; and \<open>pol_dir\<close> is the normalised cross product of the direction with the
  \<open>z\<close> axis, or with the \<open>y\<close> axis when the former has a squared length below \<open>10\<^sup>-\<^sup>8\<close>,
  and is a unit vector orthogonal to the direction.
\<close>

theorem emitt_rpkt_postcondition:
  fixes env g pkt
  defines "newdir \<equiv> angle_ab (kin env) (fst (get_rand_isotropic_unitvec (kin env) (rng g)))
                       (get_velocity (kin env) (pos pkt) (- 1 * prop_time pkt))"
  shows "((\<exists>p' g'. emitt_rpkt env g pkt = Inr (p', g')) \<longleftrightarrow> \<bar>vec_len newdir - 1\<bar> < 0.00000001)
       \<and> (\<forall>p' g'. emitt_rpkt env g pkt = Inr (p', g') \<longrightarrow>
             pkt_type p' = TYPE_RPKT \<and> last_cross p' = NONE
             \<and> dir p' = newdir \<and> pos p' = pos pkt \<and> prop_time p' = prop_time pkt
             \<and> \<bar>vec_len (dir p') - 1\<bar> < 0.00000001
             \<and> nu_rf p' = nu_cmf pkt / doppler_packet_nucmf_on_nurf env p'
             \<and> e_rf p' = e_cmf pkt / doppler_packet_nucmf_on_nurf env p'
             \<and> nu_cmf p' = nu_cmf pkt \<and> e_cmf p' = e_cmf pkt
             \<and> stokes p' = (1, 0, 0)
             \<and> pol_dir p' =
                 vec_norm (if dot (cross_prod (dir p') (0, 0, 1)) (cross_prod (dir p') (0, 0, 1))
                               < 0.00000001
                           then cross_prod (dir p') (0, 1, 0)
                           else cross_prod (dir p') (0, 0, 1))
             \<and> vec_len (pol_dir p') = 1
             \<and> dot (pol_dir p') (dir p') = 0)"
proof -
  obtain dir_cmf rng1 where iso: "get_rand_isotropic_unitvec (kin env) (rng g) = (dir_cmf, rng1)"
    by (cases "get_rand_isotropic_unitvec (kin env) (rng g)") auto
  then have nd: "newdir = angle_ab (kin env) dir_cmf
                            (get_velocity (kin env) (pos pkt) (- 1 * prop_time pkt))"
    unfolding newdir_def by simp
  let ?z = "cross_prod newdir (0, 0, 1)"
  let ?y = "cross_prod newdir (0, 1, 0)"
  let ?c = "if dot ?z ?z < 0.00000001 then ?y else ?z"
  let ?p2 = "pkt\<lparr>pkt_type := TYPE_RPKT, last_cross := NONE, dir := newdir\<rparr>"
  let ?D = "doppler_packet_nucmf_on_nurf env ?p2"
  let ?p' = "?p2\<lparr>nu_rf := nu_cmf pkt / ?D, e_rf := e_cmf pkt / ?D, stokes := (1, 0, 0),
                  pol_dir := vec_norm ?c\<rparr>"
  have e: "emitt_rpkt env g pkt =
           (if \<not> \<bar>vec_len newdir - 1\<bar> < 0.00000001 then Inl Assert_unitvec
            else Inr (?p', g\<lparr>rng := rng1\<rparr>))"
    unfolding emitt_rpkt_def Let_def iso prod.case nd by simp
  have ret: "(\<exists>p' g'. emitt_rpkt env g pkt = Inr (p', g')) \<longleftrightarrow> \<bar>vec_len newdir - 1\<bar> < 0.00000001"
    unfolding e by simp
  have post: "pkt_type p' = TYPE_RPKT \<and> last_cross p' = NONE
             \<and> dir p' = newdir \<and> pos p' = pos pkt \<and> prop_time p' = prop_time pkt
             \<and> \<bar>vec_len (dir p') - 1\<bar> < 0.00000001
             \<and> nu_rf p' = nu_cmf pkt / doppler_packet_nucmf_on_nurf env p'
             \<and> e_rf p' = e_cmf pkt / doppler_packet_nucmf_on_nurf env p'
             \<and> nu_cmf p' = nu_cmf pkt \<and> e_cmf p' = e_cmf pkt
             \<and> stokes p' = (1, 0, 0)
             \<and> pol_dir p' =
                 vec_norm (if dot (cross_prod (dir p') (0, 0, 1)) (cross_prod (dir p') (0, 0, 1))
                               < 0.00000001
                           then cross_prod (dir p') (0, 1, 0)
                           else cross_prod (dir p') (0, 0, 1))
             \<and> vec_len (pol_dir p') = 1
             \<and> dot (pol_dir p') (dir p') = 0"
    if r: "emitt_rpkt env g pkt = Inr (p', g')" for p' g'
  proof -
    from r have u: "\<bar>vec_len newdir - 1\<bar> < 0.00000001" and p: "p' = ?p'"
      unfolding e by (simp_all split: if_splits)
    have D: "doppler_packet_nucmf_on_nurf env ?p' = ?D"
      by (simp add: doppler_packet_nucmf_on_nurf_def)
    have pos: "0 < dot ?c ?c"
    proof (cases "dot ?z ?z < 0.00000001")
      case True
      with pol_dir_nonzero[OF u True] show ?thesis by simp
    next
      case False
      then show ?thesis by simp
    qed
    have orth: "dot ?c newdir = 0" by (simp add: cross_prod_orthogonal)
    have a: "vec_len (vec_norm ?c) = 1" by (rule vec_norm_unit[OF pos])
    have b: "dot (vec_norm ?c) newdir = 0" by (rule vec_norm_orthogonal[OF orth])
    have flds: "pkt_type ?p' = TYPE_RPKT" "last_cross ?p' = NONE" "dir ?p' = newdir"
      "pos ?p' = pos pkt" "prop_time ?p' = prop_time pkt"
      "nu_rf ?p' = nu_cmf pkt / ?D" "e_rf ?p' = e_cmf pkt / ?D"
      "nu_cmf ?p' = nu_cmf pkt" "e_cmf ?p' = e_cmf pkt" "stokes ?p' = (1, 0, 0)"
      "pol_dir ?p' = vec_norm ?c"
      by simp_all
    show ?thesis
      unfolding p D flds using u a b by simp
  qed
  from ret post show ?thesis by blast
qed

theorem emitt_rpkt_postcondition_witness:
  "emitt_outcome (emitt_rpkt ex_env ex_g
       ((ex_pkt 0 4000000000000000 0)\<lparr>pkt_type := TYPE_KPKT, last_cross := NEG_X,
                                        pos := (0, 0, 2997924580)\<rparr>))
     = Inr (TYPE_RPKT, NONE, (0, 0, 1), 40000000000000000 / 9, 10 / 9, (1, 0, 0), (- 1, 0, 0))
   \<and> vec_len (- 1, 0, 0) = 1
   \<and> dot (- 1, 0, 0) (0, 0, 1) = 0"
proof -
  let ?P = "(ex_pkt 0 4000000000000000 0)\<lparr>pkt_type := TYPE_KPKT, last_cross := NEG_X,
                                        pos := (0, 0, 2997924580)\<rparr>"
  have o: "emitt_outcome (emitt_rpkt ex_env ex_g ?P)
     = Inr (TYPE_RPKT, NONE, (0, 0, 1), 40000000000000000 / 9, 10 / 9, (1, 0, 0), (- 1, 0, 0))"
    by (simp add: emitt_outcome_def emitt_rpkt_def ex_defs move_defs vec_len_def vec_norm_def Let_def)
  then obtain p' g' where r: "emitt_rpkt ex_env ex_g ?P = Inr (p', g')"
    by (cases "emitt_rpkt ex_env ex_g ?P") (auto simp: emitt_outcome_def)
  from o r have f: "pol_dir p' = (- 1, 0, 0)" "dir p' = (0, 0, 1)"
    by (simp_all add: emitt_outcome_def)
  from emitt_rpkt_postcondition[of ex_env ex_g ?P] r
  have "vec_len (pol_dir p') = 1 \<and> dot (pol_dir p') (dir p') = 0" by blast
  then have "vec_len (- 1, 0, 0) = 1 \<and> dot (- 1, 0, 0) (0, 0, 1) = 0" unfolding f .
  with o show ?thesis by blast
qed

end
